theory Spec2Isabelle
  imports Complex_Main
begin

section \<open>The geocoding client of OGR (ogr/ogr\_geocoding.cpp)\<close>

text \<open>
  The client turns a free-text query into a layer of place records. This theory embeds
  the functions of \<^verbatim>\<open>ogr_geocoding.cpp\<close>: the query-template validator, session
  creation, the response cache on top of an OGR datasource, the decoder of the XML reply
  and \<^verbatim>\<open>OGRGeocode\<close> itself with its rate limiter.

  Conventions. A \<^verbatim>\<open>char*\<close> that may be NULL is a \<^typ>\<open>string option\<close>; a C
  string is the list of its characters before the terminating NUL. A finite
  \<^verbatim>\<open>double\<close> is the \<^typ>\<open>real\<close> number it stands for, and the arithmetic the file
  does on doubles is rounded. A pointer to a node of a sibling chain is the list made of that node
  and the nodes after it, so \<^verbatim>\<open>psNext\<close> is the tail and NULL the empty list.
  The library functions the file calls (CPL, OGR drivers, HTTP) are collaborators whose
  code is elsewhere; they are fields of the record \<open>env\<close> and every theorem holds for
  all of them.
\<close>

subsection \<open>Case-insensitive comparison\<close>

definition toupper :: "char \<Rightarrow> char" where
  "toupper c =
     (case map_of (zip ''abcdefghijklmnopqrstuvwxyz'' ''ABCDEFGHIJKLMNOPQRSTUVWXYZ'') c of
        Some u \<Rightarrow> u
      | None \<Rightarrow> c)"

text \<open>
  Modelled from the spec: the macros \<^verbatim>\<open>EQUAL\<close> and \<^verbatim>\<open>EQUALN\<close> of cpl\_port.h
  are not in the source file. The spec calls the recognised keys case-insensitive;
  \<open>EQUAL\<close> compares two strings without regard to ASCII case and \<open>EQUALN\<close> does so on
  the first \<open>n\<close> characters.
\<close>

definition EQUAL :: "string \<Rightarrow> string \<Rightarrow> bool" where
  "EQUAL a b = (map toupper a = map toupper b)"

definition EQUALN :: "string \<Rightarrow> string \<Rightarrow> nat \<Rightarrow> bool" where
  "EQUALN a b n = (map toupper (take n a) = map toupper (take n b))"

subsection \<open>Constants of the file\<close>

definition OSM_NOMINATIM_QUERY :: string where
  "OSM_NOMINATIM_QUERY =
     ''http://nominatim.openstreetmap.org/search?q=%s&format=xml&polygon_text=1&addressdetails=1''"

definition MAPQUEST_NOMINATIM_QUERY :: string where
  "MAPQUEST_NOMINATIM_QUERY =
     ''http://open.mapquestapi.com/nominatim/v1/search.php?q=%s&format=xml&addressdetails=1''"

definition CACHE_LAYER_NAME :: string where
  "CACHE_LAYER_NAME = ''ogr_geocode_cache''"

definition DEFAULT_CACHE_SQLITE :: string where
  "DEFAULT_CACHE_SQLITE = ''ogr_geocode_cache.sqlite''"

definition DEFAULT_CACHE_CSV :: string where
  "DEFAULT_CACHE_CSV = ''ogr_geocode_cache.csv''"

definition FIELD_URL :: string where
  "FIELD_URL = ''url''"

definition FIELD_BLOB :: string where
  "FIELD_BLOB = ''blob''"

subsection \<open>Double-precision arithmetic\<close>

text \<open>
  The sum, the difference and the quotient of two doubles are the exact results rounded
  to the nearest number with 53 significant bits (IEEE 754 binary64: exponents from
  \<open>-1022\<close> to \<open>1023\<close>, gradual underflow below, a tie goes to the even significand),
  which is what the C expressions compute when every operation is carried out in double
  precision. Infinities and NaN have no counterpart in \<^typ>\<open>real\<close>: the numbers met
  here, the times of the clock and the delay of a session, are taken to be finite and
  below the largest double.

  \<open>ilog2 n\<close> is the position of the leading bit of \<open>n\<close>; \<open>binade x\<close> is the
  exponent \<open>e\<close> with \<open>2^e \<le> \<bar>x\<bar> < 2^(e+1)\<close>, and \<open>-1022\<close> for the numbers below
  the normal range; \<open>pow2 (binade x - 52)\<close> is the distance between two neighbouring
  doubles around \<open>x\<close>.
\<close>

function ilog2 :: "int \<Rightarrow> int" where
  "ilog2 n = (if n < 2 then 0 else 1 + ilog2 (n div 2))"
  by pat_completeness auto
termination
  by (relation "measure nat") auto

declare ilog2.simps [simp del]

definition pow2 :: "int \<Rightarrow> real" where
  "pow2 k = (if 0 \<le> k then 2 ^ nat k else 1 / 2 ^ nat (- k))"

definition binade :: "real \<Rightarrow> int" where
  "binade x =
     (let a = \<bar>x\<bar> in
      max (- 1022)
        (if 1 \<le> a then ilog2 \<lfloor>a\<rfloor>
         else if a = 0 then - 1022
         else if \<lceil>1 / a\<rceil> \<le> 1 then 0
         else - (1 + ilog2 (\<lceil>1 / a\<rceil> - 1))))"

definition round_even :: "real \<Rightarrow> int" where
  "round_even q =
     (let n = \<lfloor>q\<rfloor>; r = q - of_int n in
      if r < 1 / 2 then n
      else if 1 / 2 < r then n + 1
      else if even n then n else n + 1)"

definition double_round :: "real \<Rightarrow> real" where
  "double_round x =
     (if x = 0 then 0
      else of_int (round_even (x / pow2 (binade x - 52))) * pow2 (binade x - 52))"

definition double_add :: "real \<Rightarrow> real \<Rightarrow> real" where
  "double_add x y = double_round (x + y)"

definition double_sub :: "real \<Rightarrow> real \<Rightarrow> real" where
  "double_sub x y = double_round (x - y)"

definition double_div :: "real \<Rightarrow> real \<Rightarrow> real" where
  "double_div x y = double_round (x / y)"

definition double_of_int :: "int \<Rightarrow> real" where
  "double_of_int n = double_round (of_int n)"

text \<open>What rounding changes in a number.\<close>

definition round_off :: "real \<Rightarrow> real" where
  "round_off x = \<bar>double_round x - x\<bar>"

subsection \<open>OGR data: geometries, features, layers, datasources\<close>

datatype OGRFieldType = OFTInteger | OFTReal | OFTString

text \<open>
  A geometry is either the point the decoder builds itself, or whatever the WKT reader
  returned, kept as an opaque value.
\<close>

datatype OGRGeometry = OGRPoint real real | OGRParsedWkt string

text \<open>
  A feature holds, for each field index, the string last given to \<^verbatim>\<open>SetField\<close>
  (\<open>None\<close> while the field is unset), and an optional geometry.
\<close>

record OGRFeature =
  pauFields :: "nat \<Rightarrow> string option"
  poGeometry :: "OGRGeometry option"

record OGRLayer =
  poFeatureDefn :: "(string \<times> OGRFieldType) list"
  papoFeatures :: "OGRFeature list"

text \<open>
  A datasource maps layer names to layers. Whether it accepts a new layer, a new field
  or a new feature is decided by the driver; the three flags stand for its answers.
  \<open>executedSQL\<close> keeps the statements passed to \<^verbatim>\<open>ExecuteSQL\<close>.
\<close>

record OGRDataSource =
  papoLayers :: "string \<Rightarrow> OGRLayer option"
  canCreateLayer :: bool
  canCreateField :: bool
  canCreateFeature :: bool
  executedSQL :: "string list"

subsection \<open>XML trees of cpl\_minixml\<close>

datatype CPLXMLNodeType = CXT_Element | CXT_Text | CXT_Attribute | CXT_Comment | CXT_Literal

datatype CPLXMLNode =
  CPLXMLNode (eType: CPLXMLNodeType) (pszValue: string) (psChild: "CPLXMLNode list")

subsection \<open>The HTTP reply\<close>

record CPLHTTPResult =
  pabyData :: "string option"

subsection \<open>The collaborators\<close>

text \<open>
  \<open>CPLHTTPFetch\<close> is given the URL, the options and the time at which the request
  starts; it answers with the time the request took, in microseconds, and the result
  (\<open>None\<close> for NULL). \<open>OGR_Dr_CreateDataSource\<close> is given the driver, the name and the
  creation options. \<open>CPLEscapeString_URL\<close> is \<^verbatim>\<open>CPLEscapeString\<close> with the scheme
  \<^verbatim>\<open>CPLES_URL\<close>; \<open>GDALVersionInfo\<close> is the string \<^verbatim>\<open>GDALVersionInfo("")\<close>.
\<close>

record env =
  CSLFetchNameValue :: "string list \<Rightarrow> string \<Rightarrow> string option"
  CPLGetConfigOption :: "string \<Rightarrow> string option"
  CSLTestBoolean :: "string \<Rightarrow> bool"
  CPLGetExtension :: "string \<Rightarrow> string"
  CPLAtofM :: "string \<Rightarrow> real"
  GDALVersionInfo :: string
  CPLEscapeString_URL :: "string \<Rightarrow> string"
  CPLParseXMLString :: "string \<Rightarrow> CPLXMLNode list"
  CPLSearchXMLNode :: "CPLXMLNode list \<Rightarrow> string \<Rightarrow> CPLXMLNode option"
  CPLGetXMLValue :: "CPLXMLNode \<Rightarrow> string option"
  createFromWkt :: "string \<Rightarrow> OGRGeometry option"
  OGROpen :: "string \<Rightarrow> OGRDataSource option"
  OGRGetDriverByName :: "string \<Rightarrow> string option"
  OGR_Dr_CreateDataSource :: "string \<Rightarrow> string \<Rightarrow> string list \<Rightarrow> OGRDataSource option"
  CPLHTTPFetch :: "string \<Rightarrow> string list \<Rightarrow> real \<Rightarrow> nat \<times> CPLHTTPResult option"

subsection \<open>The session\<close>

record OGRGeocodingSession =
  pszCacheFilename :: string
  pszGeocodingService :: string
  pszEmail :: "string option"
  pszApplication :: string
  pszQueryTemplate :: string
  pszExtraQueryParameters :: "string option"
  bReadCache :: bool
  bWriteCache :: bool
  dfDelayBetweenQueries :: real
  poDS :: "OGRDataSource option"

subsection \<open>OGRGeocodeGetParameter\<close>

definition OGRGeocodeGetParameter ::
  "env \<Rightarrow> string list \<Rightarrow> string \<Rightarrow> string option \<Rightarrow> string option" where
  "OGRGeocodeGetParameter e papszOptions pszKey pszDefaultValue =
     (case CSLFetchNameValue e papszOptions pszKey of
        Some pszRet \<Rightarrow> Some pszRet
      | None \<Rightarrow>
          (case CPLGetConfigOption e (''OGR_GEOCODE_'' @ pszKey) of
             Some v \<Rightarrow> Some v
           | None \<Rightarrow> pszDefaultValue))"

subsection \<open>OGRGeocodeHasStringValidFormat\<close>

text \<open>
  The scanning loop, with the flag \<open>bFoundPctS\<close> as argument; it returns the pair
  \<open>(bValidFormat, bFoundPctS)\<close> the loop ends with. After \<^verbatim>\<open>%%\<close> the pointer moves
  by two, after \<^verbatim>\<open>%s\<close> by one; a \<^verbatim>\<open>%\<close> at the end of the string is followed by
  the terminator, which is neither of the two.
\<close>

fun HasStringValidFormat_loop :: "string \<Rightarrow> bool \<Rightarrow> bool \<times> bool" where
  "HasStringValidFormat_loop [] bFoundPctS = (True, bFoundPctS)"
| "HasStringValidFormat_loop (c # rest) bFoundPctS =
     (if c = CHR ''%'' then
        (case rest of
           [] \<Rightarrow> (False, bFoundPctS)
         | d # rest' \<Rightarrow>
             if d = CHR ''%'' then HasStringValidFormat_loop rest' bFoundPctS
             else if d = CHR ''s'' then
               (if bFoundPctS then (False, bFoundPctS)
                else HasStringValidFormat_loop rest True)
             else (False, bFoundPctS))
      else HasStringValidFormat_loop rest bFoundPctS)"

definition OGRGeocodeHasStringValidFormat :: "string \<Rightarrow> bool" where
  "OGRGeocodeHasStringValidFormat pszTemplate =
     (case HasStringValidFormat_loop pszTemplate False of
        (bValidFormat, bFoundPctS) \<Rightarrow> if \<not> bFoundPctS then False else bValidFormat)"

text \<open>
  The wording of the specification, for comparison with the code: a string in which
  every \<^verbatim>\<open>%\<close> belongs to a \<^verbatim>\<open>%%\<close> pair, reading from the left, has only escaped
  percent signs; a template is well formed when it is such a string, the placeholder
  \<^verbatim>\<open>%s\<close>, and such a string again.
\<close>

fun only_escaped_percents :: "string \<Rightarrow> bool" where
  "only_escaped_percents [] = True"
| "only_escaped_percents [c] = (c \<noteq> CHR ''%'')"
| "only_escaped_percents (c # d # rest) =
     (if c = CHR ''%'' then d = CHR ''%'' \<and> only_escaped_percents rest
      else only_escaped_percents (d # rest))"

definition spec_one_placeholder :: "string \<Rightarrow> bool" where
  "spec_one_placeholder t =
     (\<exists>a b. t = a @ ''%s'' @ b \<and> only_escaped_percents a \<and> only_escaped_percents b)"

text \<open>
  A string in which every \<^verbatim>\<open>%\<close>, reading from the left, starts a \<^verbatim>\<open>%%\<close> or a
  \<^verbatim>\<open>%s\<close>: what may stand before a percent sign that is followed by anything else.
\<close>

fun escapes_and_placeholders :: "string \<Rightarrow> bool" where
  "escapes_and_placeholders [] = True"
| "escapes_and_placeholders [c] = (c \<noteq> CHR ''%'')"
| "escapes_and_placeholders (c # d # rest) =
     (if c = CHR ''%'' then (d = CHR ''%'' \<or> d = CHR ''s'') \<and> escapes_and_placeholders rest
      else escapes_and_placeholders (d # rest))"

subsection \<open>OGRGeocodeCreateSession\<close>

datatype session_error =
  UnhandledCacheDatasource
| QueryTemplateNotDefined
| QueryTemplateInvalidFormat

definition str_or :: "string option \<Rightarrow> string \<Rightarrow> string" where
  "str_or v d = (case v of Some s \<Rightarrow> s | None \<Rightarrow> d)"

text \<open>
  The service name, the default template that goes with it, and the template the
  parameters resolve to (lines 193 to 217).
\<close>

definition session_service :: "env \<Rightarrow> string list \<Rightarrow> string" where
  "session_service e papszOptions =
     str_or (OGRGeocodeGetParameter e papszOptions ''SERVICE'' (Some ''OSM_NOMINATIM''))
            ''OSM_NOMINATIM''"

definition QueryTemplateDefault :: "string \<Rightarrow> string option" where
  "QueryTemplateDefault geocodingService =
     (if EQUAL geocodingService ''OSM_NOMINATIM'' then Some OSM_NOMINATIM_QUERY
      else if EQUAL geocodingService ''MAPQUEST_NOMINATIM'' then Some MAPQUEST_NOMINATIM_QUERY
      else None)"

definition session_query_template :: "env \<Rightarrow> string list \<Rightarrow> string option" where
  "session_query_template e papszOptions =
     OGRGeocodeGetParameter e papszOptions ''QUERY_TEMPLATE''
       (QueryTemplateDefault (session_service e papszOptions))"

definition OGRGeocodeCreateSession :: "env \<Rightarrow> string list \<Rightarrow> session_error + OGRGeocodingSession" where
  "OGRGeocodeCreateSession e papszOptions =
     (let cacheFilename =
            str_or (OGRGeocodeGetParameter e papszOptions ''CACHE_FILE'' (Some DEFAULT_CACHE_SQLITE))
                   DEFAULT_CACHE_SQLITE;
          osExt = CPLGetExtension e cacheFilename
      in
      if \<not> (EQUALN cacheFilename ''PG:'' 3 \<or> EQUAL osExt ''csv'' \<or> EQUAL osExt ''sqlite'')
      then Inl UnhandledCacheDatasource
      else
        let readCache = CSLTestBoolean e
              (str_or (OGRGeocodeGetParameter e papszOptions ''READ_CACHE'' (Some ''TRUE'')) ''TRUE'');
            writeCache = CSLTestBoolean e
              (str_or (OGRGeocodeGetParameter e papszOptions ''WRITE_CACHE'' (Some ''TRUE'')) ''TRUE'');
            email = OGRGeocodeGetParameter e papszOptions ''EMAIL'' None;
            application =
              str_or (OGRGeocodeGetParameter e papszOptions ''APPLICATION'' (Some (GDALVersionInfo e)))
                     (GDALVersionInfo e);
            delayBetweenQueries = CPLAtofM e
              (str_or (OGRGeocodeGetParameter e papszOptions ''DELAY'' (Some ''1.0'')) ''1.0'')
        in
        (case session_query_template e papszOptions of
           None \<Rightarrow> Inl QueryTemplateNotDefined
         | Some queryTemplate \<Rightarrow>
             if \<not> OGRGeocodeHasStringValidFormat queryTemplate
             then Inl QueryTemplateInvalidFormat
             else Inr \<lparr> pszCacheFilename = cacheFilename,
                        pszGeocodingService = session_service e papszOptions,
                        pszEmail = email,
                        pszApplication = application,
                        pszQueryTemplate = queryTemplate,
                        pszExtraQueryParameters =
                          OGRGeocodeGetParameter e papszOptions ''EXTRA_QUERY_PARAMETERS'' None,
                        bReadCache = readCache,
                        bWriteCache = writeCache,
                        dfDelayBetweenQueries = delayBetweenQueries,
                        poDS = None \<rparr>))"

subsection \<open>The response cache: OGR operations\<close>

text \<open>
  Modelled from the spec: \<^verbatim>\<open>OGRFeatureDefn::GetFieldIndex\<close> is not in the source
  file. The spec speaks of a name being present in the field schema; the function gives
  the index of the first field with that name, and \<open>None\<close> (the code's \<open>-1\<close>) when
  there is none.
\<close>

fun GetFieldIndex :: "(string \<times> OGRFieldType) list \<Rightarrow> string \<Rightarrow> nat option" where
  "GetFieldIndex [] n = None"
| "GetFieldIndex (f # fs) n =
     (if fst f = n then Some 0 else map_option Suc (GetFieldIndex fs n))"

text \<open>
  Modelled from the spec: the methods of \<^verbatim>\<open>OGRDataSource\<close> and \<^verbatim>\<open>OGRLayer\<close>
  are not in the source file. A pointer to a layer of a datasource is the layer's name.
  Creation appends (a layer with no field, a field, a feature) when the driver accepts
  it; the attribute filter keeps the features whose URL field is exactly the given URL
  and \<^verbatim>\<open>GetNextFeature\<close> returns the first of them.
\<close>

definition GetLayerByName :: "OGRDataSource \<Rightarrow> string \<Rightarrow> string option" where
  "GetLayerByName ds n = (case papoLayers ds n of Some l \<Rightarrow> Some n | None \<Rightarrow> None)"

definition CreateLayer :: "OGRDataSource \<Rightarrow> string \<Rightarrow> OGRDataSource \<times> string option" where
  "CreateLayer ds n =
     (if canCreateLayer ds
      then (ds\<lparr>papoLayers := (papoLayers ds)(n \<mapsto> \<lparr>poFeatureDefn = [], papoFeatures = []\<rparr>)\<rparr>, Some n)
      else (ds, None))"

definition CreateField :: "OGRDataSource \<Rightarrow> string \<Rightarrow> string \<times> OGRFieldType \<Rightarrow> OGRDataSource" where
  "CreateField ds poLayer fld =
     (case papoLayers ds poLayer of
        None \<Rightarrow> ds
      | Some l \<Rightarrow>
          if canCreateField ds
          then ds\<lparr>papoLayers := (papoLayers ds)(poLayer \<mapsto> l\<lparr>poFeatureDefn := poFeatureDefn l @ [fld]\<rparr>)\<rparr>
          else ds)"

definition ExecuteSQL :: "OGRDataSource \<Rightarrow> string \<Rightarrow> OGRDataSource" where
  "ExecuteSQL ds pszSQL = ds\<lparr>executedSQL := executedSQL ds @ [pszSQL]\<rparr>"

definition CreateFeature :: "OGRDataSource \<Rightarrow> string \<Rightarrow> OGRFeature \<Rightarrow> OGRDataSource \<times> bool" where
  "CreateFeature ds poLayer poFeature =
     (case papoLayers ds poLayer of
        None \<Rightarrow> (ds, False)
      | Some l \<Rightarrow>
          if canCreateFeature ds
          then (ds\<lparr>papoLayers := (papoLayers ds)(poLayer \<mapsto> l\<lparr>papoFeatures := papoFeatures l @ [poFeature]\<rparr>)\<rparr>,
                True)
          else (ds, False))"

definition SetField_by_name :: "(string \<times> OGRFieldType) list \<Rightarrow> OGRFeature \<Rightarrow> string \<Rightarrow> string \<Rightarrow> OGRFeature" where
  "SetField_by_name defn poFeature pszFName v =
     (case GetFieldIndex defn pszFName of
        None \<Rightarrow> poFeature
      | Some i \<Rightarrow> poFeature\<lparr>pauFields := (pauFields poFeature)(i \<mapsto> v)\<rparr>)"

definition url_filter :: "OGRLayer \<Rightarrow> string \<Rightarrow> OGRFeature list" where
  "url_filter l pszURL =
     (case GetFieldIndex (poFeatureDefn l) FIELD_URL of
        None \<Rightarrow> []
      | Some i \<Rightarrow> filter (\<lambda>f. pauFields f i = Some pszURL) (papoFeatures l))"

definition GetNextFeature :: "OGRFeature list \<Rightarrow> OGRFeature option" where
  "GetNextFeature fs = (case fs of [] \<Rightarrow> None | f # _ \<Rightarrow> Some f)"

subsection \<open>OGRGeocodeGetCacheLayer\<close>

text \<open>
  The function is embedded in parts, in the order of the code: opening the datasource
  (with the retry on the default CSV name), creating it (with the switch to CSV when the
  driver is missing and the retry in memory), finding or creating the cache layer, and
  checking its fields. The first two parts return the session, since the cache file
  name may be replaced, and the extension \<open>osExt\<close>. The thread-local setting of
  \<^verbatim>\<open>OGR_SQLITE_SYNCHRONOUS\<close> is put back to its former value before the function
  returns and has no counterpart here. The registration of the drivers
  (\<^verbatim>\<open>OGRRegisterAll\<close>) belongs to the environment: \<open>OGRGetDriverByName\<close> answers
  for the drivers that are registered then. The lock \<^verbatim>\<open>hMutex\<close> has no counterpart
  either: the embedding follows one thread.
\<close>

definition GetCacheLayer_open ::
  "env \<Rightarrow> OGRGeocodingSession \<Rightarrow> string \<Rightarrow> OGRGeocodingSession \<times> string \<times> OGRDataSource option" where
  "GetCacheLayer_open e hSession osExt =
     (case OGROpen e (pszCacheFilename hSession) of
        Some ds \<Rightarrow> (hSession, osExt, Some ds)
      | None \<Rightarrow>
          if EQUAL (pszCacheFilename hSession) DEFAULT_CACHE_SQLITE then
            (case OGROpen e DEFAULT_CACHE_CSV of
               Some ds \<Rightarrow> (hSession\<lparr>pszCacheFilename := DEFAULT_CACHE_CSV\<rparr>, ''csv'', Some ds)
             | None \<Rightarrow> (hSession, osExt, None))
          else (hSession, osExt, None))"

definition GetCacheLayer_create ::
  "env \<Rightarrow> OGRGeocodingSession \<Rightarrow> string \<Rightarrow> OGRGeocodingSession \<times> string \<times> OGRDataSource option" where
  "GetCacheLayer_create e hSession osExt =
     (let hDriver0 = OGRGetDriverByName e osExt;
          switch = (hDriver0 = None \<and> EQUAL (pszCacheFilename hSession) DEFAULT_CACHE_SQLITE);
          h1 = (if switch then hSession\<lparr>pszCacheFilename := DEFAULT_CACHE_CSV\<rparr> else hSession);
          osExt1 = (if switch then ''csv'' else osExt);
          hDriver = (if switch then OGRGetDriverByName e osExt1 else hDriver0)
      in
      case hDriver of
        None \<Rightarrow> (h1, osExt1, None)
      | Some drv \<Rightarrow>
          let papszOptions = (if EQUAL osExt1 ''SQLITE'' then [''METADATA=FALSE''] else [])
          in
          (case OGR_Dr_CreateDataSource e drv (pszCacheFilename h1) papszOptions of
             Some ds \<Rightarrow> (h1, osExt1, Some ds)
           | None \<Rightarrow>
               if EQUAL osExt1 ''SQLITE'' \<or> EQUAL osExt1 ''CSV'' then
                 let h2 = h1\<lparr>pszCacheFilename := ''/vsimem/'' @ CACHE_LAYER_NAME @ ''.'' @ osExt1\<rparr>
                 in (h2, osExt1, OGR_Dr_CreateDataSource e drv (pszCacheFilename h2) papszOptions)
               else (h1, osExt1, None)))"

text \<open>Lines 355 to 379: the cache layer is looked up, and created if asked for.\<close>

definition GetCacheLayer_find ::
  "OGRGeocodingSession \<Rightarrow> OGRDataSource \<Rightarrow> string \<Rightarrow> bool \<Rightarrow> OGRDataSource \<times> string option" where
  "GetCacheLayer_find hSession ds osExt bCreateIfNecessary =
     (if bCreateIfNecessary \<and> GetLayerByName ds CACHE_LAYER_NAME = None then
        (case CreateLayer ds CACHE_LAYER_NAME of
           (dsc, None) \<Rightarrow> (dsc, None)
         | (dsc, Some l) \<Rightarrow>
             let dsu = CreateField dsc l (FIELD_URL, OFTString);
                 dsb = CreateField dsu l (FIELD_BLOB, OFTString)
             in
             (if EQUAL osExt ''SQLITE'' \<or> EQUALN (pszCacheFilename hSession) ''PG:'' 3
              then ExecuteSQL dsb
                     (''CREATE INDEX idx_'' @ FIELD_URL @ ''_'' @ l @ '' ON '' @ l
                        @ ''('' @ FIELD_URL @ '')'')
              else dsb,
              Some l))
      else (ds, GetLayerByName ds CACHE_LAYER_NAME))"

text \<open>Lines 381 to 392: the layer must have the two fields.\<close>

definition GetCacheLayer_layer ::
  "OGRGeocodingSession \<Rightarrow> OGRDataSource \<Rightarrow> string \<Rightarrow> bool \<Rightarrow> OGRDataSource \<times> (string \<times> nat) option" where
  "GetCacheLayer_layer hSession ds osExt bCreateIfNecessary =
     (case GetCacheLayer_find hSession ds osExt bCreateIfNecessary of
        (ds1, None) \<Rightarrow> (ds1, None)
      | (ds1, Some poLayer) \<Rightarrow>
          (case papoLayers ds1 poLayer of
             None \<Rightarrow> (ds1, None)
           | Some l \<Rightarrow>
               if GetFieldIndex (poFeatureDefn l) FIELD_URL = None then (ds1, None)
               else
                 (case GetFieldIndex (poFeatureDefn l) FIELD_BLOB of
                    None \<Rightarrow> (ds1, None)
                  | Some nIdxBlob \<Rightarrow> (ds1, Some (poLayer, nIdxBlob)))))"

text \<open>Lines 280 to 350, entered when the session has no datasource yet.\<close>

definition GetCacheLayer_datasource ::
  "env \<Rightarrow> OGRGeocodingSession \<Rightarrow> bool \<Rightarrow> OGRGeocodingSession \<times> string \<times> OGRDataSource option" where
  "GetCacheLayer_datasource e hSession bCreateIfNecessary =
     (case GetCacheLayer_open e hSession (CPLGetExtension e (pszCacheFilename hSession)) of
        (h1, osExt1, ds1) \<Rightarrow>
          if bCreateIfNecessary \<and> ds1 = None \<and> \<not> EQUALN (pszCacheFilename h1) ''PG:'' 3
          then GetCacheLayer_create e h1 osExt1
          else (h1, osExt1, ds1))"

definition OGRGeocodeGetCacheLayer ::
  "env \<Rightarrow> OGRGeocodingSession \<Rightarrow> bool \<Rightarrow> OGRGeocodingSession \<times> (string \<times> nat) option" where
  "OGRGeocodeGetCacheLayer e hSession bCreateIfNecessary =
     (case (case poDS hSession of
              Some ds \<Rightarrow> (hSession, CPLGetExtension e (pszCacheFilename hSession), Some ds)
            | None \<Rightarrow> GetCacheLayer_datasource e hSession bCreateIfNecessary) of
        (h, osExt, None) \<Rightarrow> (h, None)
      | (h, osExt, Some ds) \<Rightarrow>
          (case GetCacheLayer_layer h ds osExt bCreateIfNecessary of
             (ds', r) \<Rightarrow> (h\<lparr>poDS := Some ds'\<rparr>, r)))"

subsection \<open>OGRGeocodeGetFromCache and OGRGeocodePutIntoCache\<close>

definition OGRGeocodeGetFromCache ::
  "env \<Rightarrow> OGRGeocodingSession \<Rightarrow> string \<Rightarrow> OGRGeocodingSession \<times> string option" where
  "OGRGeocodeGetFromCache e hSession pszURL =
     (case OGRGeocodeGetCacheLayer e hSession False of
        (h, None) \<Rightarrow> (h, None)
      | (h, Some (poLayer, nIdxBlob)) \<Rightarrow>
          (case poDS h of
             None \<Rightarrow> (h, None)
           | Some ds \<Rightarrow>
               (case papoLayers ds poLayer of
                  None \<Rightarrow> (h, None)
                | Some l \<Rightarrow>
                    (case GetNextFeature (url_filter l pszURL) of
                       None \<Rightarrow> (h, None)
                     | Some poFeature \<Rightarrow> (h, pauFields poFeature nIdxBlob)))))"

definition OGRGeocodePutIntoCache ::
  "env \<Rightarrow> OGRGeocodingSession \<Rightarrow> string \<Rightarrow> string \<Rightarrow> OGRGeocodingSession \<times> bool" where
  "OGRGeocodePutIntoCache e hSession pszURL pszContent =
     (case OGRGeocodeGetCacheLayer e hSession True of
        (h, None) \<Rightarrow> (h, False)
      | (h, Some (poLayer, nIdxBlob)) \<Rightarrow>
          (case poDS h of
             None \<Rightarrow> (h, False)
           | Some ds \<Rightarrow>
               (case papoLayers ds poLayer of
                  None \<Rightarrow> (h, False)
                | Some l \<Rightarrow>
                    let f0 = \<lparr>pauFields = (\<lambda>_. None), poGeometry = None\<rparr>;
                        f1 = SetField_by_name (poFeatureDefn l) f0 FIELD_URL pszURL;
                        f2 = SetField_by_name (poFeatureDefn l) f1 FIELD_BLOB pszContent
                    in (case CreateFeature ds poLayer f2 of
                          (ds', bRet) \<Rightarrow> (h\<lparr>poDS := Some ds'\<rparr>, bRet)))))"

subsection \<open>OGRGeocodeBuildLayer\<close>

text \<open>
  What the first loop over the children of a place carries: the field definitions of the
  layer, to which \<^verbatim>\<open>CreateField\<close> appends, and the four locals of the place.
\<close>

record place_scan =
  scanDefn :: "(string \<times> OGRFieldType) list"
  bFoundLat :: bool
  dfLat :: real
  bFoundLon :: bool
  dfLon :: real

definition add_field :: "env \<Rightarrow> CPLXMLNode \<Rightarrow> place_scan \<Rightarrow> place_scan" where
  "add_field e child st =
     (let pszName = pszValue child;
          pszVal = CPLGetXMLValue e child
      in
      if GetFieldIndex (scanDefn st) pszName = None \<and> pszName \<noteq> ''geotext'' then
        (if pszName = ''place_rank'' then
           st\<lparr>scanDefn := scanDefn st @ [(pszName, OFTInteger)]\<rparr>
         else if pszName = ''lat'' then
           (case pszVal of
              Some v \<Rightarrow> st\<lparr>bFoundLat := True, dfLat := CPLAtofM e v,
                           scanDefn := scanDefn st @ [(pszName, OFTReal)]\<rparr>
            | None \<Rightarrow> st\<lparr>scanDefn := scanDefn st @ [(pszName, OFTReal)]\<rparr>)
         else if pszName = ''lon'' then
           (case pszVal of
              Some v \<Rightarrow> st\<lparr>bFoundLon := True, dfLon := CPLAtofM e v,
                           scanDefn := scanDefn st @ [(pszName, OFTReal)]\<rparr>
            | None \<Rightarrow> st\<lparr>scanDefn := scanDefn st @ [(pszName, OFTReal)]\<rparr>)
         else st\<lparr>scanDefn := scanDefn st @ [(pszName, OFTString)]\<rparr>)
      else st)"

fun first_iteration :: "env \<Rightarrow> CPLXMLNode list \<Rightarrow> place_scan \<Rightarrow> place_scan" where
  "first_iteration e [] st = st"
| "first_iteration e (child # psNext) st = first_iteration e psNext (add_field e child st)"

definition fill_field ::
  "env \<Rightarrow> (string \<times> OGRFieldType) list \<Rightarrow> CPLXMLNode \<Rightarrow> OGRFeature \<Rightarrow> OGRFeature" where
  "fill_field e poFDefn child poFeature =
     (let pszName = pszValue child;
          pszVal = CPLGetXMLValue e child
      in
      case GetFieldIndex poFDefn pszName of
        Some nIdx \<Rightarrow>
          (case pszVal of
             Some v \<Rightarrow> poFeature\<lparr>pauFields := (pauFields poFeature)(nIdx \<mapsto> v)\<rparr>
           | None \<Rightarrow> poFeature)
      | None \<Rightarrow>
          if pszName = ''geotext'' then
            (case pszVal of
               None \<Rightarrow> poFeature
             | Some pszWKT \<Rightarrow>
                 (case createFromWkt e pszWKT of
                    Some g \<Rightarrow> poFeature\<lparr>poGeometry := Some g\<rparr>
                  | None \<Rightarrow> poFeature))
          else poFeature)"

fun second_iteration ::
  "env \<Rightarrow> (string \<times> OGRFieldType) list \<Rightarrow> CPLXMLNode list \<Rightarrow> OGRFeature \<Rightarrow> OGRFeature" where
  "second_iteration e poFDefn [] poFeature = poFeature"
| "second_iteration e poFDefn (child # psNext) poFeature =
     second_iteration e poFDefn psNext (fill_field e poFDefn child poFeature)"

definition new_OGRFeature :: OGRFeature where
  "new_OGRFeature = \<lparr>pauFields = (\<lambda>_. None), poGeometry = None\<rparr>"

definition scan_place :: "env \<Rightarrow> (string \<times> OGRFieldType) list \<Rightarrow> CPLXMLNode \<Rightarrow> place_scan" where
  "scan_place e poFDefn psPlace =
     first_iteration e (psChild psPlace)
       \<lparr>scanDefn = poFDefn, bFoundLat = False, dfLat = 0, bFoundLon = False, dfLon = 0\<rparr>"

definition place_feature :: "env \<Rightarrow> place_scan \<Rightarrow> CPLXMLNode \<Rightarrow> OGRFeature" where
  "place_feature e st psPlace =
     (let poFeature = second_iteration e (scanDefn st) (psChild psPlace) new_OGRFeature
      in
      if poGeometry poFeature = None \<and> bFoundLon st \<and> bFoundLat st
      then poFeature\<lparr>poGeometry := Some (OGRPoint (dfLon st) (dfLat st))\<rparr>
      else poFeature)"

definition BuildLayer_place :: "env \<Rightarrow> CPLXMLNode \<Rightarrow> OGRLayer \<Rightarrow> OGRLayer" where
  "BuildLayer_place e psPlace poLayer =
     (let st = scan_place e (poFeatureDefn poLayer) psPlace
      in \<lparr>poFeatureDefn = scanDefn st,
          papoFeatures = papoFeatures poLayer @ [place_feature e st psPlace]\<rparr>)"

definition is_place :: "CPLXMLNode \<Rightarrow> bool" where
  "is_place psPlace = (eType psPlace = CXT_Element \<and> pszValue psPlace = ''place'')"

fun BuildLayer_places :: "env \<Rightarrow> CPLXMLNode list \<Rightarrow> OGRLayer \<Rightarrow> OGRLayer" where
  "BuildLayer_places e [] poLayer = poLayer"
| "BuildLayer_places e (psPlace # psNext) poLayer =
     BuildLayer_places e psNext
       (if is_place psPlace then BuildLayer_place e psPlace poLayer else poLayer)"

text \<open>
  The layer is the memory layer named \<^verbatim>\<open>place\<close>, created with no field and no
  feature; NULL is \<open>None\<close>.
\<close>

definition OGRGeocodeBuildLayer :: "env \<Rightarrow> string \<Rightarrow> OGRLayer option" where
  "OGRGeocodeBuildLayer e pszContent =
     (let psRoot = CPLParseXMLString e pszContent
      in
      if psRoot = [] then None
      else
        (case CPLSearchXMLNode e psRoot ''=searchresults'' of
           None \<Rightarrow> None
         | Some psSearchResults \<Rightarrow>
             Some (BuildLayer_places e (psChild psSearchResults)
                     \<lparr>poFeatureDefn = [], papoFeatures = []\<rparr>)))"

text \<open>
  The field definitions of the layer at the moment the loop reaches the place of index
  \<open>i\<close> among the places of the container.
\<close>

definition schema_before :: "env \<Rightarrow> CPLXMLNode list \<Rightarrow> nat \<Rightarrow> (string \<times> OGRFieldType) list" where
  "schema_before e places i =
     poFeatureDefn (BuildLayer_places e (take i places) \<lparr>poFeatureDefn = [], papoFeatures = []\<rparr>)"

subsection \<open>OGRGeocode\<close>

text \<open>
  The state outside the session: the clock, which is the time in seconds since the
  epoch, the two static time stamps, and the list of what the call did to the outside, in
  order. Time passes while the thread sleeps and while a request is under way. A
  \<open>GetTimeOfDay\<close> event carries the clock when it was read, a \<open>Sleep\<close> event the time
  asked for, an \<open>HTTPFetch\<close> event the URL, the options, and the clock when the
  request started and when it ended; a \<open>CacheInsert\<close> event the URL, the body and the
  flag returned by \<^verbatim>\<open>OGRGeocodePutIntoCache\<close>.
\<close>

datatype service_kind = OSMNominatim | MapQuestNominatim

datatype event =
  GetTimeOfDay real
| Sleep real
| HTTPFetch string "string list" real real
| CacheLookup string
| CacheInsert string string bool
| CPLError string

record world =
  clock :: real
  dfLastQueryTimeStampOSMNominatim :: real
  dfLastQueryTimeStampMapQuestNominatim :: real
  trace :: "event list"

definition log_event :: "event \<Rightarrow> world \<Rightarrow> world" where
  "log_event ev w = w\<lparr>trace := trace w @ [ev]\<rparr>"

text \<open>
  Modelled from the spec: \<^verbatim>\<open>gettimeofday\<close> is not in the source file; the spec has
  the limiter read the current time. The call stores the whole seconds since the epoch
  and the microseconds of the second under way.
\<close>

record timeval =
  tv_sec :: int
  tv_usec :: int

definition timeval_at :: "real \<Rightarrow> timeval" where
  "timeval_at c = \<lparr>tv_sec = \<lfloor>c\<rfloor>, tv_usec = \<lfloor>(c - of_int \<lfloor>c\<rfloor>) * 1000000\<rfloor>\<rparr>"

definition gettimeofday :: "world \<Rightarrow> timeval \<times> world" where
  "gettimeofday w = (timeval_at (clock w), log_event (GetTimeOfDay (clock w)) w)"

text \<open>
  The expression \<^verbatim>\<open>tv.tv_sec + tv.tv_usec / 1e6\<close> of lines 655 and 667: both
  integers are converted to double, the quotient is rounded, then the sum.
  \<open>clock_reading c\<close> is the double the expression gives when the clock is \<open>c\<close>.
\<close>

definition timeval_seconds :: "timeval \<Rightarrow> real" where
  "timeval_seconds tv =
     double_add (double_of_int (tv_sec tv)) (double_div (double_of_int (tv_usec tv)) 1000000)"

definition clock_reading :: "real \<Rightarrow> real" where
  "clock_reading c = timeval_seconds (timeval_at c)"

text \<open>
  Modelled from the spec: \<^verbatim>\<open>CPLSleep\<close> is not in the source file; according to the
  spec it blocks the calling thread for the given time, so the clock moves by the number
  of seconds asked for.
\<close>

definition CPLSleep :: "real \<Rightarrow> world \<Rightarrow> world" where
  "CPLSleep d w = log_event (Sleep d) (w\<lparr>clock := clock w + d\<rparr>)"

definition HTTPFetch_call ::
  "env \<Rightarrow> string \<Rightarrow> string list \<Rightarrow> world \<Rightarrow> CPLHTTPResult option \<times> world" where
  "HTTPFetch_call e pszURL papszHTTPOptions w =
     (case CPLHTTPFetch e pszURL papszHTTPOptions (clock w) of
        (usec, psResult) \<Rightarrow>
          (psResult,
           log_event (HTTPFetch pszURL papszHTTPOptions (clock w) (clock w + real usec / 1000000))
             (w\<lparr>clock := clock w + real usec / 1000000\<rparr>)))"

definition LastQueryTime :: "service_kind \<Rightarrow> world \<Rightarrow> real" where
  "LastQueryTime k w =
     (case k of
        OSMNominatim \<Rightarrow> dfLastQueryTimeStampOSMNominatim w
      | MapQuestNominatim \<Rightarrow> dfLastQueryTimeStampMapQuestNominatim w)"

definition set_LastQueryTime :: "service_kind \<Rightarrow> real \<Rightarrow> world \<Rightarrow> world" where
  "set_LastQueryTime k t w =
     (case k of
        OSMNominatim \<Rightarrow> w\<lparr>dfLastQueryTimeStampOSMNominatim := t\<rparr>
      | MapQuestNominatim \<Rightarrow> w\<lparr>dfLastQueryTimeStampMapQuestNominatim := t\<rparr>)"

text \<open>
  Modelled from the spec: \<^verbatim>\<open>CPLSPrintf\<close> is not in the source file. The spec has the
  escaped query substituted into the validated template: \<^verbatim>\<open>%s\<close> becomes the argument
  and \<^verbatim>\<open>%%\<close> a percent sign. A template that passed the validator has no other
  directive; the function copies any other character.
\<close>

fun CPLSPrintf_s :: "string \<Rightarrow> string \<Rightarrow> string" where
  "CPLSPrintf_s [] arg = []"
| "CPLSPrintf_s [c] arg = [c]"
| "CPLSPrintf_s (c # d # rest) arg =
     (if c = CHR ''%'' \<and> d = CHR ''%'' then CHR ''%'' # CPLSPrintf_s rest arg
      else if c = CHR ''%'' \<and> d = CHR ''s'' then arg @ CPLSPrintf_s rest arg
      else c # CPLSPrintf_s (d # rest) arg)"

text \<open>The two URLs of a call: \<open>osURL\<close> and \<open>osURLWithEmail\<close>.\<close>

definition OGRGeocode_osURL :: "env \<Rightarrow> OGRGeocodingSession \<Rightarrow> string \<Rightarrow> string" where
  "OGRGeocode_osURL e hSession pszQuery =
     (let osURL = CPLSPrintf_s (pszQueryTemplate hSession) (CPLEscapeString_URL e pszQuery)
      in case pszExtraQueryParameters hSession of
           Some extra \<Rightarrow> osURL @ ''&'' @ extra
         | None \<Rightarrow> osURL)"

definition OGRGeocode_osURLWithEmail :: "env \<Rightarrow> OGRGeocodingSession \<Rightarrow> string \<Rightarrow> string" where
  "OGRGeocode_osURLWithEmail e hSession osURL =
     (case pszEmail hSession of
        Some email \<Rightarrow>
          if EQUAL (pszGeocodingService hSession) ''OSM_NOMINATIM''
          then osURL @ ''&email='' @ CPLEscapeString_URL e email
          else osURL
      | None \<Rightarrow> osURL)"

definition pdfLastQueryTime :: "OGRGeocodingSession \<Rightarrow> service_kind option" where
  "pdfLastQueryTime hSession =
     (if EQUAL (pszGeocodingService hSession) ''OSM_NOMINATIM'' then Some OSMNominatim
      else if EQUAL (pszGeocodingService hSession) ''MAPQUEST_NOMINATIM'' then Some MapQuestNominatim
      else None)"

text \<open>
  Lines 640 to 670: the request, throttled for the two known services. The test of line
  656 and the argument of \<^verbatim>\<open>CPLSleep\<close> are computed in double precision: the sum
  of the time stamp and the delay is rounded, and so is the difference of that sum and
  the time read.
\<close>

definition OGRGeocode_fetch ::
  "env \<Rightarrow> world \<Rightarrow> OGRGeocodingSession \<Rightarrow> string \<Rightarrow> CPLHTTPResult option \<times> world" where
  "OGRGeocode_fetch e w hSession osURLWithEmail =
     (let papszHTTPOptions = [''HEADERS=User-Agent: '' @ pszApplication hSession]
      in
      case pdfLastQueryTime hSession of
        Some k \<Rightarrow>
          (case gettimeofday w of
             (tv, w1) \<Rightarrow>
               let dfCurrentTime = timeval_seconds tv
               in
               (case HTTPFetch_call e osURLWithEmail papszHTTPOptions
                       (if dfCurrentTime
                             < double_add (LastQueryTime k w1) (dfDelayBetweenQueries hSession)
                        then CPLSleep
                               (double_sub
                                  (double_add (LastQueryTime k w1) (dfDelayBetweenQueries hSession))
                                  dfCurrentTime) w1
                        else w1) of
                  (psResult, w3) \<Rightarrow>
                    (case gettimeofday w3 of
                       (tv', w4) \<Rightarrow> (psResult, set_LastQueryTime k (timeval_seconds tv') w4))))
      | None \<Rightarrow> HTTPFetch_call e osURLWithEmail papszHTTPOptions w)"

text \<open>Lines 633 to 635: the lookup in the cache, when reading it is enabled.\<close>

definition OGRGeocode_lookup ::
  "env \<Rightarrow> world \<Rightarrow> OGRGeocodingSession \<Rightarrow> string \<Rightarrow> world \<times> OGRGeocodingSession \<times> string option" where
  "OGRGeocode_lookup e w hSession osURL =
     (if bReadCache hSession
      then (case OGRGeocodeGetFromCache e hSession osURL of
              (h, pszCachedResult) \<Rightarrow> (log_event (CacheLookup osURL) w, h, pszCachedResult))
      else (w, hSession, None))"

text \<open>Lines 675 to 690: what is done with the result of the request.\<close>

definition OGRGeocode_result ::
  "env \<Rightarrow> world \<Rightarrow> OGRGeocodingSession \<Rightarrow> string \<Rightarrow> string \<Rightarrow> CPLHTTPResult option
     \<Rightarrow> world \<times> OGRGeocodingSession \<times> OGRLayer option" where
  "OGRGeocode_result e w hSession pszQuery osURL psResult =
     (case psResult of
        None \<Rightarrow>
          (log_event (CPLError (''Query for '' @ [CHR 0x27] @ pszQuery @ [CHR 0x27] @ '' failed'')) w,
           hSession, None)
      | Some res \<Rightarrow>
          (case pabyData res of
             None \<Rightarrow> (w, hSession, None)
           | Some pszResult \<Rightarrow>
               if bWriteCache hSession
               then (case OGRGeocodePutIntoCache e hSession osURL pszResult of
                       (h, bRet) \<Rightarrow>
                         (log_event (CacheInsert osURL pszResult bRet) w, h,
                          OGRGeocodeBuildLayer e pszResult))
               else (w, hSession, OGRGeocodeBuildLayer e pszResult)))"

text \<open>Lines 611 to 698: a call whose arguments passed the checks.\<close>

definition OGRGeocode_query ::
  "env \<Rightarrow> world \<Rightarrow> OGRGeocodingSession \<Rightarrow> string \<Rightarrow> world \<times> OGRGeocodingSession \<times> OGRLayer option" where
  "OGRGeocode_query e w hSession pszQuery =
     (let osURL = OGRGeocode_osURL e hSession pszQuery;
          osURLWithEmail = OGRGeocode_osURLWithEmail e hSession osURL
      in
      case OGRGeocode_lookup e w hSession osURL of
        (w1, h1, Some pszCachedResult) \<Rightarrow> (w1, h1, OGRGeocodeBuildLayer e pszCachedResult)
      | (w1, h1, None) \<Rightarrow>
          (case OGRGeocode_fetch e w1 h1 osURLWithEmail of
             (psResult, w2) \<Rightarrow> OGRGeocode_result e w2 h1 pszQuery osURL psResult))"

definition OGRGeocode ::
  "env \<Rightarrow> world \<Rightarrow> OGRGeocodingSession option \<Rightarrow> string option \<Rightarrow> string list option \<Rightarrow> string list
     \<Rightarrow> world \<times> OGRGeocodingSession option \<times> OGRLayer option" where
  "OGRGeocode e w hSession pszQuery papszStructuredQuery papszOptions =
     (case hSession of
        None \<Rightarrow> (log_event (CPLError ''Pointer hSession is NULL in OGRGeocode'') w, None, None)
      | Some h \<Rightarrow>
          if (pszQuery = None \<and> papszStructuredQuery = None)
             \<or> (pszQuery \<noteq> None \<and> papszStructuredQuery \<noteq> None)
          then (log_event (CPLError ''Only one of pszQuery or papszStructuredQuery must be set.'') w,
                Some h, None)
          else if papszStructuredQuery \<noteq> None
          then (log_event (CPLError ''papszStructuredQuery not yet supported.'') w, Some h, None)
          else
            (case pszQuery of
               None \<Rightarrow> (w, Some h, None)
             | Some q \<Rightarrow>
                 (case OGRGeocode_query e w h q of
                    (w', h', hLayer) \<Rightarrow> (w', Some h', hLayer))))"

text \<open>
  The cache layer of a datasource as the lookup sees it: the name of the layer and the
  index of the field holding the body, when the layer exists and has the two fields.
\<close>

definition cache_layer_of :: "OGRDataSource \<Rightarrow> (string \<times> nat) option" where
  "cache_layer_of ds =
     (case papoLayers ds CACHE_LAYER_NAME of
        None \<Rightarrow> None
      | Some l \<Rightarrow>
          if GetFieldIndex (poFeatureDefn l) FIELD_URL = None then None
          else (case GetFieldIndex (poFeatureDefn l) FIELD_BLOB of
                  None \<Rightarrow> None
                | Some i \<Rightarrow> Some (CACHE_LAYER_NAME, i)))"

subsection \<open>Reading the effects of a call\<close>

text \<open>The events a call added to the trace, and three kinds of events.\<close>

definition new_events :: "world \<Rightarrow> world \<Rightarrow> event list" where
  "new_events w w' = drop (length (trace w)) (trace w')"

definition is_fetch :: "event \<Rightarrow> bool" where
  "is_fetch ev = (case ev of HTTPFetch _ _ _ _ \<Rightarrow> True | _ \<Rightarrow> False)"

definition is_sleep :: "event \<Rightarrow> bool" where
  "is_sleep ev = (case ev of Sleep _ \<Rightarrow> True | _ \<Rightarrow> False)"

definition is_time_read :: "event \<Rightarrow> bool" where
  "is_time_read ev = (case ev of GetTimeOfDay _ \<Rightarrow> True | _ \<Rightarrow> False)"

text \<open>The events that read no clock, do not sleep and send no request.\<close>

definition quiet :: "event \<Rightarrow> bool" where
  "quiet ev =
     (case ev of
        CacheLookup _ \<Rightarrow> True
      | CacheInsert _ _ _ \<Rightarrow> True
      | CPLError _ \<Rightarrow> True
      | _ \<Rightarrow> False)"

text \<open>Two worlds show the same times: the clock and the two time stamps agree.\<close>

definition same_times :: "world \<Rightarrow> world \<Rightarrow> bool" where
  "same_times w w' =
     (clock w' = clock w \<and>
      dfLastQueryTimeStampOSMNominatim w' = dfLastQueryTimeStampOSMNominatim w \<and>
      dfLastQueryTimeStampMapQuestNominatim w' = dfLastQueryTimeStampMapQuestNominatim w)"

text \<open>
  What the limiter does when the clock is \<open>c\<close>, the time stamp of the service is
  \<open>stamp\<close> and the delay is \<open>d\<close>: the sleep it asks for, if any, and the clock when
  the request starts.
\<close>

definition limiter_sleep :: "real \<Rightarrow> real \<Rightarrow> real \<Rightarrow> event list" where
  "limiter_sleep c stamp d =
     (if clock_reading c < double_add stamp d
      then [Sleep (double_sub (double_add stamp d) (clock_reading c))]
      else [])"

definition fetch_start :: "real \<Rightarrow> real \<Rightarrow> real \<Rightarrow> real" where
  "fetch_start c stamp d =
     (if clock_reading c < double_add stamp d
      then c + double_sub (double_add stamp d) (clock_reading c)
      else c)"

text \<open>
  An event uses the right URL when a cache lookup or insertion has the key \<open>key\<close>
  and a request has the URL \<open>url\<close>.
\<close>

definition event_urls :: "string \<Rightarrow> string \<Rightarrow> event \<Rightarrow> bool" where
  "event_urls key url ev =
     (case ev of
        CacheLookup u \<Rightarrow> u = key
      | CacheInsert u _ _ \<Rightarrow> u = key
      | HTTPFetch u _ _ _ \<Rightarrow> u = url
      | _ \<Rightarrow> True)"

text \<open>
  Two sessions have the same settings when they agree on every field but the cache file
  name and the datasource.
\<close>

definition same_settings :: "OGRGeocodingSession \<Rightarrow> OGRGeocodingSession \<Rightarrow> bool" where
  "same_settings h h' =
     (pszGeocodingService h' = pszGeocodingService h \<and>
      pszEmail h' = pszEmail h \<and>
      pszApplication h' = pszApplication h \<and>
      pszQueryTemplate h' = pszQueryTemplate h \<and>
      pszExtraQueryParameters h' = pszExtraQueryParameters h \<and>
      bReadCache h' = bReadCache h \<and>
      bWriteCache h' = bWriteCache h \<and>
      dfDelayBetweenQueries h' = dfDelayBetweenQueries h)"

text \<open>
  The names a call can give to the cache file of a session whose cache file was \<open>old\<close>:
  the same name; for the default SQLite name, the default CSV name or the CSV file in
  memory; for a name with the extension of SQLite or CSV, the file in memory with that
  extension.
\<close>

definition cache_file_switch :: "env \<Rightarrow> string \<Rightarrow> string \<Rightarrow> bool" where
  "cache_file_switch e old new =
     (new = old \<or>
      (EQUAL old DEFAULT_CACHE_SQLITE \<and>
       (new = DEFAULT_CACHE_CSV \<or> new = ''/vsimem/'' @ CACHE_LAYER_NAME @ ''.csv'')) \<or>
      ((EQUAL (CPLGetExtension e old) ''SQLITE'' \<or> EQUAL (CPLGetExtension e old) ''CSV'') \<and>
       new = ''/vsimem/'' @ CACHE_LAYER_NAME @ ''.'' @ CPLGetExtension e old))"

text \<open>The rows of the session's cache layer that are kept by the filter on a URL.\<close>

definition session_cache_rows :: "OGRGeocodingSession \<Rightarrow> string \<Rightarrow> OGRFeature list" where
  "session_cache_rows h pszURL =
     (case poDS h of
        None \<Rightarrow> []
      | Some ds \<Rightarrow>
          (case papoLayers ds CACHE_LAYER_NAME of
             None \<Rightarrow> []
           | Some l \<Rightarrow> url_filter l pszURL))"

subsection \<open>A concrete environment\<close>

text \<open>
  An environment on which the definitions can be run: no option is set in the
  configuration, only the CSV driver is registered, no cache file exists yet, and the
  service answers every request after a quarter of a second with the document
  \<open>doc_paris\<close>. The XML functions are given on the documents used below.
\<close>

definition doc_paris :: string where
  "doc_paris =
     ''<searchresults><place><display_name>Paris, France</display_name><lat>48.85</lat><lon>2.35</lon></place></searchresults>''"

definition elem :: "string \<Rightarrow> string \<Rightarrow> CPLXMLNode" where
  "elem n v = CPLXMLNode CXT_Element n [CPLXMLNode CXT_Text v []]"

definition tree_paris :: "CPLXMLNode list" where
  "tree_paris =
     [CPLXMLNode CXT_Element ''searchresults''
        [CPLXMLNode CXT_Element ''place''
           [elem ''display_name'' ''Paris, France'', elem ''lat'' ''48.85'', elem ''lon'' ''2.35'']]]"

definition doc_two_places :: string where
  "doc_two_places =
     ''<searchresults><place><lat>48.85</lat><lon>2.35</lon></place><place><lat>45.76</lat><lon>4.83</lon></place></searchresults>''"

definition tree_two_places :: "CPLXMLNode list" where
  "tree_two_places =
     [CPLXMLNode CXT_Element ''searchresults''
        [CPLXMLNode CXT_Element ''place'' [elem ''lat'' ''48.85'', elem ''lon'' ''2.35''],
         CPLXMLNode CXT_Element ''place'' [elem ''lat'' ''45.76'', elem ''lon'' ''4.83'']]]"

definition doc_bad_geotext :: string where
  "doc_bad_geotext =
     ''<searchresults><place><geotext>POLYGON((</geotext><lat>48.85</lat><lon>2.35</lon></place></searchresults>''"

definition tree_bad_geotext :: "CPLXMLNode list" where
  "tree_bad_geotext =
     [CPLXMLNode CXT_Element ''searchresults''
        [CPLXMLNode CXT_Element ''place''
           [elem ''geotext'' ''POLYGON(('', elem ''lat'' ''48.85'', elem ''lon'' ''2.35'']]]"

definition doc_empty :: string where
  "doc_empty = ''<searchresults></searchresults>''"

definition demo_parse :: "string \<Rightarrow> CPLXMLNode list" where
  "demo_parse s =
     (if s = doc_paris then tree_paris
      else if s = doc_two_places then tree_two_places
      else if s = doc_bad_geotext then tree_bad_geotext
      else if s = doc_empty then [CPLXMLNode CXT_Element ''searchresults'' []]
      else [])"

definition demo_search :: "CPLXMLNode list \<Rightarrow> string \<Rightarrow> CPLXMLNode option" where
  "demo_search psRoot target =
     find (\<lambda>n. eType n = CXT_Element \<and> ''='' @ pszValue n = target) psRoot"

definition demo_value :: "CPLXMLNode \<Rightarrow> string option" where
  "demo_value n =
     (case psChild n of
        [c] \<Rightarrow> if eType c = CXT_Text then Some (pszValue c) else None
      | _ \<Rightarrow> None)"

definition demo_atof :: "string \<Rightarrow> real" where
  "demo_atof s =
     (if s = ''48.85'' then 48.85 else if s = ''2.35'' then 2.35
      else if s = ''45.76'' then 45.76 else if s = ''4.83'' then 4.83
      else if s = ''1.0'' then 1
      else if s = ''0.3'' then double_round (3 / 10) else 0)"

definition demo_extension :: "string \<Rightarrow> string" where
  "demo_extension f =
     (if drop (length f - 7) f = ''.sqlite'' then ''sqlite''
      else if drop (length f - 4) f = ''.csv'' then ''csv''
      else [])"

definition demo_option :: "string list \<Rightarrow> string \<Rightarrow> string option" where
  "demo_option papszOptions pszKey =
     (case filter (\<lambda>opt. take (length pszKey + 1) opt = pszKey @ ''='') papszOptions of
        [] \<Rightarrow> None
      | opt # _ \<Rightarrow> Some (drop (length pszKey + 1) opt))"

definition empty_datasource :: OGRDataSource where
  "empty_datasource =
     \<lparr>papoLayers = (\<lambda>_. None), canCreateLayer = True, canCreateField = True,
      canCreateFeature = True, executedSQL = []\<rparr>"

definition demo_env :: env where
  "demo_env =
     \<lparr>CSLFetchNameValue = demo_option,
      CPLGetConfigOption = (\<lambda>_. None),
      CSLTestBoolean = (\<lambda>v. \<not> (EQUAL v ''NO'' \<or> EQUAL v ''FALSE'' \<or> EQUAL v ''OFF'' \<or> v = ''0'')),
      CPLGetExtension = demo_extension,
      CPLAtofM = demo_atof,
      GDALVersionInfo = ''GDAL'',
      CPLEscapeString_URL = (\<lambda>s. s),
      CPLParseXMLString = demo_parse,
      CPLSearchXMLNode = demo_search,
      CPLGetXMLValue = demo_value,
      createFromWkt = (\<lambda>s. if take 6 s = ''POINT('' then Some (OGRParsedWkt s) else None),
      OGROpen = (\<lambda>_. None),
      OGRGetDriverByName = (\<lambda>n. if EQUAL n ''csv'' then Some ''CSV'' else None),
      OGR_Dr_CreateDataSource = (\<lambda>drv n opts. Some empty_datasource),
      CPLHTTPFetch = (\<lambda>url opts t. (250000, Some \<lparr>pabyData = Some doc_paris\<rparr>))\<rparr>"

text \<open>The same environment with a service that cannot be reached.\<close>

definition demo_env_down :: env where
  "demo_env_down = demo_env\<lparr>CPLHTTPFetch := (\<lambda>url opts t. (250000, None))\<rparr>"

text \<open>The session \<^verbatim>\<open>OGRGeocodeCreateSession\<close> returns in this environment without options.\<close>

definition demo_session :: OGRGeocodingSession where
  "demo_session =
     \<lparr>pszCacheFilename = ''ogr_geocode_cache.sqlite'',
      pszGeocodingService = ''OSM_NOMINATIM'',
      pszEmail = None,
      pszApplication = ''GDAL'',
      pszQueryTemplate = OSM_NOMINATIM_QUERY,
      pszExtraQueryParameters = None,
      bReadCache = True,
      bWriteCache = True,
      dfDelayBetweenQueries = 1,
      poDS = None\<rparr>"

definition world0 :: world where
  "world0 =
     \<lparr>clock = 1000, dfLastQueryTimeStampOSMNominatim = 0,
      dfLastQueryTimeStampMapQuestNominatim = 0, trace = []\<rparr>"

text \<open>
  More inputs: the URL of the query \<^verbatim>\<open>Paris\<close>, sessions with a contact address, with
  another service and without cache, the world a quarter of a second later, two calls in
  a row when the service cannot be reached, and a session whose cache already holds the
  answer.
\<close>

definition demo_url :: string where
  "demo_url = ''http://nominatim.openstreetmap.org/search?q=Paris&format=xml&polygon_text=1&addressdetails=1''"

definition demo_session_email :: OGRGeocodingSession where
  "demo_session_email = demo_session\<lparr>pszEmail := Some ''me@example.org''\<rparr>"

definition demo_session_other :: OGRGeocodingSession where
  "demo_session_other = demo_session\<lparr>pszGeocodingService := ''OTHER'', bReadCache := False, bWriteCache := False\<rparr>"

definition demo_session_nocache :: OGRGeocodingSession where
  "demo_session_nocache = demo_session\<lparr>bReadCache := False, bWriteCache := False\<rparr>"

definition world1 :: world where
  "world1 =
     \<lparr>clock = 1000.25, dfLastQueryTimeStampOSMNominatim = 1000.25,
      dfLastQueryTimeStampMapQuestNominatim = 0, trace = []\<rparr>"

definition demo_down_first :: "world \<times> OGRGeocodingSession option \<times> OGRLayer option" where
  "demo_down_first = OGRGeocode demo_env_down world0 (Some demo_session) (Some ''Paris'') None []"

definition demo_down_second :: "world \<times> OGRGeocodingSession option \<times> OGRLayer option" where
  "demo_down_second =
     OGRGeocode demo_env_down (fst demo_down_first) (fst (snd demo_down_first)) (Some ''Paris'') None []"

definition demo_cached_datasource :: OGRDataSource where
  "demo_cached_datasource =
     \<lparr>papoLayers =
        (\<lambda>_. None)(''ogr_geocode_cache'' \<mapsto>
           \<lparr>poFeatureDefn = [(''url'', OFTString), (''blob'', OFTString)],
            papoFeatures =
              [\<lparr>pauFields = (\<lambda>_. None)(0 \<mapsto> demo_url, 1 \<mapsto> doc_paris), poGeometry = None\<rparr>]\<rparr>),
      canCreateLayer = True, canCreateField = True, canCreateFeature = True, executedSQL = []\<rparr>"

definition demo_cached_session :: OGRGeocodingSession where
  "demo_cached_session = demo_session\<lparr>poDS := Some demo_cached_datasource\<rparr>"

text \<open>
  A session without cache whose delay is the double next to \<open>0.3\<close>, and two calls in
  a row for it, the second starting when the first has returned.
\<close>

definition demo_session_tenths :: OGRGeocodingSession where
  "demo_session_tenths = demo_session_nocache\<lparr>dfDelayBetweenQueries := double_round (3 / 10)\<rparr>"

definition demo_tenths_first :: "world \<times> OGRGeocodingSession option \<times> OGRLayer option" where
  "demo_tenths_first = OGRGeocode demo_env world0 (Some demo_session_tenths) (Some ''Paris'') None []"

definition demo_tenths_second :: "world \<times> OGRGeocodingSession option \<times> OGRLayer option" where
  "demo_tenths_second =
     OGRGeocode demo_env (fst demo_tenths_first) (fst (snd demo_tenths_first)) (Some ''Paris'') None []"

section \<open>The query-template validator\<close>

lemma oep_Cons:
  "c \<noteq> CHR ''%'' \<Longrightarrow> only_escaped_percents (c # r) = only_escaped_percents r"
  by (cases r) simp_all

lemma loop_skip:
  "only_escaped_percents a \<Longrightarrow>
     HasStringValidFormat_loop (a @ r) f = HasStringValidFormat_loop r f"
proof (induction a rule: only_escaped_percents.induct)
  case 1
  then show ?case by simp
next
  case (2 c)
  then show ?case by simp
next
  case (3 c d rest)
  then show ?case by (simp split: if_splits)
qed

lemma loop_accepts:
  assumes "only_escaped_percents a" "only_escaped_percents b"
  shows "HasStringValidFormat_loop (a @ ''%s'' @ b) False = (True, True)"
proof -
  have "HasStringValidFormat_loop (a @ ''%s'' @ b) False
          = HasStringValidFormat_loop (''%s'' @ b) False"
    using assms(1) by (rule loop_skip)
  also have "\<dots> = HasStringValidFormat_loop b True" by simp
  also have "\<dots> = (True, True)" using loop_skip [OF assms(2), of "[]" True] by simp
  finally show ?thesis .
qed

text \<open>
  What a run of the loop that ends with \<open>bValidFormat\<close> set tells about the string:
  if the flag did not change, every percent sign was escaped; otherwise the flag went
  from unset to set at the one placeholder.
\<close>

lemma loop_sound:
  "HasStringValidFormat_loop t f = (True, f') \<Longrightarrow>
     (if f = f' then only_escaped_percents t
      else \<not> f \<and> (\<exists>a b. t = a @ ''%s'' @ b \<and> only_escaped_percents a \<and> only_escaped_percents b))"
proof (induction t f arbitrary: f' rule: HasStringValidFormat_loop.induct)
  case (1 bFoundPctS)
  then show ?case by simp
next
  case (2 c rest bFoundPctS)
  show ?case
  proof (cases "c = CHR ''%''")
    case False
    with 2 have run: "HasStringValidFormat_loop rest bFoundPctS = (True, f')" by simp
    from 2(3) [OF False run] show ?thesis
    proof (cases "bFoundPctS = f'")
      case True
      with \<open>if bFoundPctS = f' then _ else _\<close> False show ?thesis by (simp add: oep_Cons)
    next
      case neq: False
      with \<open>if bFoundPctS = f' then _ else _\<close> obtain a b where
        ab: "\<not> bFoundPctS" "rest = a @ ''%s'' @ b" "only_escaped_percents a"
            "only_escaped_percents b"
        by auto
      then have "c # rest = (c # a) @ ''%s'' @ b \<and> only_escaped_percents (c # a)
                   \<and> only_escaped_percents b"
        using False by (simp add: oep_Cons)
      with neq ab(1) show ?thesis by (metis (full_types))
    qed
  next
    case pct: True
    show ?thesis
    proof (cases rest)
      case Nil
      with 2(4) pct show ?thesis by simp
    next
      case (Cons d rest')
      show ?thesis
      proof (cases "d = CHR ''%''")
        case True
        with 2(4) pct Cons have run: "HasStringValidFormat_loop rest' bFoundPctS = (True, f')"
          by simp
        from 2(1) [OF pct Cons True run] show ?thesis
        proof (cases "bFoundPctS = f'")
          case eq: True
          with \<open>if bFoundPctS = f' then _ else _\<close> pct Cons True show ?thesis by simp
        next
          case neq: False
          with \<open>if bFoundPctS = f' then _ else _\<close> obtain a b where
            ab: "\<not> bFoundPctS" "rest' = a @ ''%s'' @ b" "only_escaped_percents a"
                "only_escaped_percents b"
            by auto
          then have "c # rest = (''%%'' @ a) @ ''%s'' @ b \<and> only_escaped_percents (''%%'' @ a)
                       \<and> only_escaped_percents b"
            using pct Cons True by simp
          with neq ab(1) show ?thesis by (metis (full_types))
        qed
      next
        case notpct: False
        show ?thesis
        proof (cases "d = CHR ''s''")
          case False
          with 2(4) pct Cons notpct show ?thesis by simp
        next
          case s: True
          show ?thesis
          proof (cases bFoundPctS)
            case True
            with 2(4) pct Cons notpct s show ?thesis by simp
          next
            case nf: False
            with 2(4) pct Cons notpct s
            have run: "HasStringValidFormat_loop rest True = (True, f')" by simp
            from 2(2) [OF pct Cons notpct s nf run] have "f' \<and> only_escaped_percents rest"
              by (auto split: if_splits)
            then have f': "f'" and "only_escaped_percents rest'"
              using Cons s by (simp_all add: oep_Cons)
            then have "c # rest = [] @ ''%s'' @ rest' \<and> only_escaped_percents []
                         \<and> only_escaped_percents rest'"
              using pct Cons s by simp
            with nf f' show ?thesis by (metis (full_types))
          qed
        qed
      qed
    qed
  qed
qed

lemma valid_iff: "OGRGeocodeHasStringValidFormat t = spec_one_placeholder t"
proof
  assume "OGRGeocodeHasStringValidFormat t"
  then have "HasStringValidFormat_loop t False = (True, True)"
    by (auto simp: OGRGeocodeHasStringValidFormat_def split: prod.splits if_splits)
  from loop_sound [OF this] show "spec_one_placeholder t"
    by (simp add: spec_one_placeholder_def)
next
  assume "spec_one_placeholder t"
  then obtain a b where "t = a @ ''%s'' @ b" "only_escaped_percents a" "only_escaped_percents b"
    by (auto simp: spec_one_placeholder_def)
  then show "OGRGeocodeHasStringValidFormat t"
    using loop_accepts [of a b] by (simp add: OGRGeocodeHasStringValidFormat_def)
qed

lemma loop_rejects_after:
  assumes "escapes_and_placeholders p" and "\<And>f'. \<not> fst (HasStringValidFormat_loop x f')"
  shows "\<not> fst (HasStringValidFormat_loop (p @ x) f)"
  using assms(1)
proof (induction p arbitrary: f rule: escapes_and_placeholders.induct)
  case 1
  then show ?case using assms(2) by simp
next
  case (2 c)
  then show ?case using assms(2) by simp
next
  case (3 c d rest)
  show ?case
  proof (cases "c = CHR ''%''")
    case False
    with 3 show ?thesis by simp
  next
    case True
    with 3 have d: "d = CHR ''%'' \<or> d = CHR ''s''" and r: "escapes_and_placeholders rest"
      by simp_all
    have nos: "\<not> fst (HasStringValidFormat_loop (CHR ''s'' # rest @ x) g)" for g
      using "3.IH"(1) [OF True r, of g] by simp
    show ?thesis
      using d True "3.IH"(1) [OF True r, of f] nos by auto
  qed
qed

lemma invalid_if_loop_fails:
  "\<not> fst (HasStringValidFormat_loop t False) \<Longrightarrow> \<not> OGRGeocodeHasStringValidFormat t"
  by (auto simp: OGRGeocodeHasStringValidFormat_def split: prod.splits)

lemma no_placeholder_rejected:
  "only_escaped_percents t \<Longrightarrow> \<not> OGRGeocodeHasStringValidFormat t"
  using loop_skip [of t "[]" False] by (simp add: OGRGeocodeHasStringValidFormat_def)

lemma second_placeholder_rejected:
  assumes "only_escaped_percents a" "only_escaped_percents b"
  shows "\<not> OGRGeocodeHasStringValidFormat (a @ ''%s'' @ b @ ''%s'' @ r)"
proof -
  have "HasStringValidFormat_loop (a @ ''%s'' @ b @ ''%s'' @ r) False
          = HasStringValidFormat_loop (''%s'' @ b @ ''%s'' @ r) False"
    using assms(1) by (rule loop_skip)
  also have "\<dots> = HasStringValidFormat_loop (b @ ''%s'' @ r) True" by simp
  also have "\<dots> = HasStringValidFormat_loop (''%s'' @ r) True" using assms(2) by (rule loop_skip)
  also have "\<dots> = (False, True)" by simp
  finally show ?thesis by (simp add: OGRGeocodeHasStringValidFormat_def)
qed

lemma stray_percent_rejected:
  assumes "escapes_and_placeholders p"
  shows "(c \<noteq> CHR ''%'' \<and> c \<noteq> CHR ''s'' \<longrightarrow> \<not> OGRGeocodeHasStringValidFormat (p @ CHR ''%'' # c # r)) \<and>
         \<not> OGRGeocodeHasStringValidFormat (p @ ''%'')"
proof (rule conjI)
  show "c \<noteq> CHR ''%'' \<and> c \<noteq> CHR ''s'' \<longrightarrow> \<not> OGRGeocodeHasStringValidFormat (p @ CHR ''%'' # c # r)"
  proof
    assume c: "c \<noteq> CHR ''%'' \<and> c \<noteq> CHR ''s''"
    then have "\<not> fst (HasStringValidFormat_loop (CHR ''%'' # c # r) f')" for f' by simp
    with assms have "\<not> fst (HasStringValidFormat_loop (p @ CHR ''%'' # c # r) False)"
      by (rule loop_rejects_after)
    then show "\<not> OGRGeocodeHasStringValidFormat (p @ CHR ''%'' # c # r)"
      by (rule invalid_if_loop_fails)
  qed
next
  have "\<not> fst (HasStringValidFormat_loop ''%'' f')" for f' by simp
  with assms have "\<not> fst (HasStringValidFormat_loop (p @ ''%'') False)"
    by (rule loop_rejects_after)
  then show "\<not> OGRGeocodeHasStringValidFormat (p @ ''%'')"
    by (rule invalid_if_loop_fails)
qed

lemma created_session_template:
  "OGRGeocodeCreateSession e opts = Inr s \<Longrightarrow>
     session_query_template e opts = Some (pszQueryTemplate s) \<and>
     OGRGeocodeHasStringValidFormat (pszQueryTemplate s)"
  by (auto simp: OGRGeocodeCreateSession_def Let_def split: if_splits option.splits)

lemma rejected_template_aborts:
  "session_query_template e opts = Some t \<Longrightarrow> \<not> OGRGeocodeHasStringValidFormat t \<Longrightarrow>
     OGRGeocodeCreateSession e opts = Inl UnhandledCacheDatasource \<or>
     OGRGeocodeCreateSession e opts = Inl QueryTemplateInvalidFormat"
  by (simp add: OGRGeocodeCreateSession_def Let_def)

lemmas demo_session_simps =
  OGRGeocodeCreateSession_def session_query_template_def session_service_def
  OGRGeocodeGetParameter_def demo_env_def demo_option_def str_or_def DEFAULT_CACHE_SQLITE_def
  demo_extension_def EQUAL_def EQUALN_def toupper_def QueryTemplateDefault_def
  OSM_NOMINATIM_QUERY_def OGRGeocodeHasStringValidFormat_def

lemma demo_session: "OGRGeocodeCreateSession demo_env [] = Inr demo_session"
  by (simp add: demo_session_simps demo_session_def demo_atof_def)

text \<open>
  C5. The validator accepts a template exactly when the template is a string with only
  escaped percent signs, then the placeholder \<^verbatim>\<open>%s\<close>, then again a string with only
  escaped percent signs: one placeholder, and every other percent sign part of a
  \<^verbatim>\<open>%%\<close>. In particular it rejects a template without placeholder, a template
  with a second placeholder, and a template in which a percent sign that is not the
  second half of \<^verbatim>\<open>%%\<close> is followed by a character other than \<^verbatim>\<open>%\<close> and
  \<^verbatim>\<open>s\<close>, or by nothing. A session that is created carries the template its
  parameters resolve to and that template is of this form; when the resolved template is
  not, no session is created: the call ends with an error, that of the template unless
  the check of the cache file name, which comes first, has already failed.
\<close>

theorem query_template_validator:
  "(OGRGeocodeHasStringValidFormat t \<longleftrightarrow> spec_one_placeholder t) \<and>
   (only_escaped_percents t \<longrightarrow> \<not> OGRGeocodeHasStringValidFormat t) \<and>
   (only_escaped_percents a \<and> only_escaped_percents b \<longrightarrow>
      \<not> OGRGeocodeHasStringValidFormat (a @ ''%s'' @ b @ ''%s'' @ r)) \<and>
   (escapes_and_placeholders p \<and> c \<noteq> CHR ''%'' \<and> c \<noteq> CHR ''s'' \<longrightarrow>
      \<not> OGRGeocodeHasStringValidFormat (p @ CHR ''%'' # c # r)) \<and>
   (escapes_and_placeholders p \<longrightarrow> \<not> OGRGeocodeHasStringValidFormat (p @ ''%'')) \<and>
   (OGRGeocodeCreateSession e opts = Inr s \<longrightarrow>
      session_query_template e opts = Some (pszQueryTemplate s) \<and>
      spec_one_placeholder (pszQueryTemplate s)) \<and>
   (session_query_template e opts = Some t \<and> \<not> spec_one_placeholder t \<longrightarrow>
      OGRGeocodeCreateSession e opts = Inl UnhandledCacheDatasource \<or>
      OGRGeocodeCreateSession e opts = Inl QueryTemplateInvalidFormat)"
  using created_session_template [of e opts s] rejected_template_aborts [of e opts t]
        no_placeholder_rejected [of t] second_placeholder_rejected [of a b r]
        stray_percent_rejected [of p c r]
  by (simp add: valid_iff)

theorem query_template_validator_witness:
  "(\<exists>s. OGRGeocodeCreateSession demo_env [] = Inr s \<and> spec_one_placeholder (pszQueryTemplate s)) \<and>
   \<not> spec_one_placeholder ''http://x/?q=%s&r=%s'' \<and>
   OGRGeocodeCreateSession demo_env [''QUERY_TEMPLATE=http://x/?q=%s&r=%s'']
     = Inl QueryTemplateInvalidFormat \<and>
   \<not> OGRGeocodeHasStringValidFormat ''http://x/?q=100%%'' \<and>
   \<not> OGRGeocodeHasStringValidFormat ''http://x/?q=%s&r=%d'' \<and>
   \<not> OGRGeocodeHasStringValidFormat ''http://x/?q=%s&r=%''"
proof -
  obtain s where s: "OGRGeocodeCreateSession demo_env [] = Inr s"
    using demo_session by blast
  note inst = query_template_validator
    [where t = "''http://x/?q=%s&r=%s''" and a = "''http://x/?q=''" and b = "''&r=''"
       and r = "[]" and p = "''http://x/?q=%s&r=''" and c = "CHR ''d''" and e = demo_env and s = s]
  have parts: "only_escaped_percents ''http://x/?q=''" "only_escaped_percents ''&r=''"
    "escapes_and_placeholders ''http://x/?q=%s&r=''"
    by simp_all
  have nb: "\<not> spec_one_placeholder ''http://x/?q=%s&r=%s''"
    using inst [of "[]"] parts by auto
  have stray: "\<not> OGRGeocodeHasStringValidFormat ''http://x/?q=%s&r=%d'' \<and>
               \<not> OGRGeocodeHasStringValidFormat ''http://x/?q=%s&r=%''"
    using inst [of "[]"] parts by auto
  have none: "\<not> OGRGeocodeHasStringValidFormat ''http://x/?q=100%%''"
    using query_template_validator
      [where t = "''http://x/?q=100%%''" and a = "[]" and b = "[]" and r = "[]" and p = "[]"
         and c = "CHR ''d''" and e = demo_env and opts = "[]" and s = s]
    by (simp del: append.simps) blast
  have tmpl: "session_query_template demo_env [''QUERY_TEMPLATE=http://x/?q=%s&r=%s'']
                = Some ''http://x/?q=%s&r=%s''"
    by (simp add: session_query_template_def OGRGeocodeGetParameter_def demo_env_def
                  demo_option_def)
  have "OGRGeocodeCreateSession demo_env [''QUERY_TEMPLATE=http://x/?q=%s&r=%s'']
          \<noteq> Inl UnhandledCacheDatasource"
    by (simp add: demo_session_simps)
  then show ?thesis
    using inst [of "[]"] inst [of "[''QUERY_TEMPLATE=http://x/?q=%s&r=%s'']"]
          s nb stray none tmpl
    by auto
qed

section \<open>The response decoder\<close>

text \<open>
  The loop over the places skips what is not a place and appends one feature for each
  place, so the features of the layer are those of the places, in their order.
\<close>

lemma BuildLayer_places_append:
  "BuildLayer_places e (xs @ ys) L = BuildLayer_places e ys (BuildLayer_places e xs L)"
  by (induction xs arbitrary: L) simp_all

lemma BuildLayer_places_filter:
  "BuildLayer_places e xs L = BuildLayer_places e (filter is_place xs) L"
  by (induction xs arbitrary: L) simp_all

lemma features_BuildLayer_place:
  "papoFeatures (BuildLayer_place e p L)
     = papoFeatures L @ [place_feature e (scan_place e (poFeatureDefn L) p) p]"
  by (simp add: BuildLayer_place_def Let_def)

lemma length_features_BuildLayer_places:
  "length (papoFeatures (BuildLayer_places e xs L))
     = length (papoFeatures L) + length (filter is_place xs)"
  by (induction xs arbitrary: L) (simp_all add: features_BuildLayer_place)

lemma nth_features_BuildLayer_places:
  "\<forall>p \<in> set ps. is_place p \<Longrightarrow> i < length ps \<Longrightarrow>
     papoFeatures (BuildLayer_places e ps L) ! (length (papoFeatures L) + i)
       = place_feature e
           (scan_place e (poFeatureDefn (BuildLayer_places e (take i ps) L)) (ps ! i)) (ps ! i)"
proof (induction ps arbitrary: i rule: rev_induct)
  case Nil
  then show ?case by simp
next
  case (snoc p ps)
  have all: "\<forall>q \<in> set ps. is_place q" and p: "is_place p" using snoc.prems(1) by simp_all
  have step: "BuildLayer_places e (ps @ [p]) L = BuildLayer_place e p (BuildLayer_places e ps L)"
    using p by (simp add: BuildLayer_places_append)
  have len: "length (papoFeatures (BuildLayer_places e ps L)) = length (papoFeatures L) + length ps"
    using all by (simp add: length_features_BuildLayer_places filter_id_conv)
  show ?case
  proof (cases "i < length ps")
    case True
    then show ?thesis
      using snoc.IH [OF all True] len
      by (simp add: step features_BuildLayer_place nth_append)
  next
    case False
    with snoc.prems(2) have "i = length ps" by simp
    then show ?thesis
      using len by (simp add: step features_BuildLayer_place nth_append)
  qed
qed

lemma BuildLayer_Some:
  "CPLParseXMLString e c \<noteq> [] \<Longrightarrow>
   CPLSearchXMLNode e (CPLParseXMLString e c) ''=searchresults'' = Some sr \<Longrightarrow>
   OGRGeocodeBuildLayer e c
     = Some (BuildLayer_places e (filter is_place (psChild sr)) \<lparr>poFeatureDefn = [], papoFeatures = []\<rparr>)"
  using BuildLayer_places_filter [of e "psChild sr"]
  by (simp add: OGRGeocodeBuildLayer_def Let_def)

lemma BuildLayer_None:
  "(OGRGeocodeBuildLayer e c = None) =
     (CPLParseXMLString e c = [] \<or>
      CPLSearchXMLNode e (CPLParseXMLString e c) ''=searchresults'' = None)"
  by (simp add: OGRGeocodeBuildLayer_def Let_def split: option.splits)

text \<open>The schema only grows, and never by a field named \<^verbatim>\<open>geotext\<close>.\<close>

lemma GetFieldIndex_None_iff: "GetFieldIndex d n = None \<longleftrightarrow> n \<notin> fst ` set d"
  by (induction d) auto

lemma GetFieldIndex_append:
  "GetFieldIndex d n = Some j \<Longrightarrow> GetFieldIndex (d @ d') n = Some j"
  by (induction d arbitrary: j) (auto split: if_splits)

lemma add_field_extends:
  "\<exists>d'. scanDefn (add_field e c st) = scanDefn st @ d' \<and> ''geotext'' \<notin> fst ` set d'"
  by (auto simp: add_field_def Let_def split: option.splits)

lemma first_iteration_extends:
  "\<exists>d'. scanDefn (first_iteration e cs st) = scanDefn st @ d' \<and> ''geotext'' \<notin> fst ` set d'"
proof (induction cs arbitrary: st)
  case Nil
  then show ?case by simp
next
  case (Cons c cs)
  obtain d1 where d1: "scanDefn (add_field e c st) = scanDefn st @ d1" "''geotext'' \<notin> fst ` set d1"
    using add_field_extends by blast
  obtain d2 where d2: "scanDefn (first_iteration e cs (add_field e c st)) = scanDefn (add_field e c st) @ d2"
     "''geotext'' \<notin> fst ` set d2"
    using Cons.IH by blast
  have "scanDefn (first_iteration e (c # cs) st) = scanDefn st @ (d1 @ d2) \<and> ''geotext'' \<notin> fst ` set (d1 @ d2)"
    using d1 d2 by auto
  then show ?case by blast
qed

lemma BuildLayer_place_extends:
  "\<exists>d'. poFeatureDefn (BuildLayer_place e p L) = poFeatureDefn L @ d' \<and> ''geotext'' \<notin> fst ` set d'"
  using first_iteration_extends [of e "psChild p" "\<lparr>scanDefn = poFeatureDefn L, bFoundLat = False, dfLat = 0, bFoundLon = False, dfLon = 0\<rparr>"]
  by (simp add: BuildLayer_place_def scan_place_def Let_def)

lemma BuildLayer_places_extends:
  "\<exists>d'. poFeatureDefn (BuildLayer_places e xs L) = poFeatureDefn L @ d' \<and> ''geotext'' \<notin> fst ` set d'"
proof (induction xs arbitrary: L)
  case Nil
  then show ?case by simp
next
  case (Cons x xs)
  let ?L1 = "if is_place x then BuildLayer_place e x L else L"
  obtain d1 where d1: "poFeatureDefn ?L1 = poFeatureDefn L @ d1" "''geotext'' \<notin> fst ` set d1"
    using BuildLayer_place_extends [of e x L] by (cases "is_place x") auto
  obtain d2 where d2: "poFeatureDefn (BuildLayer_places e xs ?L1) = poFeatureDefn ?L1 @ d2"
      "''geotext'' \<notin> fst ` set d2"
    using Cons.IH by blast
  have "poFeatureDefn (BuildLayer_places e (x # xs) L) = poFeatureDefn L @ (d1 @ d2) \<and> ''geotext'' \<notin> fst ` set (d1 @ d2)"
    using d1 d2 by auto
  then show ?case by blast
qed

lemma second_iteration_geometry:
  "\<forall>g \<in> set cs. pszValue g = ''geotext'' \<longrightarrow>
       (\<forall>w. CPLGetXMLValue e g = Some w \<longrightarrow> createFromWkt e w = None) \<Longrightarrow>
   poGeometry (second_iteration e d cs f) = poGeometry f"
proof (induction cs arbitrary: f)
  case Nil
  then show ?case by simp
next
  case (Cons c cs)
  have "poGeometry (fill_field e d c f) = poGeometry f"
    using Cons.prems by (auto simp: fill_field_def Let_def split: option.splits)
  with Cons show ?case by simp
qed

lemma second_iteration_fields:
  "pauFields (second_iteration e d cs f) j = Some v \<Longrightarrow>
     pauFields f j = Some v \<or>
     (\<exists>c \<in> set cs. GetFieldIndex d (pszValue c) = Some j \<and> CPLGetXMLValue e c = Some v)"
proof (induction cs arbitrary: f)
  case Nil
  then show ?case by simp
next
  case (Cons c cs)
  from Cons.prems have "pauFields (second_iteration e d cs (fill_field e d c f)) j = Some v" by simp
  from Cons.IH [OF this] show ?case
  proof
    assume "pauFields (fill_field e d c f) j = Some v"
    then have "pauFields f j = Some v \<or> (GetFieldIndex d (pszValue c) = Some j \<and> CPLGetXMLValue e c = Some v)"
      by (auto simp: fill_field_def Let_def split: option.splits if_splits)
    then show ?thesis by auto
  next
    assume "\<exists>c\<in>set cs. GetFieldIndex d (pszValue c) = Some j \<and> CPLGetXMLValue e c = Some v"
    then show ?thesis by auto
  qed
qed

lemma place_feature_fields:
  "pauFields (place_feature e st p) j = Some v \<Longrightarrow>
     \<exists>c \<in> set (psChild p). GetFieldIndex (scanDefn st) (pszValue c) = Some j \<and> CPLGetXMLValue e c = Some v"
  using second_iteration_fields [of e "scanDefn st" "psChild p" new_OGRFeature j v]
  by (auto simp: place_feature_def Let_def new_OGRFeature_def split: if_splits)

lemma place_feature_geometry:
  "\<forall>g \<in> set (psChild p). pszValue g = ''geotext'' \<longrightarrow>
       (\<forall>w. CPLGetXMLValue e g = Some w \<longrightarrow> createFromWkt e w = None) \<Longrightarrow>
   poGeometry (place_feature e st p)
     = (if bFoundLon st \<and> bFoundLat st then Some (OGRPoint (dfLon st) (dfLat st)) else None)"
  using second_iteration_geometry [of "psChild p" e "scanDefn st" new_OGRFeature]
  by (simp add: place_feature_def Let_def new_OGRFeature_def)

text \<open>
  C8. The decoder returns no layer exactly when the parser returns NULL or the search for
  the \<^verbatim>\<open>searchresults\<close> node returns NULL. In every other case it returns a layer
  with one record for each place of the container, whatever the children of the places
  hold: no value inside the document makes the decoding fail, and there is no result in
  between, with only some of the records.
\<close>

theorem decoder_failure_cases:
  "(OGRGeocodeBuildLayer e c = None \<longleftrightarrow>
      CPLParseXMLString e c = [] \<or>
      CPLSearchXMLNode e (CPLParseXMLString e c) ''=searchresults'' = None) \<and>
   (CPLParseXMLString e c \<noteq> [] \<and>
    CPLSearchXMLNode e (CPLParseXMLString e c) ''=searchresults'' = Some sr \<longrightarrow>
      (\<exists>L. OGRGeocodeBuildLayer e c = Some L \<and>
           length (papoFeatures L) = length (filter is_place (psChild sr))))"
  using BuildLayer_None [of e c] BuildLayer_Some [of e c sr]
  by (auto simp: length_features_BuildLayer_places)

lemmas demo_decode_simps =
  OGRGeocodeBuildLayer_def demo_env_def demo_parse_def demo_search_def demo_value_def demo_atof_def
  doc_paris_def doc_two_places_def doc_bad_geotext_def doc_empty_def
  tree_paris_def tree_two_places_def tree_bad_geotext_def elem_def
  is_place_def BuildLayer_place_def scan_place_def place_feature_def add_field_def fill_field_def
  new_OGRFeature_def Let_def

lemma demo_parse_garbage: "CPLParseXMLString demo_env ''garbage'' = []"
  by (simp add: demo_decode_simps)

lemma demo_parse_bad_geotext:
  "CPLParseXMLString demo_env doc_bad_geotext = tree_bad_geotext \<and>
   CPLSearchXMLNode demo_env tree_bad_geotext ''=searchresults'' = Some (hd tree_bad_geotext)"
  by (simp add: demo_decode_simps)

theorem decoder_failure_cases_witness:
  "OGRGeocodeBuildLayer demo_env ''garbage'' = None \<and>
   (\<exists>L. OGRGeocodeBuildLayer demo_env doc_bad_geotext = Some L \<and> length (papoFeatures L) = 1)"
proof -
  have "length (filter is_place (psChild (hd tree_bad_geotext))) = 1"
    by (simp add: tree_bad_geotext_def is_place_def)
  moreover have "tree_bad_geotext \<noteq> []" by (simp add: tree_bad_geotext_def)
  ultimately show ?thesis
    using decoder_failure_cases [of demo_env "''garbage''" "hd tree_bad_geotext"]
          decoder_failure_cases [of demo_env doc_bad_geotext "hd tree_bad_geotext"]
          demo_parse_garbage demo_parse_bad_geotext
    by auto
qed

text \<open>
  C9. When the document parses and has a \<^verbatim>\<open>searchresults\<close> node, the decoder
  returns a layer with exactly one record for each child of that node that is an element
  named \<^verbatim>\<open>place\<close>, in the order of the document: the record of index \<open>i\<close> is the
  one built from the place of index \<open>i\<close>, with the fields known when the loop reaches
  it. With no place the layer has no record, and the call still succeeds.
\<close>

theorem one_record_per_place_in_order:
  assumes "CPLParseXMLString e c \<noteq> []"
    and "CPLSearchXMLNode e (CPLParseXMLString e c) ''=searchresults'' = Some sr"
    and "places = filter is_place (psChild sr)"
  shows "\<exists>L. OGRGeocodeBuildLayer e c = Some L \<and>
             length (papoFeatures L) = length places \<and>
             (places = [] \<longrightarrow> papoFeatures L = []) \<and>
             (\<forall>i < length places.
                papoFeatures L ! i
                  = place_feature e (scan_place e (schema_before e places i) (places ! i)) (places ! i))"
proof -
  let ?L = "BuildLayer_places e places \<lparr>poFeatureDefn = [], papoFeatures = []\<rparr>"
  have L: "OGRGeocodeBuildLayer e c = Some ?L"
    using BuildLayer_Some [OF assms(1,2)] assms(3) by simp
  have len: "length (papoFeatures ?L) = length places"
    using assms(3) by (simp add: length_features_BuildLayer_places)
  have all: "\<forall>p \<in> set places. is_place p" using assms(3) by simp
  have nth: "\<forall>i < length places.
                papoFeatures ?L ! i
                  = place_feature e (scan_place e (schema_before e places i) (places ! i)) (places ! i)"
    using nth_features_BuildLayer_places [OF all, of _ e "\<lparr>poFeatureDefn = [], papoFeatures = []\<rparr>"]
    by (simp add: schema_before_def)
  show ?thesis using L len nth by auto
qed

lemma demo_parse_two:
  "CPLParseXMLString demo_env doc_two_places = tree_two_places \<and>
   CPLSearchXMLNode demo_env tree_two_places ''=searchresults'' = Some (hd tree_two_places)"
  by (simp add: demo_decode_simps)

lemma demo_parse_empty:
  "CPLParseXMLString demo_env doc_empty = [CPLXMLNode CXT_Element ''searchresults'' []] \<and>
   CPLSearchXMLNode demo_env [CPLXMLNode CXT_Element ''searchresults'' []] ''=searchresults''
     = Some (CPLXMLNode CXT_Element ''searchresults'' [])"
  by (simp add: demo_decode_simps)

theorem one_record_per_place_in_order_witness:
  "(\<exists>L. OGRGeocodeBuildLayer demo_env doc_empty = Some L \<and> papoFeatures L = []) \<and>
   (\<exists>L. OGRGeocodeBuildLayer demo_env doc_two_places = Some L \<and> length (papoFeatures L) = 2 \<and>
        pauFields (papoFeatures L ! 0) 0 = Some ''48.85'' \<and>
        pauFields (papoFeatures L ! 1) 0 = Some ''45.76'')"
proof -
  have e: "filter is_place (psChild (CPLXMLNode CXT_Element ''searchresults'' [])) = []" by simp
  have t: "tree_two_places \<noteq> []" by (simp add: tree_two_places_def)
  define ps where "ps = filter is_place (psChild (hd tree_two_places))"
  have ps: "ps = [CPLXMLNode CXT_Element ''place'' [elem ''lat'' ''48.85'', elem ''lon'' ''2.35''],
         CPLXMLNode CXT_Element ''place'' [elem ''lat'' ''45.76'', elem ''lon'' ''4.83'']]"
    by (simp add: ps_def tree_two_places_def is_place_def)
  have f0: "pauFields (place_feature demo_env (scan_place demo_env (schema_before demo_env ps 0) (ps ! 0)) (ps ! 0)) 0 = Some ''48.85''"
    by (simp add: ps schema_before_def demo_decode_simps)
  have f1: "pauFields (place_feature demo_env (scan_place demo_env (schema_before demo_env ps 1) (ps ! 1)) (ps ! 1)) 0 = Some ''45.76''"
    by (simp add: ps schema_before_def demo_decode_simps)
  have l: "length ps = 2" by (simp add: ps)
  have a: "\<exists>L. OGRGeocodeBuildLayer demo_env doc_empty = Some L \<and> papoFeatures L = []"
    using one_record_per_place_in_order [of demo_env doc_empty "CPLXMLNode CXT_Element ''searchresults'' []" "[]"]
          demo_parse_empty by auto
  have b: "\<exists>L. OGRGeocodeBuildLayer demo_env doc_two_places = Some L \<and> length (papoFeatures L) = 2 \<and>
        pauFields (papoFeatures L ! 0) 0 = Some ''48.85'' \<and>
        pauFields (papoFeatures L ! 1) 0 = Some ''45.76''"
    using one_record_per_place_in_order [of demo_env doc_two_places "hd tree_two_places" ps]
          demo_parse_two t f0 f1 l ps_def by auto
  show ?thesis using a b by blast
qed

lemma known_lat_is_not_captured:
  "GetFieldIndex (scanDefn st) ''lat'' \<noteq> None \<Longrightarrow> bFoundLat (first_iteration e cs st) = bFoundLat st"
proof (induction cs arbitrary: st)
  case Nil
  then show ?case by simp
next
  case (Cons c cs)
  have "GetFieldIndex (scanDefn (add_field e c st)) ''lat'' \<noteq> None \<and> bFoundLat (add_field e c st) = bFoundLat st"
    using Cons.prems 
    by (auto simp: add_field_def Let_def GetFieldIndex_append split: option.splits)
  with Cons.IH show ?case by simp
qed

lemma known_lat_gives_no_point:
  assumes "GetFieldIndex poFDefn ''lat'' \<noteq> None"
    and "\<forall>g \<in> set (psChild p). pszValue g = ''geotext'' \<longrightarrow>
           (\<forall>w. CPLGetXMLValue e g = Some w \<longrightarrow> createFromWkt e w = None)"
  shows "poGeometry (place_feature e (scan_place e poFDefn p) p) = None"
proof -
  have "\<not> bFoundLat (scan_place e poFDefn p)"
    using known_lat_is_not_captured [of "\<lparr>scanDefn = poFDefn, bFoundLat = False, dfLat = 0,
            bFoundLon = False, dfLon = 0\<rparr>" e "psChild p"] assms(1)
    by (simp add: scan_place_def)
  with place_feature_geometry [OF assms(2), of "scan_place e poFDefn p"] show ?thesis by simp
qed

text \<open>
  C1. The geometry of a record is meant to be the geometry of its \<^verbatim>\<open>geotext\<close> child
  if it parses, else the point of its \<^verbatim>\<open>lon\<close> and \<^verbatim>\<open>lat\<close> children if both
  have a value. The code reads the two coordinates only inside the branch that creates a
  field, that is, only when the field is new to the layer; for the second place of a
  document the fields \<^verbatim>\<open>lat\<close> and \<^verbatim>\<open>lon\<close> exist already, the flags stay unset
  and the record has no geometry. On the document with the two places
  (48.85, 2.35) and (45.76, 4.83) the decoder returns the point for the first record and
  nothing for the second.
\<close>

theorem second_place_gets_no_point:
  "\<exists>L. OGRGeocodeBuildLayer demo_env doc_two_places = Some L \<and>
       map poGeometry (papoFeatures L) = [Some (OGRPoint 2.35 48.85), None]"
  by (simp add: demo_decode_simps)

lemma defn_BuildLayer_place:
  "poFeatureDefn (BuildLayer_place e p L) = scanDefn (scan_place e (poFeatureDefn L) p)"
  by (simp add: BuildLayer_place_def Let_def)

lemma schema_after_place:
  assumes "\<forall>p \<in> set places. is_place p" and "i < length places"
  shows "\<exists>d'. poFeatureDefn (BuildLayer_places e places \<lparr>poFeatureDefn = [], papoFeatures = []\<rparr>)
               = scanDefn (scan_place e (schema_before e places i) (places ! i)) @ d'"
proof -
  let ?E = "\<lparr>poFeatureDefn = [], papoFeatures = []\<rparr>"
  have split: "places = (take i places @ [places ! i]) @ drop (Suc i) places"
    using assms(2) by (simp add: take_Suc_conv_app_nth [symmetric])
  have pl: "is_place (places ! i)" using assms by simp
  have "BuildLayer_places e places ?E
          = BuildLayer_places e (drop (Suc i) places)
              (BuildLayer_places e (take i places @ [places ! i]) ?E)"
    using BuildLayer_places_append [of e "take i places @ [places ! i]" "drop (Suc i) places" ?E]
          split by simp
  also have "BuildLayer_places e (take i places @ [places ! i]) ?E
          = BuildLayer_place e (places ! i) (BuildLayer_places e (take i places) ?E)"
    using pl by (simp add: BuildLayer_places_append)
  finally have "BuildLayer_places e places ?E
          = BuildLayer_places e (drop (Suc i) places)
              (BuildLayer_place e (places ! i) (BuildLayer_places e (take i places) ?E))" .
  then show ?thesis
    using BuildLayer_places_extends [of e "drop (Suc i) places"
            "BuildLayer_place e (places ! i) (BuildLayer_places e (take i places) ?E)"]
    by (auto simp: defn_BuildLayer_place schema_before_def)
qed

text \<open>
  C10. Take the place of index \<open>i\<close> of a document that parses and has its container,
  and suppose the text of each of its \<^verbatim>\<open>geotext\<close> children that has one is
  refused by the WKT reader. Then the decoder still returns a layer with the record of
  that place; no field of the layer is named \<^verbatim>\<open>geotext\<close>; every value set in the
  record is the value of a child of the place that is not \<^verbatim>\<open>geotext\<close>, stored in
  the field named after that child; and the geometry of the record is the point of the
  coordinates read in the first loop if both were read there, and absent otherwise.
\<close>

theorem unparseable_geotext_is_discarded:
  assumes "CPLParseXMLString e c \<noteq> []"
    and "CPLSearchXMLNode e (CPLParseXMLString e c) ''=searchresults'' = Some sr"
    and "places = filter is_place (psChild sr)"
    and "i < length places"
    and "\<forall>g \<in> set (psChild (places ! i)). pszValue g = ''geotext'' \<longrightarrow>
            (\<forall>w. CPLGetXMLValue e g = Some w \<longrightarrow> createFromWkt e w = None)"
    and "st = scan_place e (schema_before e places i) (places ! i)"
  shows "\<exists>L. OGRGeocodeBuildLayer e c = Some L \<and> i < length (papoFeatures L) \<and>
             ''geotext'' \<notin> fst ` set (poFeatureDefn L) \<and>
             poGeometry (papoFeatures L ! i)
               = (if bFoundLon st \<and> bFoundLat st then Some (OGRPoint (dfLon st) (dfLat st))
                  else None) \<and>
             (\<forall>j v. pauFields (papoFeatures L ! i) j = Some v \<longrightarrow>
                (\<exists>ch \<in> set (psChild (places ! i)).
                    pszValue ch \<noteq> ''geotext'' \<and>
                    GetFieldIndex (poFeatureDefn L) (pszValue ch) = Some j \<and>
                    CPLGetXMLValue e ch = Some v))"
proof -
  let ?E = "\<lparr>poFeatureDefn = [], papoFeatures = []\<rparr>"
  let ?L = "BuildLayer_places e places ?E"
  let ?p = "places ! i"
  have L: "OGRGeocodeBuildLayer e c = Some ?L"
    using BuildLayer_Some [OF assms(1,2)] assms(3) by simp
  have all: "\<forall>p \<in> set places. is_place p" using assms(3) by simp
  have len: "i < length (papoFeatures ?L)"
    using assms(3,4) by (simp add: length_features_BuildLayer_places)
  have nth: "papoFeatures ?L ! i = place_feature e st ?p"
    using nth_features_BuildLayer_places [OF all assms(4), of e ?E] assms(6)
    by (simp add: schema_before_def)
  obtain d0 where "poFeatureDefn ?L = poFeatureDefn ?E @ d0" "''geotext'' \<notin> fst ` set d0"
    using BuildLayer_places_extends [of e places ?E] by blast
  then have nogeo: "''geotext'' \<notin> fst ` set (poFeatureDefn ?L)" by simp
  obtain d' where ext: "poFeatureDefn ?L = scanDefn st @ d'"
    using schema_after_place [OF all assms(4), of e] assms(6) by blast
  have geom: "poGeometry (papoFeatures ?L ! i)
               = (if bFoundLon st \<and> bFoundLat st then Some (OGRPoint (dfLon st) (dfLat st))
                  else None)"
    using place_feature_geometry [OF assms(5), of st] nth by simp
  have flds: "\<exists>ch \<in> set (psChild ?p).
                    pszValue ch \<noteq> ''geotext'' \<and>
                    GetFieldIndex (poFeatureDefn ?L) (pszValue ch) = Some j \<and>
                    CPLGetXMLValue e ch = Some v"
    if "pauFields (papoFeatures ?L ! i) j = Some v" for j v
  proof -
    from that nth obtain ch where ch: "ch \<in> set (psChild ?p)"
        "GetFieldIndex (scanDefn st) (pszValue ch) = Some j" "CPLGetXMLValue e ch = Some v"
      using place_feature_fields [of e st ?p j v] by auto
    have idx: "GetFieldIndex (poFeatureDefn ?L) (pszValue ch) = Some j"
      using GetFieldIndex_append [OF ch(2), of d'] ext by simp
    have "GetFieldIndex (poFeatureDefn ?L) ''geotext'' = None"
      using nogeo by (simp add: GetFieldIndex_None_iff)
    with idx have "pszValue ch \<noteq> ''geotext''" by auto
    with ch idx show ?thesis by blast
  qed
  show ?thesis using L len nogeo geom flds by blast
qed

theorem unparseable_geotext_is_discarded_witness:
  "\<exists>L. OGRGeocodeBuildLayer demo_env doc_bad_geotext = Some L \<and>
       ''geotext'' \<notin> fst ` set (poFeatureDefn L) \<and>
       poGeometry (papoFeatures L ! 0) = Some (OGRPoint 2.35 48.85)"
proof -
  define ps where "ps = filter is_place (psChild (hd tree_bad_geotext))"
  define st where "st = scan_place demo_env (schema_before demo_env ps 0) (ps ! 0)"
  have ps: "ps = [CPLXMLNode CXT_Element ''place''
           [elem ''geotext'' ''POLYGON(('', elem ''lat'' ''48.85'', elem ''lon'' ''2.35'']]"
    by (simp add: ps_def tree_bad_geotext_def is_place_def)
  have t: "tree_bad_geotext \<noteq> []" by (simp add: tree_bad_geotext_def)
  have l: "0 < length ps" by (simp add: ps)
  have g: "\<forall>g \<in> set (psChild (ps ! 0)). pszValue g = ''geotext'' \<longrightarrow>
            (\<forall>w. CPLGetXMLValue demo_env g = Some w \<longrightarrow> createFromWkt demo_env w = None)"
    by (simp add: ps elem_def demo_env_def demo_value_def)
  have s: "bFoundLon st \<and> bFoundLat st \<and> dfLon st = 2.35 \<and> dfLat st = 48.85"
    by (simp add: st_def ps schema_before_def demo_decode_simps)
  show ?thesis
    using unparseable_geotext_is_discarded [of demo_env doc_bad_geotext "hd tree_bad_geotext" ps 0 st]
          demo_parse_bad_geotext t l g s ps_def st_def
    by auto
qed

section \<open>The request: world, cache and session\<close>

text \<open>
  What each block of \<^verbatim>\<open>OGRGeocode\<close> does to the world: the lookup and the handling of
  the result only add events to the trace, the request is the only block that moves the
  clock and the time stamps.
\<close>

lemma new_events_append: "trace w' = trace w @ evs \<Longrightarrow> new_events w w' = evs"
  by (simp add: new_events_def)

lemma same_times_refl: "same_times w w"
  by (simp add: same_times_def)

lemma same_times_log: "same_times w (log_event ev w)"
  by (simp add: same_times_def log_event_def)

lemma fetch_unthrottled:
  assumes "pdfLastQueryTime h = None"
    and "OGRGeocode_fetch e w h url = (res, w')"
  shows "\<exists>opts t. trace w' = trace w @ [HTTPFetch url opts (clock w) t] \<and>
           res = snd (CPLHTTPFetch e url opts (clock w)) \<and>
           clock w \<le> t \<and> clock w' = t \<and>
           dfLastQueryTimeStampOSMNominatim w' = dfLastQueryTimeStampOSMNominatim w \<and>
           dfLastQueryTimeStampMapQuestNominatim w' = dfLastQueryTimeStampMapQuestNominatim w"
  using assms
  by (auto simp: OGRGeocode_fetch_def HTTPFetch_call_def log_event_def Let_def split: prod.splits)

lemma fetch_throttled:
  assumes "pdfLastQueryTime h = Some k"
    and "OGRGeocode_fetch e w h url = (res, w')"
  shows "\<exists>opts t. trace w' = trace w @ [GetTimeOfDay (clock w)]
                    @ limiter_sleep (clock w) (LastQueryTime k w) (dfDelayBetweenQueries h)
                    @ [HTTPFetch url opts (fetch_start (clock w) (LastQueryTime k w) (dfDelayBetweenQueries h)) t,
                       GetTimeOfDay t] \<and>
           res = snd (CPLHTTPFetch e url opts
                        (fetch_start (clock w) (LastQueryTime k w) (dfDelayBetweenQueries h))) \<and>
           fetch_start (clock w) (LastQueryTime k w) (dfDelayBetweenQueries h) \<le> t \<and>
           clock w' = t \<and> LastQueryTime k w' = clock_reading t \<and>
           (\<forall>k'. k' \<noteq> k \<longrightarrow> LastQueryTime k' w' = LastQueryTime k' w)"
proof (cases k)
  case OSMNominatim
  with assms show ?thesis
    by (auto simp: OGRGeocode_fetch_def HTTPFetch_call_def log_event_def Let_def gettimeofday_def
         CPLSleep_def LastQueryTime_def set_LastQueryTime_def fetch_start_def limiter_sleep_def
         clock_reading_def
         split: prod.splits service_kind.splits)
next
  case MapQuestNominatim
  with assms show ?thesis
    by (auto simp: OGRGeocode_fetch_def HTTPFetch_call_def log_event_def Let_def gettimeofday_def
         CPLSleep_def LastQueryTime_def set_LastQueryTime_def fetch_start_def limiter_sleep_def
         clock_reading_def
         split: prod.splits service_kind.splits)
qed

lemma lookup_effect:
  assumes "OGRGeocode_lookup e w h u = (w1, h1, r)"
  shows "same_times w w1 \<and>
         trace w1 = trace w @ (if bReadCache h then [CacheLookup u] else []) \<and>
         (if bReadCache h then OGRGeocodeGetFromCache e h u = (h1, r) else h1 = h \<and> r = None)"
  using assms
  by (auto simp: OGRGeocode_lookup_def same_times_def log_event_def split: if_splits prod.splits)

lemma result_effect:
  assumes "OGRGeocode_result e w h q u res = (w', h', r)"
  shows "same_times w w' \<and>
         (trace w' = trace w \<or> (\<exists>m. trace w' = trace w @ [CPLError m]) \<or>
          (\<exists>b f. trace w' = trace w @ [CacheInsert u b f]))"
  using assms
  by (auto simp: OGRGeocode_result_def same_times_def log_event_def
           split: if_splits prod.splits option.splits)

lemma query_split:
  assumes "OGRGeocode_query e w h q = (w', h', r)"
  shows "\<exists>w1 h1 c. OGRGeocode_lookup e w h (OGRGeocode_osURL e h q) = (w1, h1, c) \<and>
           (case c of
              Some body \<Rightarrow> w' = w1 \<and> h' = h1 \<and> r = OGRGeocodeBuildLayer e body
            | None \<Rightarrow>
                (\<exists>res w2. OGRGeocode_fetch e w1 h1
                              (OGRGeocode_osURLWithEmail e h (OGRGeocode_osURL e h q)) = (res, w2) \<and>
                           OGRGeocode_result e w2 h1 q (OGRGeocode_osURL e h q) res = (w', h', r)))"
  using assms
  by (auto simp: OGRGeocode_query_def Let_def split: prod.splits option.splits)

lemma fetch_events_urls:
  assumes "OGRGeocode_fetch e w h url = (res, w')"
  shows "\<exists>evs. trace w' = trace w @ evs \<and> list_all (event_urls key url) evs"
proof (cases "pdfLastQueryTime h")
  case None
  from fetch_unthrottled [OF None assms] show ?thesis
    by (auto simp: event_urls_def)
next
  case (Some k)
  from fetch_throttled [OF Some assms] obtain opts t where
    "trace w' = trace w @ [GetTimeOfDay (clock w)]
                    @ limiter_sleep (clock w) (LastQueryTime k w) (dfDelayBetweenQueries h)
                    @ [HTTPFetch url opts (fetch_start (clock w) (LastQueryTime k w) (dfDelayBetweenQueries h)) t,
                       GetTimeOfDay t]"
    by blast
  then show ?thesis by (auto simp: event_urls_def limiter_sleep_def)
qed

lemma OGRGeocode_query_of:
  "OGRGeocode e w (Some h) (Some q) None opts = (w', hs', r) \<Longrightarrow>
     \<exists>h'. hs' = Some h' \<and> OGRGeocode_query e w h q = (w', h', r)"
  by (auto simp: OGRGeocode_def split: prod.splits)

subsection \<open>What a call may change in the session\<close>

text \<open>
  Each part of \<^verbatim>\<open>OGRGeocodeGetCacheLayer\<close> keeps the settings of the session; only the
  parts that run while the session has no datasource touch the name of the cache file.
\<close>

lemma same_settings_refl: "same_settings h h"
  by (simp add: same_settings_def)

lemma same_settings_trans: "same_settings a b \<Longrightarrow> same_settings b c \<Longrightarrow> same_settings a c"
  by (simp add: same_settings_def)

lemma GetCacheLayer_open_frame:
  "GetCacheLayer_open e h x = (h1, x1, d1) \<Longrightarrow>
     same_settings h h1 \<and> poDS h1 = poDS h \<and> (d1 = None \<longrightarrow> h1 = h)"
  by (auto simp: GetCacheLayer_open_def same_settings_def split: option.splits if_splits)

lemma GetCacheLayer_create_frame:
  "GetCacheLayer_create e h x = (h1, x1, d1) \<Longrightarrow> same_settings h h1 \<and> poDS h1 = poDS h"
  by (auto simp: GetCacheLayer_create_def same_settings_def Let_def split: option.splits if_splits)

lemma GetCacheLayer_datasource_frame:
  assumes "GetCacheLayer_datasource e h b = (h2, x2, d2)"
  shows "same_settings h h2 \<and> poDS h2 = poDS h"
proof -
  obtain h1 x1 d1 where o: "GetCacheLayer_open e h (CPLGetExtension e (pszCacheFilename h)) = (h1, x1, d1)"
    by (metis prod_cases3)
  note fo = GetCacheLayer_open_frame [OF o]
  show ?thesis
  proof (cases "b \<and> d1 = None \<and> \<not> EQUALN (pszCacheFilename h1) ''PG:'' 3")
    case True
    with assms o have "GetCacheLayer_create e h1 x1 = (h2, x2, d2)"
      by (simp add: GetCacheLayer_datasource_def)
    from GetCacheLayer_create_frame [OF this] fo show ?thesis
      by (metis same_settings_trans)
  next
    case False
    with assms o have "h2 = h1" by (simp add: GetCacheLayer_datasource_def)
    with fo show ?thesis by simp
  qed
qed

lemma GetCacheLayer_stage:
  assumes "OGRGeocodeGetCacheLayer e h b = (h', r)"
  shows "\<exists>h2 x2 d2.
           (if poDS h = None then GetCacheLayer_datasource e h b = (h2, x2, d2)
            else h2 = h \<and> x2 = CPLGetExtension e (pszCacheFilename h) \<and> d2 = poDS h) \<and>
           (case d2 of
              None \<Rightarrow> h' = h2 \<and> r = None
            | Some ds \<Rightarrow> (\<exists>ds'. GetCacheLayer_layer h2 ds x2 b = (ds', r) \<and> h' = h2\<lparr>poDS := Some ds'\<rparr>))"
proof (cases "poDS h")
  case None
  obtain h2 x2 d2 where st: "GetCacheLayer_datasource e h b = (h2, x2, d2)"
    by (metis prod_cases3)
  have "case d2 of
              None \<Rightarrow> h' = h2 \<and> r = None
            | Some ds \<Rightarrow> (\<exists>ds'. GetCacheLayer_layer h2 ds x2 b = (ds', r) \<and> h' = h2\<lparr>poDS := Some ds'\<rparr>)"
    using assms by (cases d2) (auto simp: OGRGeocodeGetCacheLayer_def None st split: prod.splits)
  with None st show ?thesis by auto
next
  case (Some ds)
  have "\<exists>ds'. GetCacheLayer_layer h ds (CPLGetExtension e (pszCacheFilename h)) b = (ds', r) \<and> h' = h\<lparr>poDS := Some ds'\<rparr>"
    using assms by (auto simp: OGRGeocodeGetCacheLayer_def Some split: prod.splits)
  with Some show ?thesis by auto
qed

lemma GetCacheLayer_frame:
  assumes "OGRGeocodeGetCacheLayer e h b = (h', r)"
  shows "same_settings h h' \<and>
         (poDS h \<noteq> None \<longrightarrow> pszCacheFilename h' = pszCacheFilename h \<and> poDS h' \<noteq> None)"
proof -
  from GetCacheLayer_stage [OF assms] obtain h2 x2 d2 where
    a: "if poDS h = None then GetCacheLayer_datasource e h b = (h2, x2, d2)
            else h2 = h \<and> x2 = CPLGetExtension e (pszCacheFilename h) \<and> d2 = poDS h" and
    b: "case d2 of
              None \<Rightarrow> h' = h2 \<and> r = None
            | Some ds \<Rightarrow> (\<exists>ds'. GetCacheLayer_layer h2 ds x2 b = (ds', r) \<and> h' = h2\<lparr>poDS := Some ds'\<rparr>)"
    by blast
  have s2: "same_settings h h2 \<and> (poDS h \<noteq> None \<longrightarrow> h2 = h \<and> d2 \<noteq> None)"
  proof (cases "poDS h")
    case None
    with a GetCacheLayer_datasource_frame [of e h b h2 x2 d2] show ?thesis by simp
  next
    case (Some ds)
    with a show ?thesis by (simp add: same_settings_refl)
  qed
  have s3: "same_settings h2 h' \<and> pszCacheFilename h' = pszCacheFilename h2 \<and> (d2 \<noteq> None \<longrightarrow> poDS h' \<noteq> None)"
    using b by (cases d2) (auto simp: same_settings_def)
  from s2 s3 show ?thesis by (metis same_settings_trans)
qed

lemma GetFromCache_frame:
  assumes "OGRGeocodeGetFromCache e h u = (h', r)"
  shows "same_settings h h' \<and>
         (poDS h \<noteq> None \<longrightarrow> pszCacheFilename h' = pszCacheFilename h \<and> poDS h' \<noteq> None)"
proof -
  obtain h1 r1 where g: "OGRGeocodeGetCacheLayer e h False = (h1, r1)" by (metis prod.exhaust)
  have "h' = h1"
    using assms g by (auto simp: OGRGeocodeGetFromCache_def split: option.splits prod.splits)
  with GetCacheLayer_frame [OF g] show ?thesis by simp
qed

lemma PutIntoCache_frame:
  assumes "OGRGeocodePutIntoCache e h u b = (h', r)"
  shows "same_settings h h' \<and>
         (poDS h \<noteq> None \<longrightarrow> pszCacheFilename h' = pszCacheFilename h \<and> poDS h' \<noteq> None)"
proof -
  obtain h1 r1 where g: "OGRGeocodeGetCacheLayer e h True = (h1, r1)" by (metis prod.exhaust)
  have "same_settings h1 h' \<and> pszCacheFilename h' = pszCacheFilename h1 \<and> (poDS h1 \<noteq> None \<longrightarrow> poDS h' \<noteq> None)"
    using assms g
    by (auto simp: OGRGeocodePutIntoCache_def same_settings_def Let_def split: option.splits prod.splits)
  with GetCacheLayer_frame [OF g] show ?thesis by (metis same_settings_trans)
qed

lemma lookup_frame:
  assumes "OGRGeocode_lookup e w h u = (w1, h1, r)"
  shows "same_settings h h1 \<and>
         (poDS h \<noteq> None \<longrightarrow> pszCacheFilename h1 = pszCacheFilename h \<and> poDS h1 \<noteq> None)"
proof (cases "bReadCache h")
  case True
  with lookup_effect [OF assms] have "OGRGeocodeGetFromCache e h u = (h1, r)" by simp
  from GetFromCache_frame [OF this] show ?thesis .
next
  case False
  with lookup_effect [OF assms] show ?thesis by (simp add: same_settings_refl)
qed

lemma result_frame:
  assumes "OGRGeocode_result e w h q u res = (w', h', r)"
  shows "same_settings h h' \<and>
         (poDS h \<noteq> None \<longrightarrow> pszCacheFilename h' = pszCacheFilename h \<and> poDS h' \<noteq> None)"
proof (cases "\<exists>x body. res = Some x \<and> pabyData x = Some body \<and> bWriteCache h")
  case True
  then obtain x body where "res = Some x" "pabyData x = Some body" "bWriteCache h" by blast
  with assms have "OGRGeocodePutIntoCache e h u body = (h', snd (OGRGeocodePutIntoCache e h u body))"
    by (auto simp: OGRGeocode_result_def split: prod.splits)
  from PutIntoCache_frame [OF this] show ?thesis .
next
  case False
  with assms have "h' = h"
    by (auto simp: OGRGeocode_result_def split: option.splits if_splits)
  then show ?thesis by (simp add: same_settings_refl)
qed

lemma query_frame:
  assumes "OGRGeocode_query e w h q = (w', h', r)"
  shows "same_settings h h' \<and>
         (poDS h \<noteq> None \<longrightarrow> pszCacheFilename h' = pszCacheFilename h \<and> poDS h' \<noteq> None)"
proof -
  from query_split [OF assms] obtain w1 h1 c where
    lk: "OGRGeocode_lookup e w h (OGRGeocode_osURL e h q) = (w1, h1, c)" and
    rest: "case c of
              Some body \<Rightarrow> w' = w1 \<and> h' = h1 \<and> r = OGRGeocodeBuildLayer e body
            | None \<Rightarrow>
                (\<exists>res w2. OGRGeocode_fetch e w1 h1
                              (OGRGeocode_osURLWithEmail e h (OGRGeocode_osURL e h q)) = (res, w2) \<and>
                           OGRGeocode_result e w2 h1 q (OGRGeocode_osURL e h q) res = (w', h', r))"
    by blast
  note fl = lookup_frame [OF lk]
  show ?thesis
  proof (cases c)
    case (Some body)
    with rest fl show ?thesis by simp
  next
    case None
    with rest obtain res w2 where
      "OGRGeocode_result e w2 h1 q (OGRGeocode_osURL e h q) res = (w', h', r)" by auto
    from result_frame [OF this] fl show ?thesis by (metis same_settings_trans)
  qed
qed

subsection \<open>The parts of a call\<close>

text \<open>
  The events of a call are quiet events, then the events of the request if there is one,
  then quiet events again; with this view the throttled and the unthrottled calls are
  described in full.
\<close>

lemma quiet_not: "quiet ev \<Longrightarrow> \<not> is_fetch ev \<and> \<not> is_sleep ev \<and> \<not> is_time_read ev"
  by (cases ev) (simp_all add: quiet_def is_fetch_def is_sleep_def is_time_read_def)

lemma quiet_list:
  "list_all quiet evs \<Longrightarrow>
     \<not> list_ex is_fetch evs \<and> \<not> list_ex is_sleep evs \<and> \<not> list_ex is_time_read evs \<and>
     filter is_sleep evs = [] \<and> filter is_fetch evs = []"
  by (induction evs) (auto dest: quiet_not)

lemma same_times_trans: "same_times a b \<Longrightarrow> same_times b c \<Longrightarrow> same_times a c"
  by (simp add: same_times_def)

lemma same_times_LastQueryTime: "same_times a b \<Longrightarrow> LastQueryTime k b = LastQueryTime k a"
  by (cases k) (simp_all add: same_times_def LastQueryTime_def)

lemma same_settings_kind:
  "same_settings h h1 \<Longrightarrow> pdfLastQueryTime h1 = pdfLastQueryTime h"
  by (simp add: same_settings_def pdfLastQueryTime_def)

text \<open>A call is a quiet prefix, possibly the request, and a quiet suffix.\<close>

lemma query_view:
  assumes "OGRGeocode_query e w h q = (w', h', r)"
  shows "\<exists>pre mid post w1 h1 w2.
           trace w' = trace w @ pre @ mid @ post \<and> list_all quiet pre \<and> list_all quiet post \<and>
           same_times w w1 \<and> same_times w2 w' \<and> same_settings h h1 \<and>
           trace w2 = trace w1 @ mid \<and>
           ((mid = [] \<and> w2 = w1) \<or>
            (\<exists>res. OGRGeocode_fetch e w1 h1
                      (OGRGeocode_osURLWithEmail e h (OGRGeocode_osURL e h q)) = (res, w2)))"
proof -
  let ?u = "OGRGeocode_osURL e h q"
  let ?ue = "OGRGeocode_osURLWithEmail e h ?u"
  from query_split [OF assms] obtain w1 h1 c where
    lk: "OGRGeocode_lookup e w h ?u = (w1, h1, c)" and
    rest: "case c of
              Some body \<Rightarrow> w' = w1 \<and> h' = h1 \<and> r = OGRGeocodeBuildLayer e body
            | None \<Rightarrow>
                (\<exists>res w2. OGRGeocode_fetch e w1 h1 ?ue = (res, w2) \<and>
                           OGRGeocode_result e w2 h1 q ?u res = (w', h', r))"
    by blast
  define pre where "pre = (if bReadCache h then [CacheLookup ?u] else [])"
  from lookup_effect [OF lk] have t1: "trace w1 = trace w @ pre" and s1: "same_times w w1"
    by (simp_all add: pre_def)
  have qpre: "list_all quiet pre" by (simp add: pre_def quiet_def)
  have set1: "same_settings h h1" using lookup_frame [OF lk] by simp
  show ?thesis
  proof (cases c)
    case (Some body)
    with rest have "w' = w1" by simp
    then have "trace w' = trace w @ pre @ [] @ [] \<and> list_all quiet pre \<and> list_all quiet [] \<and>
           same_times w w1 \<and> same_times w1 w' \<and> same_settings h h1 \<and> trace w1 = trace w1 @ [] \<and>
           ([] = ([]::event list) \<and> w1 = w1)"
      using t1 s1 qpre set1 by (simp add: same_times_refl)
    then show ?thesis by blast
  next
    case None
    with rest obtain res w2 where f: "OGRGeocode_fetch e w1 h1 ?ue = (res, w2)"
      and rs: "OGRGeocode_result e w2 h1 q ?u res = (w', h', r)" by auto
    obtain mid where t2: "trace w2 = trace w1 @ mid"
      using fetch_events_urls [OF f] by blast
    from result_effect [OF rs] have s3: "same_times w2 w'" and
      "trace w' = trace w2 \<or> (\<exists>m. trace w' = trace w2 @ [CPLError m]) \<or>
          (\<exists>b f. trace w' = trace w2 @ [CacheInsert ?u b f])" by simp_all
    then obtain post where t3: "trace w' = trace w2 @ post" "list_all quiet post"
      by (auto simp: quiet_def)
    have "trace w' = trace w @ pre @ mid @ post" using t1 t2 t3 by simp
    with qpre t3 s1 s3 set1 t2 f show ?thesis by blast
  qed
qed

lemma unthrottled_call:
  assumes "pdfLastQueryTime h = None" and "OGRGeocode_query e w h q = (w', h', r)"
  shows "dfLastQueryTimeStampOSMNominatim w' = dfLastQueryTimeStampOSMNominatim w \<and>
         dfLastQueryTimeStampMapQuestNominatim w' = dfLastQueryTimeStampMapQuestNominatim w \<and>
         \<not> list_ex is_time_read (new_events w w') \<and> \<not> list_ex is_sleep (new_events w w')"
proof -
  from query_view [OF assms(2)] obtain pre mid post w1 h1 w2 where
    v: "trace w' = trace w @ pre @ mid @ post" "list_all quiet pre" "list_all quiet post"
       "same_times w w1" "same_times w2 w'" "same_settings h h1" "trace w2 = trace w1 @ mid"
       "(mid = [] \<and> w2 = w1) \<or>
            (\<exists>res. OGRGeocode_fetch e w1 h1
                      (OGRGeocode_osURLWithEmail e h (OGRGeocode_osURL e h q)) = (res, w2))"
    by blast
  have k1: "pdfLastQueryTime h1 = None" using v(6) assms(1) by (simp add: same_settings_kind)
  have mid: "\<not> list_ex is_time_read mid \<and> \<not> list_ex is_sleep mid \<and>
             dfLastQueryTimeStampOSMNominatim w2 = dfLastQueryTimeStampOSMNominatim w1 \<and>
             dfLastQueryTimeStampMapQuestNominatim w2 = dfLastQueryTimeStampMapQuestNominatim w1"
    using v(8)
  proof
    assume "mid = [] \<and> w2 = w1"
    then show ?thesis by simp
  next
    assume "\<exists>res. OGRGeocode_fetch e w1 h1
                      (OGRGeocode_osURLWithEmail e h (OGRGeocode_osURL e h q)) = (res, w2)"
    then obtain res where "OGRGeocode_fetch e w1 h1
                      (OGRGeocode_osURLWithEmail e h (OGRGeocode_osURL e h q)) = (res, w2)" by blast
    from fetch_unthrottled [OF k1 this] v(7) show ?thesis
      by (auto simp: is_time_read_def is_sleep_def)
  qed
  have ne: "new_events w w' = pre @ mid @ post" using v(1) by (simp add: new_events_append)
  show ?thesis
    using mid v(2,3,4,5) quiet_list [of pre] quiet_list [of post]
    by (simp add: ne same_times_def list_ex_append)
qed

lemma throttled_call:
  assumes "pdfLastQueryTime h = Some k" and "OGRGeocode_query e w h q = (w', h', r)"
  shows "(\<forall>k'. k' \<noteq> k \<longrightarrow> LastQueryTime k' w' = LastQueryTime k' w) \<and>
         (if list_ex is_fetch (new_events w w')
          then \<exists>u p t.
                 filter is_fetch (new_events w w')
                   = [HTTPFetch u p (fetch_start (clock w) (LastQueryTime k w) (dfDelayBetweenQueries h)) t] \<and>
                 fetch_start (clock w) (LastQueryTime k w) (dfDelayBetweenQueries h) \<le> t \<and>
                 clock w' = t \<and> LastQueryTime k w' = clock_reading t \<and>
                 list_ex is_time_read (new_events w w') \<and>
                 filter is_sleep (new_events w w')
                   = limiter_sleep (clock w) (LastQueryTime k w) (dfDelayBetweenQueries h)
          else same_times w w' \<and> \<not> list_ex is_sleep (new_events w w'))"
proof -
  from query_view [OF assms(2)] obtain pre mid post w1 h1 w2 where
    v: "trace w' = trace w @ pre @ mid @ post" "list_all quiet pre" "list_all quiet post"
       "same_times w w1" "same_times w2 w'" "same_settings h h1" "trace w2 = trace w1 @ mid"
       "(mid = [] \<and> w2 = w1) \<or>
            (\<exists>res. OGRGeocode_fetch e w1 h1
                      (OGRGeocode_osURLWithEmail e h (OGRGeocode_osURL e h q)) = (res, w2))"
    by blast
  have k1: "pdfLastQueryTime h1 = Some k" using v(6) assms(1) by (simp add: same_settings_kind)
  have d1: "dfDelayBetweenQueries h1 = dfDelayBetweenQueries h" using v(6) by (simp add: same_settings_def)
  have c1: "clock w1 = clock w" using v(4) by (simp add: same_times_def)
  have l1: "LastQueryTime k' w1 = LastQueryTime k' w" for k' using v(4) by (rule same_times_LastQueryTime)
  have l2: "LastQueryTime k' w' = LastQueryTime k' w2" for k' using v(5) by (rule same_times_LastQueryTime)
  have c2: "clock w' = clock w2" using v(5) by (simp add: same_times_def)
  have ne: "new_events w w' = pre @ mid @ post" using v(1) by (simp add: new_events_append)
  note qp = quiet_list [OF v(2)] and qs = quiet_list [OF v(3)]
  from v(8) show ?thesis
  proof
    assume a: "mid = [] \<and> w2 = w1"
    then have "same_times w w'" using v(4,5) same_times_trans by blast
    then show ?thesis using a qp qs by (simp add: ne list_ex_append same_times_LastQueryTime)
  next
    assume "\<exists>res. OGRGeocode_fetch e w1 h1
                      (OGRGeocode_osURLWithEmail e h (OGRGeocode_osURL e h q)) = (res, w2)"
    then obtain res where "OGRGeocode_fetch e w1 h1
                      (OGRGeocode_osURLWithEmail e h (OGRGeocode_osURL e h q)) = (res, w2)" by blast
    from fetch_throttled [OF k1 this] obtain opts t where
      ft: "trace w2 = trace w1 @ [GetTimeOfDay (clock w1)]
                    @ limiter_sleep (clock w1) (LastQueryTime k w1) (dfDelayBetweenQueries h1)
                    @ [HTTPFetch (OGRGeocode_osURLWithEmail e h (OGRGeocode_osURL e h q)) opts
                         (fetch_start (clock w1) (LastQueryTime k w1) (dfDelayBetweenQueries h1)) t,
                       GetTimeOfDay t]"
          "fetch_start (clock w1) (LastQueryTime k w1) (dfDelayBetweenQueries h1) \<le> t"
          "clock w2 = t" "LastQueryTime k w2 = clock_reading t"
          "\<forall>k'. k' \<noteq> k \<longrightarrow> LastQueryTime k' w2 = LastQueryTime k' w1"
      by blast
    have mid: "mid = [GetTimeOfDay (clock w)]
                    @ limiter_sleep (clock w) (LastQueryTime k w) (dfDelayBetweenQueries h)
                    @ [HTTPFetch (OGRGeocode_osURLWithEmail e h (OGRGeocode_osURL e h q)) opts
                         (fetch_start (clock w) (LastQueryTime k w) (dfDelayBetweenQueries h)) t,
                       GetTimeOfDay t]"
      using ft(1) v(7) by (simp add: c1 l1 d1)
    have fm: "filter is_fetch mid = [HTTPFetch (OGRGeocode_osURLWithEmail e h (OGRGeocode_osURL e h q)) opts
                         (fetch_start (clock w) (LastQueryTime k w) (dfDelayBetweenQueries h)) t]"
      by (simp add: mid is_fetch_def limiter_sleep_def)
    have sm: "filter is_sleep mid
                = limiter_sleep (clock w) (LastQueryTime k w) (dfDelayBetweenQueries h)"
      by (simp add: mid is_sleep_def limiter_sleep_def)
    have ex: "list_ex is_fetch mid \<and> list_ex is_time_read mid"
      by (simp add: mid is_fetch_def is_time_read_def)
    have others: "\<forall>k'. k' \<noteq> k \<longrightarrow> LastQueryTime k' w' = LastQueryTime k' w"
      using ft(5) by (simp add: l1 l2)
    show ?thesis
      using others ex fm sm ft(2,3,4) qp qs
      by (simp add: ne list_ex_append c1 c2 l1 l2 d1)
  qed
qed

subsection \<open>Lookups in the cache\<close>

text \<open>
  A lookup that is repeated on the session it returned gives the same answer, and a
  lookup after a successful insertion finds the inserted body when the inserted row is
  the only one for the URL.
\<close>

lemma find_False:
  "GetCacheLayer_find h ds x False = (ds, GetLayerByName ds CACHE_LAYER_NAME)"
  by (simp add: GetCacheLayer_find_def)

lemma layer_False:
  "GetCacheLayer_layer h ds x False = (ds, cache_layer_of ds)"
  by (simp add: GetCacheLayer_layer_def find_False GetLayerByName_def cache_layer_of_def split: option.splits)

lemma find_name:
  assumes "GetCacheLayer_find h ds x b = (ds1, Some pl)"
  shows "pl = CACHE_LAYER_NAME"
  using assms
  by (cases "canCreateLayer ds")
     (auto simp: GetCacheLayer_find_def CreateLayer_def GetLayerByName_def Let_def
           split: if_splits option.splits)

lemma layer_Some:
  assumes "GetCacheLayer_layer h ds x b = (ds', Some (lname, ib))"
  shows "lname = CACHE_LAYER_NAME \<and> cache_layer_of ds' = Some (lname, ib)"
proof -
  obtain ds1 pl where st: "GetCacheLayer_find h ds x b = (ds1, pl)"
    by (metis prod.exhaust)
  from assms st obtain p where p: "pl = Some p"
    by (cases pl) (simp_all add: GetCacheLayer_layer_def)
  with st find_name have pn: "p = CACHE_LAYER_NAME" by blast
  have res: "ds' = ds1 \<and> p = lname \<and>
        (\<exists>l. papoLayers ds1 lname = Some l \<and> GetFieldIndex (poFeatureDefn l) FIELD_URL \<noteq> None \<and>
              GetFieldIndex (poFeatureDefn l) FIELD_BLOB = Some ib)"
    using assms unfolding GetCacheLayer_layer_def st p
    by (simp split: option.splits if_splits)
  with pn show ?thesis by (auto simp: cache_layer_of_def)
qed

lemma GetCacheLayer_Some:
  assumes "OGRGeocodeGetCacheLayer e h b = (h', Some (lname, ib))"
  shows "lname = CACHE_LAYER_NAME \<and> (\<exists>ds. poDS h' = Some ds \<and> cache_layer_of ds = Some (lname, ib))"
proof -
  from GetCacheLayer_stage [OF assms] obtain h2 x2 d2 where
    b: "case d2 of
              None \<Rightarrow> h' = h2 \<and> Some (lname, ib) = None
            | Some ds \<Rightarrow> (\<exists>ds'. GetCacheLayer_layer h2 ds x2 b = (ds', Some (lname, ib)) \<and> h' = h2\<lparr>poDS := Some ds'\<rparr>)"
    by blast
  then obtain ds ds' where "GetCacheLayer_layer h2 ds x2 b = (ds', Some (lname, ib))" "h' = h2\<lparr>poDS := Some ds'\<rparr>"
    by (cases d2) auto
  with layer_Some show ?thesis by auto
qed

lemma GetCacheLayer_open_session:
  "poDS h = Some ds \<Longrightarrow> OGRGeocodeGetCacheLayer e h False = (h, cache_layer_of ds)"
  by (simp add: OGRGeocodeGetCacheLayer_def layer_False)

lemma GetCacheLayer_False_result:
  assumes "OGRGeocodeGetCacheLayer e h False = (h', r)"
  shows "(case poDS h' of None \<Rightarrow> r = None \<and> h' = h | Some ds \<Rightarrow> r = cache_layer_of ds)"
proof -
  from GetCacheLayer_stage [OF assms] obtain h2 x2 d2 where
    a: "if poDS h = None then GetCacheLayer_datasource e h False = (h2, x2, d2)
            else h2 = h \<and> x2 = CPLGetExtension e (pszCacheFilename h) \<and> d2 = poDS h" and
    b: "case d2 of
              None \<Rightarrow> h' = h2 \<and> r = None
            | Some ds \<Rightarrow> (\<exists>ds'. GetCacheLayer_layer h2 ds x2 False = (ds', r) \<and> h' = h2\<lparr>poDS := Some ds'\<rparr>)"
    by blast
  show ?thesis
  proof (cases d2)
    case (Some ds)
    with b show ?thesis by (auto simp: layer_False)
  next
    case None
    with b have h': "h' = h2" "r = None" by simp_all
    have p: "poDS h = None" using a None by (auto split: if_splits)
    with a have "GetCacheLayer_datasource e h False = (h2, x2, None)" using None by simp
    then have "GetCacheLayer_open e h (CPLGetExtension e (pszCacheFilename h)) = (h2, x2, None)"
      by (auto simp: GetCacheLayer_datasource_def split: prod.splits)
    from GetCacheLayer_open_frame [OF this] have "h2 = h" by simp
    with h' p show ?thesis by simp
  qed
qed

lemma GetCacheLayer_False_idem:
  assumes "OGRGeocodeGetCacheLayer e h False = (h', r)"
  shows "OGRGeocodeGetCacheLayer e h' False = (h', r)"
proof (cases "poDS h'")
  case None
  with GetCacheLayer_False_result [OF assms] have "h' = h" by simp
  with assms show ?thesis by simp
next
  case (Some ds)
  with GetCacheLayer_False_result [OF assms] have "r = cache_layer_of ds" by simp
  with Some show ?thesis by (simp add: GetCacheLayer_open_session)
qed

lemma GetFromCache_unfold:
  "OGRGeocodeGetFromCache e h u =
     (fst (OGRGeocodeGetCacheLayer e h False),
      case snd (OGRGeocodeGetCacheLayer e h False) of
        None \<Rightarrow> None
      | Some (poLayer, nIdxBlob) \<Rightarrow>
          (case poDS (fst (OGRGeocodeGetCacheLayer e h False)) of
             None \<Rightarrow> None
           | Some ds \<Rightarrow>
               (case papoLayers ds poLayer of
                  None \<Rightarrow> None
                | Some l \<Rightarrow>
                    (case GetNextFeature (url_filter l u) of
                       None \<Rightarrow> None
                     | Some poFeature \<Rightarrow> pauFields poFeature nIdxBlob))))"
  by (simp add: OGRGeocodeGetFromCache_def split: prod.splits option.splits)

lemma GetFromCache_idem:
  assumes "OGRGeocodeGetFromCache e h u = (h', r)"
  shows "OGRGeocodeGetFromCache e h' u = (h', r)"
proof -
  obtain lr where g: "OGRGeocodeGetCacheLayer e h False = (h', lr)"
    using assms by (metis GetFromCache_unfold fst_conv prod.collapse)
  from GetCacheLayer_False_idem [OF g] have g': "OGRGeocodeGetCacheLayer e h' False = (h', lr)" .
  show ?thesis using assms unfolding GetFromCache_unfold g g' by simp
qed

lemma GetFieldIndex_name:
  "GetFieldIndex d n = Some i \<Longrightarrow> i < length d \<and> fst (d ! i) = n"
  by (induction d arbitrary: i) (auto split: if_splits)

lemma url_blob_distinct:
  "GetFieldIndex d FIELD_URL = Some iu \<Longrightarrow> GetFieldIndex d FIELD_BLOB = Some ib \<Longrightarrow> iu \<noteq> ib"
  using GetFieldIndex_name [of d FIELD_URL iu] GetFieldIndex_name [of d FIELD_BLOB ib]
  by (auto simp: FIELD_URL_def FIELD_BLOB_def)

lemma lookup_after_insert:
  assumes put: "OGRGeocodePutIntoCache e h u body = (h', True)"
    and one: "length (session_cache_rows h' u) = 1"
  shows "OGRGeocodeGetFromCache e h' u = (h', Some body)"
proof -
  obtain hc lr where g: "OGRGeocodeGetCacheLayer e h True = (hc, lr)" by (metis prod.exhaust)
  from put g obtain lname ib where lr: "lr = Some (lname, ib)"
    by (cases lr) (auto simp: OGRGeocodePutIntoCache_def)
  from GetCacheLayer_Some [OF g [unfolded lr]] obtain ds where
    ds: "lname = CACHE_LAYER_NAME" "poDS hc = Some ds" "cache_layer_of ds = Some (lname, ib)" by blast
  then obtain l iu where l: "papoLayers ds CACHE_LAYER_NAME = Some l"
      "GetFieldIndex (poFeatureDefn l) FIELD_URL = Some iu"
      "GetFieldIndex (poFeatureDefn l) FIELD_BLOB = Some ib"
    by (auto simp: cache_layer_of_def split: option.splits if_splits)
  from url_blob_distinct [OF l(2,3)] have ne: "iu \<noteq> ib" .
  define f where "f = \<lparr>pauFields = ((\<lambda>_. None)(iu \<mapsto> u))(ib \<mapsto> body), poGeometry = None\<rparr>"
  define l' where "l' = l\<lparr>papoFeatures := papoFeatures l @ [f]\<rparr>"
  define ds' where "ds' = ds\<lparr>papoLayers := (papoLayers ds)(CACHE_LAYER_NAME \<mapsto> l')\<rparr>"
  have h': "h' = hc\<lparr>poDS := Some ds'\<rparr>"
    using put g lr ds l
    by (auto simp: OGRGeocodePutIntoCache_def CreateFeature_def SetField_by_name_def Let_def
                   f_def l'_def ds'_def split: if_splits)
  have rows: "session_cache_rows h' u = filter (\<lambda>f. pauFields f iu = Some u) (papoFeatures l) @ [f]"
    using ne l by (simp add: session_cache_rows_def h' ds'_def l'_def url_filter_def f_def)
  with one have r1: "url_filter l' u = [f]"
    using l by (simp add: url_filter_def l'_def f_def ne)
  have cl: "cache_layer_of ds' = Some (CACHE_LAYER_NAME, ib)"
    using l by (simp add: cache_layer_of_def ds'_def l'_def)
  have "OGRGeocodeGetCacheLayer e h' False = (h', Some (CACHE_LAYER_NAME, ib))"
    using GetCacheLayer_open_session [of h' ds' e] cl by (simp add: h')
  then show ?thesis
    unfolding GetFromCache_unfold
    by (simp add: h' ds'_def r1 GetNextFeature_def f_def)
qed

subsection \<open>Evaluation on the concrete environment\<close>

text \<open>
  The times read and the sums of the limiter on the concrete inputs, computed once, and
  the rules that run a call.
\<close>

lemma demo_readings:
  "timeval_seconds \<lparr>tv_sec = 1000, tv_usec = 0\<rparr> = 1000"
  "timeval_seconds \<lparr>tv_sec = 1000, tv_usec = 250000\<rparr> = 4001 / 4"
  "timeval_seconds \<lparr>tv_sec = 1001, tv_usec = 500000\<rparr> = 2003 / 2"
  by code_simp+

lemma demo_sums:
  "double_add 0 1 = 1"
  "double_add (4001 / 4) 1 = 4005 / 4"
  "double_sub (4005 / 4) (4001 / 4) = 1"
  by code_simp+

lemma demo_tenths:
  "double_round (3 / 10) = 5404319552844595 / 18014398509481984"
  "double_add 0 (5404319552844595 / 18014398509481984) = 5404319552844595 / 18014398509481984"
  "double_add (4001 / 4) (5404319552844595 / 18014398509481984) = 4400465436685107 / 4398046511104"
  "double_sub (4400465436685107 / 4398046511104) (4001 / 4) = 1319413953331 / 4398046511104"
  by code_simp+

lemmas demo_call_simps =
  OGRGeocode_def OGRGeocode_query_def OGRGeocode_lookup_def OGRGeocode_result_def OGRGeocode_fetch_def
  OGRGeocode_osURL_def OGRGeocode_osURLWithEmail_def pdfLastQueryTime_def
  OGRGeocodeGetFromCache_def OGRGeocodePutIntoCache_def OGRGeocodeGetCacheLayer_def
  GetCacheLayer_open_def GetCacheLayer_create_def GetCacheLayer_layer_def GetCacheLayer_find_def
  GetCacheLayer_datasource_def
  GetLayerByName_def CreateLayer_def CreateField_def ExecuteSQL_def CreateFeature_def
  SetField_by_name_def url_filter_def GetNextFeature_def session_cache_rows_def
  HTTPFetch_call_def gettimeofday_def timeval_at_def CPLSleep_def log_event_def
  LastQueryTime_def set_LastQueryTime_def demo_readings demo_sums
  demo_env_def demo_env_down_def demo_session_def world0_def world1_def empty_datasource_def demo_extension_def
  demo_session_email_def demo_session_other_def demo_session_nocache_def demo_url_def
  EQUAL_def EQUALN_def toupper_def new_events_def
  CACHE_LAYER_NAME_def DEFAULT_CACHE_SQLITE_def DEFAULT_CACHE_CSV_def FIELD_URL_def FIELD_BLOB_def
  OSM_NOMINATIM_QUERY_def Let_def

lemma demo_call_events:
  "new_events world0 (fst (OGRGeocode demo_env world0 (Some demo_session) (Some ''Paris'') None []))
     = [CacheLookup demo_url, GetTimeOfDay 1000,
        HTTPFetch demo_url [''HEADERS=User-Agent: GDAL''] 1000 1000.25,
        GetTimeOfDay 1000.25, CacheInsert demo_url doc_paris True]"
  by (simp add: demo_call_simps)

lemma demo_call_rows:
  "map_option (\<lambda>h. length (session_cache_rows h demo_url))
     (fst (snd (OGRGeocode demo_env world0 (Some demo_session) (Some ''Paris'') None []))) = Some 1"
  by (simp add: demo_call_simps)

lemma demo_call_name:
  "map_option pszCacheFilename
     (fst (snd (OGRGeocode demo_env world0 (Some demo_session) (Some ''Paris'') None [])))
     = Some ''ogr_geocode_cache.csv''"
  by (simp add: demo_call_simps)


lemma demo_nocache_events:
  "new_events world1 (fst (OGRGeocode demo_env world1 (Some demo_session_nocache) (Some ''Paris'') None []))
     = [GetTimeOfDay 1000.25, Sleep 1,
        HTTPFetch demo_url [''HEADERS=User-Agent: GDAL''] 1001.25 1001.5,
        GetTimeOfDay 1001.5]"
  by (simp add: demo_call_simps)

lemmas demo_call_simps2 = demo_call_simps demo_down_first_def demo_down_second_def
  demo_cached_datasource_def demo_cached_session_def

section \<open>The URLs of a call\<close>






section \<open>The session across calls\<close>

text \<open>
  Where the name of the cache file can go: each part of \<^verbatim>\<open>OGRGeocodeGetCacheLayer\<close>
  keeps it or replaces it by one of the fallback names, and a lookup that leaves the
  session without datasource has not touched it.
\<close>

lemma cache_file_switch_refl: "cache_file_switch e n n"
  by (simp add: cache_file_switch_def)

lemma GetCacheLayer_open_switch:
  "GetCacheLayer_open e h x = (h1, x1, d1) \<Longrightarrow>
     (h1 = h \<and> x1 = x) \<or>
     (EQUAL (pszCacheFilename h) DEFAULT_CACHE_SQLITE \<and> pszCacheFilename h1 = DEFAULT_CACHE_CSV \<and>
      d1 \<noteq> None)"
  by (auto simp: GetCacheLayer_open_def split: option.splits if_splits)

lemma GetCacheLayer_create_switch:
  "GetCacheLayer_create e h x = (h1, x1, d1) \<Longrightarrow>
     pszCacheFilename h1 = pszCacheFilename h \<or>
     (EQUAL (pszCacheFilename h) DEFAULT_CACHE_SQLITE \<and>
      (pszCacheFilename h1 = DEFAULT_CACHE_CSV \<or>
       pszCacheFilename h1 = ''/vsimem/'' @ CACHE_LAYER_NAME @ ''.csv'')) \<or>
     ((EQUAL x ''SQLITE'' \<or> EQUAL x ''CSV'') \<and>
      pszCacheFilename h1 = ''/vsimem/'' @ CACHE_LAYER_NAME @ ''.'' @ x)"
  by (auto simp: GetCacheLayer_create_def Let_def split: option.splits if_splits)

lemma GetCacheLayer_datasource_switch:
  assumes "GetCacheLayer_datasource e h b = (h2, x2, d2)"
  shows "cache_file_switch e (pszCacheFilename h) (pszCacheFilename h2) \<and>
         (\<not> b \<and> d2 = None \<longrightarrow> h2 = h)"
proof -
  let ?x = "CPLGetExtension e (pszCacheFilename h)"
  obtain h1 x1 d1 where o: "GetCacheLayer_open e h ?x = (h1, x1, d1)"
    by (metis prod_cases3)
  note sw = GetCacheLayer_open_switch [OF o] and fr = GetCacheLayer_open_frame [OF o]
  show ?thesis
  proof (cases "b \<and> d1 = None \<and> \<not> EQUALN (pszCacheFilename h1) ''PG:'' 3")
    case True
    with assms o have c: "GetCacheLayer_create e h1 x1 = (h2, x2, d2)"
      by (simp add: GetCacheLayer_datasource_def)
    from True sw have same: "h1 = h \<and> x1 = ?x" by blast
    from GetCacheLayer_create_switch [OF c] same
    have "cache_file_switch e (pszCacheFilename h) (pszCacheFilename h2)"
      by (auto simp: cache_file_switch_def)
    with True show ?thesis by simp
  next
    case False
    with assms o have eq: "h2 = h1" "d2 = d1" by (simp_all add: GetCacheLayer_datasource_def)
    from sw have "cache_file_switch e (pszCacheFilename h) (pszCacheFilename h1)"
      by (auto simp: cache_file_switch_def)
    with eq fr show ?thesis by simp
  qed
qed

lemma GetCacheLayer_switch:
  assumes "OGRGeocodeGetCacheLayer e h b = (h', r)"
  shows "cache_file_switch e (pszCacheFilename h) (pszCacheFilename h') \<and>
         (\<not> b \<and> poDS h' = None \<longrightarrow> pszCacheFilename h' = pszCacheFilename h)"
proof -
  from GetCacheLayer_stage [OF assms] obtain h2 x2 d2 where
    a: "if poDS h = None then GetCacheLayer_datasource e h b = (h2, x2, d2)
            else h2 = h \<and> x2 = CPLGetExtension e (pszCacheFilename h) \<and> d2 = poDS h" and
    b: "case d2 of
              None \<Rightarrow> h' = h2 \<and> r = None
            | Some ds \<Rightarrow> (\<exists>ds'. GetCacheLayer_layer h2 ds x2 b = (ds', r) \<and> h' = h2\<lparr>poDS := Some ds'\<rparr>)"
    by blast
  have s2: "cache_file_switch e (pszCacheFilename h) (pszCacheFilename h2) \<and>
            (\<not> b \<and> d2 = None \<longrightarrow> h2 = h)"
  proof (cases "poDS h")
    case None
    with a GetCacheLayer_datasource_switch [of e h b h2 x2 d2] show ?thesis by simp
  next
    case (Some ds)
    with a show ?thesis by (simp add: cache_file_switch_refl)
  qed
  have s3: "pszCacheFilename h' = pszCacheFilename h2 \<and> (poDS h' = None \<longrightarrow> d2 = None)"
    using b by (cases d2) auto
  from s2 s3 show ?thesis by auto
qed

lemma GetFromCache_switch:
  assumes "OGRGeocodeGetFromCache e h u = (h', r)"
  shows "cache_file_switch e (pszCacheFilename h) (pszCacheFilename h') \<and>
         (poDS h' = None \<longrightarrow> pszCacheFilename h' = pszCacheFilename h)"
proof -
  obtain h1 r1 where g: "OGRGeocodeGetCacheLayer e h False = (h1, r1)" by (metis prod.exhaust)
  have "h' = h1"
    using assms g by (auto simp: OGRGeocodeGetFromCache_def split: option.splits prod.splits)
  with GetCacheLayer_switch [OF g] show ?thesis by simp
qed

lemma PutIntoCache_switch:
  assumes "OGRGeocodePutIntoCache e h u b = (h', r)"
  shows "cache_file_switch e (pszCacheFilename h) (pszCacheFilename h')"
proof -
  obtain h1 r1 where g: "OGRGeocodeGetCacheLayer e h True = (h1, r1)" by (metis prod.exhaust)
  have "pszCacheFilename h' = pszCacheFilename h1"
    using assms g
    by (auto simp: OGRGeocodePutIntoCache_def Let_def split: option.splits prod.splits)
  with GetCacheLayer_switch [OF g] show ?thesis by simp
qed

lemma lookup_switch:
  assumes "OGRGeocode_lookup e w h u = (w1, h1, r)"
  shows "cache_file_switch e (pszCacheFilename h) (pszCacheFilename h1) \<and>
         (poDS h1 = None \<longrightarrow> pszCacheFilename h1 = pszCacheFilename h)"
proof (cases "bReadCache h")
  case True
  with lookup_effect [OF assms] have "OGRGeocodeGetFromCache e h u = (h1, r)" by simp
  from GetFromCache_switch [OF this] show ?thesis .
next
  case False
  with lookup_effect [OF assms] show ?thesis by (simp add: cache_file_switch_refl)
qed

lemma result_switch:
  assumes "OGRGeocode_result e w h q u res = (w', h', r)"
  shows "cache_file_switch e (pszCacheFilename h) (pszCacheFilename h')"
proof (cases "\<exists>x body. res = Some x \<and> pabyData x = Some body \<and> bWriteCache h")
  case True
  then obtain x body where "res = Some x" "pabyData x = Some body" "bWriteCache h" by blast
  with assms have "OGRGeocodePutIntoCache e h u body = (h', snd (OGRGeocodePutIntoCache e h u body))"
    by (auto simp: OGRGeocode_result_def split: prod.splits)
  from PutIntoCache_switch [OF this] show ?thesis .
next
  case False
  with assms have "h' = h"
    by (auto simp: OGRGeocode_result_def split: option.splits if_splits)
  then show ?thesis by (simp add: cache_file_switch_refl)
qed

lemma query_switch:
  assumes "OGRGeocode_query e w h q = (w', h', r)"
  shows "cache_file_switch e (pszCacheFilename h) (pszCacheFilename h')"
proof -
  from query_split [OF assms] obtain w1 h1 c where
    lk: "OGRGeocode_lookup e w h (OGRGeocode_osURL e h q) = (w1, h1, c)" and
    rest: "case c of
              Some body \<Rightarrow> w' = w1 \<and> h' = h1 \<and> r = OGRGeocodeBuildLayer e body
            | None \<Rightarrow>
                (\<exists>res w2. OGRGeocode_fetch e w1 h1
                              (OGRGeocode_osURLWithEmail e h (OGRGeocode_osURL e h q)) = (res, w2) \<and>
                           OGRGeocode_result e w2 h1 q (OGRGeocode_osURL e h q) res = (w', h', r))"
    by blast
  note sl = lookup_switch [OF lk]
  show ?thesis
  proof (cases c)
    case (Some body)
    with rest sl show ?thesis by simp
  next
    case None
    with rest obtain res w2 where
      rs: "OGRGeocode_result e w2 h1 q (OGRGeocode_osURL e h q) res = (w', h', r)" by auto
    show ?thesis
    proof (cases "poDS h1")
      case None
      with sl have "pszCacheFilename h1 = pszCacheFilename h" by simp
      with result_switch [OF rs] show ?thesis by simp
    next
      case (Some ds)
      with result_frame [OF rs] have "pszCacheFilename h' = pszCacheFilename h1" by simp
      with sl show ?thesis by simp
    qed
  qed
qed

text \<open>
  The session created without options names the SQLite file; after one call, in an
  environment without the SQLite driver, it names the CSV file.
\<close>

theorem cache_file_name_changes_counterexample:
  "pszCacheFilename demo_session = ''ogr_geocode_cache.sqlite'' \<and>
   map_option pszCacheFilename
     (fst (snd (OGRGeocode demo_env world0 (Some demo_session) (Some ''Paris'') None [])))
     = Some ''ogr_geocode_cache.csv''"
  by (simp add: demo_call_simps)

text \<open>
  C6, amended. A call never changes the service, the address, the application name, the
  template, the extra parameters, the two cache flags or the delay of the session. The
  name of the cache file can change, but only to a fallback name: from the default SQLite
  name to the default CSV name or to the CSV file in memory
  (\<^verbatim>\<open>/vsimem/ogr_geocode_cache.csv\<close>), and from a name whose extension is that of
  SQLite or CSV to the file in memory with that extension; and only while the session
  has no datasource: once the datasource is set, the name stays and the datasource
  remains set. (The claim as written also holds the name of the cache file fixed.)
\<close>

theorem geocode_keeps_the_settings:
  assumes "OGRGeocode e w (Some h) q sq opts = (w', hs', r)"
  shows "\<exists>h'. hs' = Some h' \<and> same_settings h h' \<and>
              cache_file_switch e (pszCacheFilename h) (pszCacheFilename h') \<and>
              (poDS h \<noteq> None \<longrightarrow> pszCacheFilename h' = pszCacheFilename h \<and> poDS h' \<noteq> None)"
proof (cases "\<exists>x. q = Some x \<and> sq = None")
  case True
  then obtain x where "q = Some x" "sq = None" by blast
  with assms obtain h' where "hs' = Some h'" "OGRGeocode_query e w h x = (w', h', r)"
    using OGRGeocode_query_of by blast
  with query_frame query_switch show ?thesis by blast
next
  case False
  with assms have "hs' = Some h"
    by (auto simp: OGRGeocode_def split: if_splits option.splits)
  then show ?thesis by (simp add: same_settings_refl cache_file_switch_refl)
qed

theorem geocode_keeps_the_settings_witness:
  "(\<exists>w' h' r.
     OGRGeocode demo_env world0 (Some demo_cached_session) (Some ''Paris'') None [] = (w', Some h', r) \<and>
     same_settings demo_cached_session h' \<and>
     pszCacheFilename h' = ''ogr_geocode_cache.sqlite'' \<and> poDS h' \<noteq> None) \<and>
   (\<exists>w' h' r.
     OGRGeocode demo_env world0 (Some demo_session) (Some ''Paris'') None [] = (w', Some h', r) \<and>
     same_settings demo_session h' \<and>
     cache_file_switch demo_env ''ogr_geocode_cache.sqlite'' (pszCacheFilename h') \<and>
     pszCacheFilename h' = ''ogr_geocode_cache.csv'')"
proof -
  obtain w' hs' r where
    run: "OGRGeocode demo_env world0 (Some demo_cached_session) (Some ''Paris'') None [] = (w', hs', r)"
    by (metis prod_cases3)
  have "poDS demo_cached_session \<noteq> None \<and>
        pszCacheFilename demo_cached_session = ''ogr_geocode_cache.sqlite''"
    by (simp add: demo_cached_session_def demo_session_def)
  with geocode_keeps_the_settings [OF run] run have a:
    "\<exists>w' h' r.
     OGRGeocode demo_env world0 (Some demo_cached_session) (Some ''Paris'') None [] = (w', Some h', r) \<and>
     same_settings demo_cached_session h' \<and>
     pszCacheFilename h' = ''ogr_geocode_cache.sqlite'' \<and> poDS h' \<noteq> None"
    by auto
  obtain v' gs' s where
    run2: "OGRGeocode demo_env world0 (Some demo_session) (Some ''Paris'') None [] = (v', gs', s)"
    by (metis prod_cases3)
  have n0: "pszCacheFilename demo_session = ''ogr_geocode_cache.sqlite''"
    by (simp add: demo_session_def)
  have n1: "map_option pszCacheFilename gs' = Some ''ogr_geocode_cache.csv''"
    using demo_call_name run2 by simp
  from geocode_keeps_the_settings [OF run2] obtain g' where
    "gs' = Some g'" "same_settings demo_session g'"
    "cache_file_switch demo_env (pszCacheFilename demo_session) (pszCacheFilename g')"
    by blast
  with n0 n1 run2 have b:
    "\<exists>w' h' r.
     OGRGeocode demo_env world0 (Some demo_session) (Some ''Paris'') None [] = (w', Some h', r) \<and>
     same_settings demo_session h' \<and>
     cache_file_switch demo_env ''ogr_geocode_cache.sqlite'' (pszCacheFilename h') \<and>
     pszCacheFilename h' = ''ogr_geocode_cache.csv''"
    by auto
  from a b show ?thesis by (rule conjI)
qed

section \<open>The rate limiter\<close>

text \<open>
  Rounding moves a number by at most half the distance between two neighbouring
  doubles, and keeps it non-negative.
\<close>

lemma pow2_pos: "0 < pow2 k"
  by (simp add: pow2_def)

lemma pow2_half: "pow2 (k - 1) = pow2 k / 2"
proof (cases "1 \<le> k")
  case True
  then have "nat k = Suc (nat (k - 1))" by simp
  then have "(2::real) ^ nat k = 2 * 2 ^ nat (k - 1)" by simp
  with True show ?thesis by (simp add: pow2_def)
next
  case False
  then have "nat (- (k - 1)) = Suc (nat (- k))" by simp
  then have "(2::real) ^ nat (- (k - 1)) = 2 * 2 ^ nat (- k)" by simp
  with False show ?thesis by (simp add: pow2_def)
qed

lemma round_even_error: "\<bar>of_int (round_even q) - q\<bar> \<le> 1 / 2"
proof -
  have "0 \<le> q - of_int \<lfloor>q\<rfloor>" "q - of_int \<lfloor>q\<rfloor> < 1" by linarith+
  then show ?thesis by (auto simp: round_even_def Let_def)
qed

lemma round_even_nonneg: "0 \<le> q \<Longrightarrow> 0 \<le> round_even q"
  by (auto simp: round_even_def Let_def)

lemma double_round_error: "round_off x \<le> pow2 (binade x - 53)"
proof (cases "x = 0")
  case True
  then show ?thesis using pow2_pos [of "binade x - 53"] by (simp add: round_off_def double_round_def)
next
  case False
  let ?u = "pow2 (binade x - 52)"
  have u: "0 < ?u" by (rule pow2_pos)
  have "double_round x - x = (of_int (round_even (x / ?u)) - x / ?u) * ?u"
    using False u by (simp add: double_round_def algebra_simps)
  then have "\<bar>double_round x - x\<bar> = \<bar>of_int (round_even (x / ?u)) - x / ?u\<bar> * ?u"
    using u by (simp add: abs_mult)
  also have "\<dots> \<le> 1 / 2 * ?u"
    using round_even_error [of "x / ?u"] u by (simp add: mult_right_mono)
  also have "\<dots> = pow2 (binade x - 53)"
    using pow2_half [of "binade x - 52"] by simp
  finally show ?thesis by (simp add: round_off_def)
qed

lemma double_round_nonneg: "0 \<le> x \<Longrightarrow> 0 \<le> double_round x"
  using pow2_pos [of "binade x - 52"] round_even_nonneg [of "x / pow2 (binade x - 52)"]
  by (simp add: double_round_def)

lemma kind_of_service:
  "pdfLastQueryTime h =
     (if EQUAL (pszGeocodingService h) ''OSM_NOMINATIM'' then Some OSMNominatim
      else if EQUAL (pszGeocodingService h) ''MAPQUEST_NOMINATIM'' then Some MapQuestNominatim
      else None)"
  by (simp add: pdfLastQueryTime_def)

lemma demo_limiter:
  "limiter_sleep (clock world1) (dfLastQueryTimeStampOSMNominatim world1)
     (dfDelayBetweenQueries demo_session_nocache) = [Sleep 1]"
  by (simp add: limiter_sleep_def clock_reading_def timeval_at_def world1_def
        demo_session_nocache_def demo_session_def demo_readings demo_sums)

text \<open>
  C7. A call for a session whose service is neither \<^verbatim>\<open>OSM_NOMINATIM\<close> nor
  \<^verbatim>\<open>MAPQUEST_NOMINATIM\<close> (compared without regard to case) leaves both time stamps as
  they were, reads no clock and does not sleep, whatever the delay of the session. A
  call for one of the two services leaves the time stamp of the other one as it was;
  when it sends a request it reads the clock, it sleeps as the limiter prescribes for
  the time stamp of its own service and the delay of the session (when the time read
  is less than the sum of the two, for the difference, both in double precision), and
  it sets its own time stamp to the time read when the request has ended.
\<close>

theorem only_two_services_are_throttled:
  assumes "OGRGeocode e w (Some h) (Some q) None opts = (w', hs', r)"
  shows "(\<not> EQUAL (pszGeocodingService h) ''OSM_NOMINATIM'' \<and>
          \<not> EQUAL (pszGeocodingService h) ''MAPQUEST_NOMINATIM'' \<longrightarrow>
            dfLastQueryTimeStampOSMNominatim w' = dfLastQueryTimeStampOSMNominatim w \<and>
            dfLastQueryTimeStampMapQuestNominatim w' = dfLastQueryTimeStampMapQuestNominatim w \<and>
            \<not> list_ex is_time_read (new_events w w') \<and> \<not> list_ex is_sleep (new_events w w')) \<and>
         (EQUAL (pszGeocodingService h) ''OSM_NOMINATIM'' \<longrightarrow>
            dfLastQueryTimeStampMapQuestNominatim w' = dfLastQueryTimeStampMapQuestNominatim w \<and>
            (list_ex is_fetch (new_events w w') \<longrightarrow>
               list_ex is_time_read (new_events w w') \<and>
               filter is_sleep (new_events w w')
                 = limiter_sleep (clock w) (dfLastQueryTimeStampOSMNominatim w)
                     (dfDelayBetweenQueries h) \<and>
               dfLastQueryTimeStampOSMNominatim w' = clock_reading (clock w'))) \<and>
         (\<not> EQUAL (pszGeocodingService h) ''OSM_NOMINATIM'' \<and>
          EQUAL (pszGeocodingService h) ''MAPQUEST_NOMINATIM'' \<longrightarrow>
            dfLastQueryTimeStampOSMNominatim w' = dfLastQueryTimeStampOSMNominatim w \<and>
            (list_ex is_fetch (new_events w w') \<longrightarrow>
               list_ex is_time_read (new_events w w') \<and>
               filter is_sleep (new_events w w')
                 = limiter_sleep (clock w) (dfLastQueryTimeStampMapQuestNominatim w)
                     (dfDelayBetweenQueries h) \<and>
               dfLastQueryTimeStampMapQuestNominatim w' = clock_reading (clock w')))"
proof -
  from OGRGeocode_query_of [OF assms] obtain h' where
    run: "OGRGeocode_query e w h q = (w', h', r)" by blast
  show ?thesis
  proof (cases "pdfLastQueryTime h")
    case None
    from unthrottled_call [OF None run] None show ?thesis
      by (simp add: kind_of_service split: if_splits)
  next
    case (Some k)
    from throttled_call [OF Some run] have
      others: "\<forall>k'. k' \<noteq> k \<longrightarrow> LastQueryTime k' w' = LastQueryTime k' w" and
      fetched: "list_ex is_fetch (new_events w w') \<longrightarrow>
                  list_ex is_time_read (new_events w w') \<and>
                  filter is_sleep (new_events w w')
                    = limiter_sleep (clock w) (LastQueryTime k w) (dfDelayBetweenQueries h) \<and>
                  LastQueryTime k w' = clock_reading (clock w')"
      by (auto split: if_splits)
    show ?thesis
    proof (cases k)
      case OSMNominatim
      with Some have "EQUAL (pszGeocodingService h) ''OSM_NOMINATIM''"
        by (simp add: kind_of_service split: if_splits)
      moreover have "LastQueryTime MapQuestNominatim w' = LastQueryTime MapQuestNominatim w"
        using others OSMNominatim by simp
      ultimately show ?thesis using fetched OSMNominatim by (simp add: LastQueryTime_def)
    next
      case MapQuestNominatim
      with Some have "\<not> EQUAL (pszGeocodingService h) ''OSM_NOMINATIM'' \<and>
                      EQUAL (pszGeocodingService h) ''MAPQUEST_NOMINATIM''"
        by (simp add: kind_of_service split: if_splits)
      moreover have "LastQueryTime OSMNominatim w' = LastQueryTime OSMNominatim w"
        using others MapQuestNominatim by simp
      ultimately show ?thesis using fetched MapQuestNominatim by (simp add: LastQueryTime_def)
    qed
  qed
qed

theorem only_two_services_are_throttled_witness:
  "(\<exists>w' hs' r.
      OGRGeocode demo_env world0 (Some demo_session_other) (Some ''Paris'') None [] = (w', hs', r) \<and>
      dfLastQueryTimeStampOSMNominatim w' = 0 \<and> dfLastQueryTimeStampMapQuestNominatim w' = 0 \<and>
      \<not> list_ex is_sleep (new_events world0 w') \<and> \<not> list_ex is_time_read (new_events world0 w')) \<and>
   (\<exists>w' hs' r.
      OGRGeocode demo_env world1 (Some demo_session_nocache) (Some ''Paris'') None [] = (w', hs', r) \<and>
      list_ex is_time_read (new_events world1 w') \<and>
      filter is_sleep (new_events world1 w') = [Sleep 1] \<and>
      dfLastQueryTimeStampOSMNominatim w' = clock_reading (clock w') \<and>
      dfLastQueryTimeStampMapQuestNominatim w' = 0)"
proof -
  obtain w' hs' r where
    run: "OGRGeocode demo_env world0 (Some demo_session_other) (Some ''Paris'') None [] = (w', hs', r)"
    by (metis prod_cases3)
  have other: "\<not> EQUAL (pszGeocodingService demo_session_other) ''OSM_NOMINATIM'' \<and>
               \<not> EQUAL (pszGeocodingService demo_session_other) ''MAPQUEST_NOMINATIM''"
    by (simp add: demo_session_other_def demo_session_def EQUAL_def toupper_def)
  have w0: "dfLastQueryTimeStampOSMNominatim world0 = 0 \<and> dfLastQueryTimeStampMapQuestNominatim world0 = 0"
    by (simp add: world0_def)
  have a: "dfLastQueryTimeStampOSMNominatim w' = 0 \<and> dfLastQueryTimeStampMapQuestNominatim w' = 0 \<and>
      \<not> list_ex is_sleep (new_events world0 w') \<and> \<not> list_ex is_time_read (new_events world0 w')"
    using only_two_services_are_throttled [OF run] other w0 by simp
  obtain v' gs' s where
    run2: "OGRGeocode demo_env world1 (Some demo_session_nocache) (Some ''Paris'') None [] = (v', gs', s)"
    by (metis prod_cases3)
  have osm: "EQUAL (pszGeocodingService demo_session_nocache) ''OSM_NOMINATIM''"
    by (simp add: demo_session_nocache_def demo_session_def EQUAL_def)
  have w1: "dfLastQueryTimeStampMapQuestNominatim world1 = 0"
    by (simp add: world1_def)
  have "list_ex is_fetch (new_events world1 v')"
    using demo_nocache_events run2 by (simp add: is_fetch_def)
  then have b: "list_ex is_time_read (new_events world1 v') \<and>
      filter is_sleep (new_events world1 v') = [Sleep 1] \<and>
      dfLastQueryTimeStampOSMNominatim v' = clock_reading (clock v') \<and>
      dfLastQueryTimeStampMapQuestNominatim v' = 0"
    using only_two_services_are_throttled [OF run2] osm w1 demo_limiter by simp
  from a b run run2 show ?thesis by blast
qed

lemma the_fetch_event:
  assumes "ev \<in> set evs" and "is_fetch ev" and "filter is_fetch evs = [x]"
  shows "ev = x"
proof -
  from assms(1,2) have "ev \<in> set (filter is_fetch evs)" by simp
  with assms(3) show ?thesis by simp
qed

lemma throttled_fetch_times:
  assumes "pdfLastQueryTime h = Some k"
    and "OGRGeocode e w (Some h) (Some q) None opts = (w', hs', r)"
    and "HTTPFetch u p s t \<in> set (new_events w w')"
  shows "s = fetch_start (clock w) (LastQueryTime k w) (dfDelayBetweenQueries h) \<and> s \<le> t \<and>
         clock w' = t \<and> LastQueryTime k w' = clock_reading t \<and>
         filter is_sleep (new_events w w')
           = limiter_sleep (clock w) (LastQueryTime k w) (dfDelayBetweenQueries h)"
proof -
  from OGRGeocode_query_of [OF assms(2)] obtain h' where
    run: "OGRGeocode_query e w h q = (w', h', r)" by blast
  have isf: "is_fetch (HTTPFetch u p s t)" by (simp add: is_fetch_def)
  with assms(3) have ex: "list_ex is_fetch (new_events w w')" by (auto simp: list_ex_iff)
  with throttled_call [OF assms(1) run] obtain u' p' t' where
    f: "filter is_fetch (new_events w w')
          = [HTTPFetch u' p' (fetch_start (clock w) (LastQueryTime k w) (dfDelayBetweenQueries h)) t']"
       "fetch_start (clock w) (LastQueryTime k w) (dfDelayBetweenQueries h) \<le> t'"
       "clock w' = t'" "LastQueryTime k w' = clock_reading t'"
       "filter is_sleep (new_events w w')
           = limiter_sleep (clock w) (LastQueryTime k w) (dfDelayBetweenQueries h)"
    by auto
  from the_fetch_event [OF assms(3) isf f(1)] have
    "s = fetch_start (clock w) (LastQueryTime k w) (dfDelayBetweenQueries h)" "t = t'" by simp_all
  with f show ?thesis by simp
qed

text \<open>
  What the clock shows when the request starts: the gap that is left to the delay is
  made of the two roundings of the limiter and of what the time read is ahead of the
  clock.
\<close>

lemma fetch_start_bound:
  "stamp + d \<le> fetch_start c stamp d
                 + (round_off (stamp + d) + round_off (double_add stamp d - clock_reading c)
                    + (clock_reading c - c))"
proof -
  have r1: "stamp + d - round_off (stamp + d) \<le> double_add stamp d"
    by (simp add: round_off_def double_add_def)
  have r2: "double_add stamp d - clock_reading c - round_off (double_add stamp d - clock_reading c)
              \<le> double_sub (double_add stamp d) (clock_reading c)"
    by (simp add: round_off_def double_sub_def)
  have r3: "0 \<le> round_off (double_add stamp d - clock_reading c)"
    by (simp add: round_off_def)
  show ?thesis
  proof (cases "clock_reading c < double_add stamp d")
    case True
    then have "fetch_start c stamp d = c + double_sub (double_add stamp d) (clock_reading c)"
      by (simp add: fetch_start_def)
    with r1 r2 show ?thesis by linarith
  next
    case False
    then have "fetch_start c stamp d = c" by (simp add: fetch_start_def)
    with False r1 r3 show ?thesis by linarith
  qed
qed

lemma fetch_start_later: "c \<le> fetch_start c stamp d"
proof (cases "clock_reading c < double_add stamp d")
  case True
  then have "0 \<le> double_sub (double_add stamp d) (clock_reading c)"
    by (simp add: double_sub_def double_round_nonneg)
  with True show ?thesis by (simp add: fetch_start_def)
next
  case False
  then show ?thesis by (simp add: fetch_start_def)
qed

lemma demo_tenths_created:
  "OGRGeocodeCreateSession demo_env [''READ_CACHE=NO'', ''WRITE_CACHE=NO'', ''DELAY=0.3'']
     = Inr demo_session_tenths"
  by (simp add: OGRGeocodeCreateSession_def session_query_template_def session_service_def
        QueryTemplateDefault_def OGRGeocodeGetParameter_def str_or_def demo_env_def demo_option_def
        demo_extension_def demo_atof_def demo_session_tenths_def demo_session_nocache_def demo_session_def
        EQUAL_def EQUALN_def toupper_def DEFAULT_CACHE_SQLITE_def OSM_NOMINATIM_QUERY_def
        OGRGeocodeHasStringValidFormat_def Let_def)

lemmas demo_tenths_simps =
  demo_call_simps demo_tenths_first_def demo_tenths_second_def demo_session_tenths_def demo_tenths

text \<open>
  A session is created with the delay \<^verbatim>\<open>0.3\<close> and without cache, and two calls are
  made in a row. The request of the first call ends when the clock is \<open>1000.25\<close>, which
  becomes the time stamp. The second call reads that same time; the sum of the time
  stamp and the delay is rounded, and the call sleeps for less than the delay (for
  \<open>0.29999999999995453\<close> seconds), so that its request starts less than the delay
  after the first one ended.
\<close>

theorem sleep_is_rounded_counterexample:
  "OGRGeocodeCreateSession demo_env [''READ_CACHE=NO'', ''WRITE_CACHE=NO'', ''DELAY=0.3'']
     = Inr demo_session_tenths \<and>
   dfDelayBetweenQueries demo_session_tenths = 5404319552844595 / 18014398509481984 \<and>
   new_events world0 (fst demo_tenths_first)
     = [GetTimeOfDay 1000, HTTPFetch demo_url [''HEADERS=User-Agent: GDAL''] 1000 (4001 / 4),
        GetTimeOfDay (4001 / 4)] \<and>
   dfLastQueryTimeStampOSMNominatim (fst demo_tenths_first) = 4001 / 4 \<and>
   new_events (fst demo_tenths_first) (fst demo_tenths_second)
     = [GetTimeOfDay (4001 / 4), Sleep (1319413953331 / 4398046511104),
        HTTPFetch demo_url [''HEADERS=User-Agent: GDAL'']
          (4001 / 4 + 1319413953331 / 4398046511104)
          (4001 / 4 + 1319413953331 / 4398046511104 + 1 / 4),
        GetTimeOfDay (4001 / 4 + 1319413953331 / 4398046511104 + 1 / 4)] \<and>
   (1319413953331 / 4398046511104 :: real) < 4001 / 4 + 5404319552844595 / 18014398509481984 - 4001 / 4 \<and>
   (4001 / 4 + 1319413953331 / 4398046511104) - 4001 / 4
     < dfDelayBetweenQueries demo_session_tenths"
proof -
  have "dfDelayBetweenQueries demo_session_tenths = 5404319552844595 / 18014398509481984 \<and>
   new_events world0 (fst demo_tenths_first)
     = [GetTimeOfDay 1000, HTTPFetch demo_url [''HEADERS=User-Agent: GDAL''] 1000 (4001 / 4),
        GetTimeOfDay (4001 / 4)] \<and>
   dfLastQueryTimeStampOSMNominatim (fst demo_tenths_first) = 4001 / 4 \<and>
   new_events (fst demo_tenths_first) (fst demo_tenths_second)
     = [GetTimeOfDay (4001 / 4), Sleep (1319413953331 / 4398046511104),
        HTTPFetch demo_url [''HEADERS=User-Agent: GDAL'']
          (4001 / 4 + 1319413953331 / 4398046511104)
          (4001 / 4 + 1319413953331 / 4398046511104 + 1 / 4),
        GetTimeOfDay (4001 / 4 + 1319413953331 / 4398046511104 + 1 / 4)] \<and>
   (1319413953331 / 4398046511104 :: real) < 4001 / 4 + 5404319552844595 / 18014398509481984 - 4001 / 4 \<and>
   (4001 / 4 + 1319413953331 / 4398046511104) - 4001 / 4
     < dfDelayBetweenQueries demo_session_tenths"
    by (simp add: demo_tenths_simps)
  with demo_tenths_created show ?thesis by (rule conjI)
qed

text \<open>
  C4, amended. Take two calls for the same throttled service that both send a request,
  the second from a world in which the time stamp of the service is the one the first
  call left and the clock has not gone back. The first call left as time stamp the time
  read when its request ended, at \<open>t1\<close>. The limiter works in double precision on the
  time it reads: the second call sleeps exactly when the time read is less than the
  rounded sum of the time stamp and the delay of its session, and then for the rounded
  difference of that sum and the time read; its request starts when the sleep is over,
  and the time read when it ends becomes the new time stamp. So the second request
  starts no earlier than the first one ended, and no earlier than \<open>t1\<close> plus the delay
  less four errors: what rounding changed in the sum and in the difference (for each
  at most half the distance between neighbouring doubles), what the time read by the
  second call is ahead of the clock, and what the time stamp is behind \<open>t1\<close>. When
  nothing is rounded and the times read are those of the clock, the gap is at least the
  delay. (The claim as written has the limiter compare and subtract the exact numbers
  and promises the full delay.) Here sleeping for \<open>d\<close> moves the clock by \<open>d\<close>, and a
  request takes no negative time.
\<close>

theorem rate_limiter_spaces_the_fetches:
  assumes "pdfLastQueryTime h = Some k" and "pdfLastQueryTime g = Some k"
    and "OGRGeocode e w (Some h) (Some q) None opts = (w1, hs1, r1)"
    and "HTTPFetch u1 p1 s1 t1 \<in> set (new_events w w1)"
    and "LastQueryTime k wm = LastQueryTime k w1" and "clock w1 \<le> clock wm"
    and "OGRGeocode e wm (Some g) (Some q') None opts' = (w2, hs2, r2)"
    and "HTTPFetch u2 p2 s2 t2 \<in> set (new_events wm w2)"
    and "stamp = clock_reading t1" and "now = clock_reading (clock wm)"
    and "d = dfDelayBetweenQueries g"
  shows "LastQueryTime k w1 = stamp \<and> clock w1 = t1 \<and>
         filter is_sleep (new_events wm w2)
           = (if now < double_add stamp d
              then [Sleep (double_sub (double_add stamp d) now)] else []) \<and>
         s2 = (if now < double_add stamp d
               then clock wm + double_sub (double_add stamp d) now else clock wm) \<and>
         t1 \<le> s2 \<and> s2 \<le> t2 \<and> LastQueryTime k w2 = clock_reading t2 \<and> clock w2 = t2 \<and>
         t1 + d \<le> s2 + (round_off (stamp + d) + round_off (double_add stamp d - now)
                          + (now - clock wm) + (t1 - stamp)) \<and>
         round_off (stamp + d) \<le> pow2 (binade (stamp + d) - 53) \<and>
         round_off (double_add stamp d - now) \<le> pow2 (binade (double_add stamp d - now) - 53) \<and>
         (double_add stamp d = stamp + d \<and>
          double_sub (double_add stamp d) now = stamp + d - now \<and>
          now \<le> clock wm \<and> stamp = t1 \<longrightarrow> t1 + d \<le> s2)"
proof -
  note a = throttled_fetch_times [OF assms(1,3,4)]
  note b = throttled_fetch_times [OF assms(2,7,8)]
  have l: "LastQueryTime k wm = stamp" using a assms(5,9) by simp
  have s2: "s2 = fetch_start (clock wm) stamp d" using b l assms(11) by simp
  have sl: "filter is_sleep (new_events wm w2) = limiter_sleep (clock wm) stamp d"
    using b l assms(11) by simp
  have c1: "clock w1 = t1" using a by simp
  have later: "t1 \<le> s2"
    using fetch_start_later [of "clock wm" stamp d] assms(6) c1 s2 by simp
  have bound: "t1 + d \<le> s2 + (round_off (stamp + d) + round_off (double_add stamp d - now)
                          + (now - clock wm) + (t1 - stamp))"
    using fetch_start_bound [of stamp d "clock wm"] s2 assms(10) by simp
  have exact: "t1 + d \<le> s2"
    if "double_add stamp d = stamp + d" "double_sub (double_add stamp d) now = stamp + d - now"
       "now \<le> clock wm" "stamp = t1"
  proof (cases "now < double_add stamp d")
    case True
    then have "s2 = clock wm + double_sub (double_add stamp d) now"
      using s2 assms(10) by (simp add: fetch_start_def)
    with that show ?thesis by simp
  next
    case False
    then have "s2 = clock wm" using s2 assms(10) by (simp add: fetch_start_def)
    with False that show ?thesis by simp
  qed
  have "LastQueryTime k w1 = stamp \<and> clock w1 = t1" using a assms(9) by simp
  moreover have "filter is_sleep (new_events wm w2)
           = (if now < double_add stamp d
              then [Sleep (double_sub (double_add stamp d) now)] else [])"
    using sl assms(10) by (simp add: limiter_sleep_def)
  moreover have "s2 = (if now < double_add stamp d
               then clock wm + double_sub (double_add stamp d) now else clock wm)"
    using s2 assms(10) by (simp add: fetch_start_def)
  moreover have "s2 \<le> t2 \<and> LastQueryTime k w2 = clock_reading t2 \<and> clock w2 = t2"
    using b by simp
  moreover note later bound double_round_error [of "stamp + d"]
    double_round_error [of "double_add stamp d - now"]
  ultimately show ?thesis using exact by blast
qed

theorem rate_limiter_spaces_the_fetches_witness:
  "\<exists>w1 hs1 r1 w2 hs2 r2.
      OGRGeocode demo_env world0 (Some demo_session) (Some ''Paris'') None [] = (w1, hs1, r1) \<and>
      OGRGeocode demo_env world1 (Some demo_session_nocache) (Some ''Paris'') None [] = (w2, hs2, r2) \<and>
      HTTPFetch demo_url [''HEADERS=User-Agent: GDAL''] 1000 1000.25 \<in> set (new_events world0 w1) \<and>
      HTTPFetch demo_url [''HEADERS=User-Agent: GDAL''] 1001.25 1001.5 \<in> set (new_events world1 w2) \<and>
      filter is_sleep (new_events world1 w2) = [Sleep 1] \<and>
      LastQueryTime OSMNominatim w1 = 1000.25 \<and> LastQueryTime OSMNominatim w2 = 1001.5 \<and>
      (1000.25 :: real) + dfDelayBetweenQueries demo_session_nocache \<le> 1001.25"
proof -
  obtain w1 hs1 r1 where
    run1: "OGRGeocode demo_env world0 (Some demo_session) (Some ''Paris'') None [] = (w1, hs1, r1)"
    by (metis prod_cases3)
  obtain w2 hs2 r2 where
    run2: "OGRGeocode demo_env world1 (Some demo_session_nocache) (Some ''Paris'') None [] = (w2, hs2, r2)"
    by (metis prod_cases3)
  have k1: "pdfLastQueryTime demo_session = Some OSMNominatim"
    by (simp add: pdfLastQueryTime_def demo_session_def EQUAL_def)
  have k2: "pdfLastQueryTime demo_session_nocache = Some OSMNominatim"
    by (simp add: pdfLastQueryTime_def demo_session_nocache_def demo_session_def EQUAL_def)
  have f1: "HTTPFetch demo_url [''HEADERS=User-Agent: GDAL''] 1000 1000.25 \<in> set (new_events world0 w1)"
    using demo_call_events run1 by simp
  have f2: "HTTPFetch demo_url [''HEADERS=User-Agent: GDAL''] 1001.25 1001.5 \<in> set (new_events world1 w2)"
    using demo_nocache_events run2 by simp
  have rd: "clock_reading (4001 / 4) = 4001 / 4" "clock_reading (2003 / 2) = 2003 / 2"
    by (simp_all add: clock_reading_def timeval_at_def demo_readings)
  from throttled_fetch_times [OF k1 run1 f1] have t1: "clock w1 = 1000.25" "LastQueryTime OSMNominatim w1 = 1000.25"
    by (simp_all add: rd)
  have m1: "LastQueryTime OSMNominatim world1 = LastQueryTime OSMNominatim w1"
    using t1 by (simp add: world1_def LastQueryTime_def)
  have m2: "clock w1 \<le> clock world1" using t1 by (simp add: world1_def)
  have d: "dfDelayBetweenQueries demo_session_nocache = 1" "clock world1 = 1000.25"
    by (simp_all add: demo_session_nocache_def demo_session_def world1_def)
  have ex: "double_add 1000.25 1 = 1000.25 + 1" "double_sub (double_add 1000.25 1) 1000.25 = 1000.25 + 1 - 1000.25"
    by (simp_all add: demo_sums)
  note t = rate_limiter_spaces_the_fetches [OF k1 k2 run1 f1 m1 m2 run2 f2 refl refl refl]
  from t have "filter is_sleep (new_events world1 w2)
           = (if clock_reading (clock world1)
                   < double_add (clock_reading 1000.25) (dfDelayBetweenQueries demo_session_nocache)
              then [Sleep (double_sub (double_add (clock_reading 1000.25) (dfDelayBetweenQueries demo_session_nocache))
                             (clock_reading (clock world1)))] else [])"
    by (rule conjunct1 [OF conjunct2 [OF conjunct2]])
  then have sl: "filter is_sleep (new_events world1 w2) = [Sleep 1]"
    by (simp add: d rd demo_sums)
  from t have "LastQueryTime OSMNominatim w2 = clock_reading 1001.5"
    by (rule conjunct1 [OF conjunct2 [OF conjunct2 [OF conjunct2 [OF conjunct2 [OF conjunct2 [OF conjunct2]]]]]])
  then have l2: "LastQueryTime OSMNominatim w2 = 1001.5" by (simp add: rd)
  from t have "double_add (clock_reading 1000.25) (dfDelayBetweenQueries demo_session_nocache)
                 = clock_reading 1000.25 + dfDelayBetweenQueries demo_session_nocache \<and>
          double_sub (double_add (clock_reading 1000.25) (dfDelayBetweenQueries demo_session_nocache))
                     (clock_reading (clock world1))
                 = clock_reading 1000.25 + dfDelayBetweenQueries demo_session_nocache
                     - clock_reading (clock world1) \<and>
          clock_reading (clock world1) \<le> clock world1 \<and> clock_reading 1000.25 = 1000.25
          \<longrightarrow> 1000.25 + dfDelayBetweenQueries demo_session_nocache \<le> 1001.25"
    by (rule conjunct2 [OF conjunct2 [OF conjunct2 [OF conjunct2 [OF conjunct2 [OF conjunct2
          [OF conjunct2 [OF conjunct2 [OF conjunct2 [OF conjunct2 [OF conjunct2]]]]]]]]]])
  then have gap: "(1000.25 :: real) + dfDelayBetweenQueries demo_session_nocache \<le> 1001.25"
    by (simp add: d rd demo_sums)
  from run1 run2 f1 f2 sl t1(2) l2 gap show ?thesis by blast
qed

section \<open>Answers from the cache\<close>

lemma fetch_events_kind:
  assumes "OGRGeocode_fetch e w h url = (res, w')"
  shows "\<exists>evs. trace w' = trace w @ evs \<and> list_ex is_fetch evs \<and> list_all (\<lambda>ev. \<not> quiet ev) evs"
proof (cases "pdfLastQueryTime h")
  case None
  from fetch_unthrottled [OF None assms] show ?thesis
    by (auto simp: is_fetch_def quiet_def)
next
  case (Some k)
  from fetch_throttled [OF Some assms] obtain opts t where
    "trace w' = trace w @ [GetTimeOfDay (clock w)]
                    @ limiter_sleep (clock w) (LastQueryTime k w) (dfDelayBetweenQueries h)
                    @ [HTTPFetch url opts (fetch_start (clock w) (LastQueryTime k w) (dfDelayBetweenQueries h)) t,
                       GetTimeOfDay t]"
    by blast
  then show ?thesis by (auto simp: is_fetch_def quiet_def limiter_sleep_def)
qed

lemma result_insert:
  assumes "OGRGeocode_result e w h q u res = (w', h', r)"
  shows "(\<exists>b f. trace w' = trace w @ [CacheInsert u b f] \<and>
                OGRGeocodePutIntoCache e h u b = (h', f) \<and> r = OGRGeocodeBuildLayer e b) \<or>
         trace w' = trace w \<or> (\<exists>m. trace w' = trace w @ [CPLError m])"
  using assms
  by (auto simp: OGRGeocode_result_def log_event_def split: option.splits if_splits prod.splits)

lemma hit_call:
  assumes "bReadCache h" and "OGRGeocodeGetFromCache e h (OGRGeocode_osURL e h q) = (h1, Some body)"
  shows "OGRGeocode e w (Some h) (Some q) None opts
           = (log_event (CacheLookup (OGRGeocode_osURL e h q)) w, Some h1, OGRGeocodeBuildLayer e body)"
  using assms
  by (simp add: OGRGeocode_def OGRGeocode_query_def OGRGeocode_lookup_def Let_def)

lemma same_settings_osURL:
  "same_settings h h1 \<Longrightarrow> OGRGeocode_osURL e h1 q = OGRGeocode_osURL e h q"
  by (simp add: same_settings_def OGRGeocode_osURL_def)

text \<open>After a call that got its answer, the body is what a lookup returns.\<close>

lemma stored_after_call:
  assumes rd: "bReadCache h"
    and run: "OGRGeocode_query e w h q = (w1, h1, r1)"
    and u: "u = OGRGeocode_osURL e h q"
    and stored: "list_ex is_fetch (new_events w w1) \<longrightarrow>
               (\<exists>body. CacheInsert u body True \<in> set (new_events w w1)) \<and>
               length (session_cache_rows h1 u) = 1"
  shows "\<exists>body. OGRGeocodeGetFromCache e h1 u = (h1, Some body) \<and> r1 = OGRGeocodeBuildLayer e body"
proof -
  let ?ue = "OGRGeocode_osURLWithEmail e h u"
  from query_split [OF run] u obtain wa ha c where
    lk: "OGRGeocode_lookup e w h u = (wa, ha, c)" and
    rest: "case c of
              Some body \<Rightarrow> w1 = wa \<and> h1 = ha \<and> r1 = OGRGeocodeBuildLayer e body
            | None \<Rightarrow>
                (\<exists>res w2. OGRGeocode_fetch e wa ha ?ue = (res, w2) \<and>
                           OGRGeocode_result e w2 ha q u res = (w1, h1, r1))"
    by blast
  from lookup_effect [OF lk] rd have
    ta: "trace wa = trace w @ [CacheLookup u]" and gc: "OGRGeocodeGetFromCache e h u = (ha, c)"
    by simp_all
  show ?thesis
  proof (cases c)
    case (Some body)
    with rest gc have "OGRGeocodeGetFromCache e h u = (h1, Some body)" "r1 = OGRGeocodeBuildLayer e body"
      by simp_all
    with GetFromCache_idem show ?thesis by blast
  next
    case None
    with rest obtain res w2 where f: "OGRGeocode_fetch e wa ha ?ue = (res, w2)"
      and rs: "OGRGeocode_result e w2 ha q u res = (w1, h1, r1)" by auto
    from fetch_events_kind [OF f] obtain mid where
      mid: "trace w2 = trace wa @ mid" "list_ex is_fetch mid" "list_all (\<lambda>ev. \<not> quiet ev) mid"
      by blast
    have notin_mid: "CacheInsert u b True \<notin> set mid" for b
      using mid(3) by (auto simp: list_all_iff quiet_def)
    from result_insert [OF rs] show ?thesis
    proof (elim disjE exE conjE)
      fix b fl
      assume t: "trace w1 = trace w2 @ [CacheInsert u b fl]"
        and put: "OGRGeocodePutIntoCache e ha u b = (h1, fl)"
        and r1: "r1 = OGRGeocodeBuildLayer e b"
      have ne: "new_events w w1 = [CacheLookup u] @ mid @ [CacheInsert u b fl]"
        using ta mid(1) t by (simp add: new_events_append)
      then have "list_ex is_fetch (new_events w w1)" using mid(2) by (simp add: list_ex_append)
      with stored obtain body where
        ins: "CacheInsert u body True \<in> set (new_events w w1)" and
        one: "length (session_cache_rows h1 u) = 1" by blast
      from ins notin_mid have "fl = True" by (auto simp: ne)
      with put have "OGRGeocodePutIntoCache e ha u b = (h1, True)" by simp
      from lookup_after_insert [OF this one] r1 show ?thesis by blast
    next
      assume t: "trace w1 = trace w2"
      have ne: "new_events w w1 = [CacheLookup u] @ mid"
        using ta mid(1) t by (simp add: new_events_append)
      then have "list_ex is_fetch (new_events w w1)" using mid(2) by (simp add: list_ex_append)
      with stored obtain body where "CacheInsert u body True \<in> set (new_events w w1)" by blast
      with notin_mid show ?thesis by (auto simp: ne)
    next
      fix m
      assume t: "trace w1 = trace w2 @ [CPLError m]"
      have ne: "new_events w w1 = [CacheLookup u] @ mid @ [CPLError m]"
        using ta mid(1) t by (simp add: new_events_append)
      then have "list_ex is_fetch (new_events w w1)" using mid(2) by (simp add: list_ex_append)
      with stored obtain body where "CacheInsert u body True \<in> set (new_events w w1)" by blast
      with notin_mid show ?thesis by (auto simp: ne)
    qed
  qed
qed

text \<open>
  When the service cannot be reached, both of two calls in a row with the same query send
  a request, although reading and writing the cache are enabled.
\<close>

theorem second_call_fetches_again_counterexample:
  "bReadCache demo_session \<and> bWriteCache demo_session \<and>
   list_ex is_fetch (new_events world0 (fst demo_down_first)) \<and>
   list_ex is_fetch (new_events (fst demo_down_first) (fst demo_down_second))"
  by (simp add: demo_call_simps2 is_fetch_def)

text \<open>
  C3, amended. With reading of the cache enabled: when the lookup of \<open>osURL\<close> returns
  a body, the call returns the decoding of that body, and all it does to the outside is
  that lookup: no request, and the clock and both time stamps are as before. For two
  calls in a row with the same query, reading and writing enabled: if the first call
  sent no request (it was answered by the cache), or sent one, stored the body with
  success and the cache then holds a single row for the URL, then the second call sends
  no request, leaves the times as they are and returns what the first returned. (The
  claim as written promises this for any two calls; when the request or the insertion
  fails nothing is stored and the second call sends a request again.)
\<close>

theorem cache_hit_answers_without_fetch:
  assumes "bReadCache h" and "u = OGRGeocode_osURL e h q"
  shows "(\<forall>h1 body. OGRGeocodeGetFromCache e h u = (h1, Some body) \<longrightarrow>
            (\<exists>w'. OGRGeocode e w (Some h) (Some q) None opts
                     = (w', Some h1, OGRGeocodeBuildLayer e body) \<and>
                  new_events w w' = [CacheLookup u] \<and> same_times w w')) \<and>
         (\<forall>w1 h1 r1 w2 hs2 r2.
            bWriteCache h \<and>
            OGRGeocode e w (Some h) (Some q) None opts = (w1, Some h1, r1) \<and>
            (list_ex is_fetch (new_events w w1) \<longrightarrow>
               (\<exists>body. CacheInsert u body True \<in> set (new_events w w1)) \<and>
               length (session_cache_rows h1 u) = 1) \<and>
            OGRGeocode e w1 (Some h1) (Some q) None opts' = (w2, hs2, r2) \<longrightarrow>
            new_events w1 w2 = [CacheLookup u] \<and> same_times w1 w2 \<and> r2 = r1)"
proof (rule conjI; intro allI impI)
  fix h1 body
  assume "OGRGeocodeGetFromCache e h u = (h1, Some body)"
  then have "OGRGeocodeGetFromCache e h (OGRGeocode_osURL e h q) = (h1, Some body)"
    by (simp only: assms(2))
  with assms(1) have "OGRGeocode e w (Some h) (Some q) None opts
           = (log_event (CacheLookup (OGRGeocode_osURL e h q)) w, Some h1, OGRGeocodeBuildLayer e body)"
    by (rule hit_call)
  then have "OGRGeocode e w (Some h) (Some q) None opts
           = (log_event (CacheLookup u) w, Some h1, OGRGeocodeBuildLayer e body)"
    by (simp only: assms(2))
  moreover have "new_events w (log_event (CacheLookup u) w) = [CacheLookup u]"
    by (simp add: new_events_def log_event_def)
  ultimately show "\<exists>w'. OGRGeocode e w (Some h) (Some q) None opts
                     = (w', Some h1, OGRGeocodeBuildLayer e body) \<and>
                  new_events w w' = [CacheLookup u] \<and> same_times w w'"
    using same_times_log by blast
next
  fix w1 h1 r1 w2 hs2 r2
  assume a: "bWriteCache h \<and>
            OGRGeocode e w (Some h) (Some q) None opts = (w1, Some h1, r1) \<and>
            (list_ex is_fetch (new_events w w1) \<longrightarrow>
               (\<exists>body. CacheInsert u body True \<in> set (new_events w w1)) \<and>
               length (session_cache_rows h1 u) = 1) \<and>
            OGRGeocode e w1 (Some h1) (Some q) None opts' = (w2, hs2, r2)"
  from a have c1: "OGRGeocode e w (Some h) (Some q) None opts = (w1, Some h1, r1)" by (rule conjunct1 [OF conjunct2])
  from a have stored: "list_ex is_fetch (new_events w w1) \<longrightarrow>
               (\<exists>body. CacheInsert u body True \<in> set (new_events w w1)) \<and>
               length (session_cache_rows h1 u) = 1" by (rule conjunct1 [OF conjunct2 [OF conjunct2]])
  from a have c2: "OGRGeocode e w1 (Some h1) (Some q) None opts' = (w2, hs2, r2)"
    by (rule conjunct2 [OF conjunct2 [OF conjunct2]])
  from OGRGeocode_query_of [OF c1] have run: "OGRGeocode_query e w h q = (w1, h1, r1)" by simp
  from stored_after_call [OF assms(1) run assms(2) stored] obtain body where
    b: "OGRGeocodeGetFromCache e h1 u = (h1, Some body)" "r1 = OGRGeocodeBuildLayer e body" by blast
  have ss: "same_settings h h1" using query_frame [OF run] by simp
  have u1: "OGRGeocode_osURL e h1 q = u"
    using ss assms(2) by (simp add: same_settings_osURL)
  have rd1: "bReadCache h1" using ss assms(1) by (simp add: same_settings_def)
  have b1: "OGRGeocodeGetFromCache e h1 (OGRGeocode_osURL e h1 q) = (h1, Some body)"
    using b(1) by (simp only: u1)
  have "OGRGeocode e w1 (Some h1) (Some q) None opts'
           = (log_event (CacheLookup (OGRGeocode_osURL e h1 q)) w1, Some h1, OGRGeocodeBuildLayer e body)"
    using rd1 b1 by (rule hit_call)
  with c2 have w2: "w2 = log_event (CacheLookup u) w1" and r2: "r2 = OGRGeocodeBuildLayer e body"
    by (simp_all only: u1 prod.inject)
  have "new_events w1 (log_event (CacheLookup u) w1) = [CacheLookup u]"
    by (simp add: new_events_def log_event_def)
  then show "new_events w1 w2 = [CacheLookup u] \<and> same_times w1 w2 \<and> r2 = r1"
    using w2 r2 b(2) same_times_log [of w1 "CacheLookup u"] by simp
qed

lemma demo_cached_lookup:
  "OGRGeocodeGetFromCache demo_env demo_cached_session demo_url = (demo_cached_session, Some doc_paris)"
  by (simp add: demo_call_simps2)

theorem cache_hit_answers_without_fetch_witness:
  "(\<exists>w'. OGRGeocode demo_env world0 (Some demo_cached_session) (Some ''Paris'') None []
            = (w', Some demo_cached_session, OGRGeocodeBuildLayer demo_env doc_paris) \<and>
          new_events world0 w' = [CacheLookup demo_url] \<and> same_times world0 w') \<and>
   (\<exists>w1 h1 r1 w2 hs2 r2.
      OGRGeocode demo_env world0 (Some demo_session) (Some ''Paris'') None [] = (w1, Some h1, r1) \<and>
      list_ex is_fetch (new_events world0 w1) \<and>
      OGRGeocode demo_env w1 (Some h1) (Some ''Paris'') None [] = (w2, hs2, r2) \<and>
      new_events w1 w2 = [CacheLookup demo_url] \<and> r2 = r1)"
proof -
  have rw: "bReadCache demo_session" "bWriteCache demo_session" "bReadCache demo_cached_session"
    by (simp_all add: demo_session_def demo_cached_session_def)
  have u: "demo_url = OGRGeocode_osURL demo_env demo_session ''Paris''"
          "demo_url = OGRGeocode_osURL demo_env demo_cached_session ''Paris''"
    by (simp_all add: demo_call_simps2)
  have a: "\<exists>w'. OGRGeocode demo_env world0 (Some demo_cached_session) (Some ''Paris'') None []
            = (w', Some demo_cached_session, OGRGeocodeBuildLayer demo_env doc_paris) \<and>
          new_events world0 w' = [CacheLookup demo_url] \<and> same_times world0 w'"
    using cache_hit_answers_without_fetch [OF rw(3) u(2), of world0 "[]" "[]"] demo_cached_lookup
    by blast
  obtain w1 hs1 r1 where
    run1: "OGRGeocode demo_env world0 (Some demo_session) (Some ''Paris'') None [] = (w1, hs1, r1)"
    by (metis prod_cases3)
  from OGRGeocode_query_of [OF run1] obtain h1 where h1: "hs1 = Some h1" by blast
  obtain w2 hs2 r2 where
    run2: "OGRGeocode demo_env w1 (Some h1) (Some ''Paris'') None [] = (w2, hs2, r2)"
    by (metis prod_cases3)
  have ev: "new_events world0 w1 = [CacheLookup demo_url, GetTimeOfDay 1000,
        HTTPFetch demo_url [''HEADERS=User-Agent: GDAL''] 1000 1000.25,
        GetTimeOfDay 1000.25, CacheInsert demo_url doc_paris True]"
    using demo_call_events run1 by simp
  have fetched: "list_ex is_fetch (new_events world0 w1)" by (simp add: ev is_fetch_def)
  have ins: "\<exists>body. CacheInsert demo_url body True \<in> set (new_events world0 w1)" by (simp add: ev)
  have one: "length (session_cache_rows h1 demo_url) = 1"
    using demo_call_rows run1 h1 by simp
  have "new_events w1 w2 = [CacheLookup demo_url] \<and> same_times w1 w2 \<and> r2 = r1"
    using cache_hit_answers_without_fetch [OF rw(1) u(1), of world0 "[]" "[]"]
          rw(2) run1 h1 ins one run2
    by blast
  with run1 h1 run2 fetched a show ?thesis by blast
qed

end
